(* ===== verification/Prelude.thy ===== *)
theory Prelude
  imports Main "HOL-Library.Word"
begin

text \<open>
  The shared base of the development: the machine integer types of the C++ code, the
  collections of facts its proofs use, and the generic lemmas on unsigned words, on lists whose
  elements carry a key, and on transition tables that several components need.
\<close>

section \<open>Machine integers\<close>

text \<open>
  The aliases of \<^verbatim>\<open>src/project/src/core/platform/runtime_platform.hpp\<close>. Arithmetic on them wraps
  and \<open><\<close> is the unsigned order, as in the source.
\<close>

type_synonym u8 = "8 word"
type_synonym u16 = "16 word"
type_synonym u32 = "32 word"
type_synonym u64 = "64 word"
type_synonym byte = "8 word"

text \<open>\<^verbatim>\<open>std::numeric_limits<u64>::max()\<close>.\<close>

definition u64_max :: u64 where
  "u64_max = - 1"

section \<open>Collections of facts\<close>

named_theorems enum_simps \<open>predicates on the enumerations of the code, by cases\<close>
named_theorems diag_simps \<open>constructors of status and diagnostic values\<close>
named_theorems frame_simps \<open>fields that an operation leaves alone\<close>

section \<open>Unsigned words\<close>

lemma u64_le_max [simp]: "x \<le> u64_max"
  by (simp add: u64_max_def word_order.extremum)

lemma u64_of_nat: "n < 2 ^ 64 \<Longrightarrow> unat (of_nat n :: u64) = n"
  by (simp add: unat_of_nat)

lemma u64_inc_unat: "x \<noteq> u64_max \<Longrightarrow> unat (x + 1) = Suc (unat x)"
proof -
  assume "x \<noteq> u64_max"
  then have "1 + x \<noteq> 0"
    by (metis add.commute add_eq_0_iff u64_max_def)
  from unatSuc [OF this] show ?thesis by (simp add: add.commute)
qed

lemma u64_less_inc: "x \<noteq> u64_max \<Longrightarrow> x < x + 1"
  by (simp add: word_less_nat_alt u64_inc_unat)

lemma u64_less_inc_iff: "x \<noteq> u64_max \<Longrightarrow> y < x + 1 \<longleftrightarrow> y \<le> x"
  by (auto simp: word_less_nat_alt word_le_nat_alt u64_inc_unat)

lemma u64_inc_nonzero: "x \<noteq> u64_max \<Longrightarrow> x + 1 \<noteq> 0"
  using u64_less_inc [of x] by auto

lemma u64_dec_unat: "x \<noteq> 0 \<Longrightarrow> unat (x - 1) = unat x - 1" for x :: u64
  by (metis unat_minus_one)

lemma u64_dec_less: "x \<noteq> 0 \<Longrightarrow> x - 1 < x" for x :: u64
  by (simp add: word_less_nat_alt u64_dec_unat unat_gt_0)

lemma u64_le_dec_iff: "x \<noteq> 0 \<Longrightarrow> y \<le> x - 1 \<longleftrightarrow> y < x" for x y :: u64
proof -
  assume "x \<noteq> 0"
  then have "0 < unat x" by (simp add: unat_gt_0)
  with \<open>x \<noteq> 0\<close> show ?thesis
    by (auto simp: word_less_nat_alt word_le_nat_alt u64_dec_unat)
qed

lemma u64_dec_less_iff: "x \<noteq> 0 \<Longrightarrow> x - 1 < y \<longleftrightarrow> x \<le> y" for x y :: u64
  using u64_le_dec_iff [of x y] by (metis not_le)

lemma u64_pos_iff: "0 < x \<longleftrightarrow> x \<noteq> 0" for x :: u64
  by (rule word_neq_0_conv [symmetric])

section \<open>Lists of keyed entries\<close>

text \<open>
  The code keeps records in a \<^verbatim>\<open>std::vector\<close> and finds one by a linear search for its key, then
  writes through the pointer it found. The search is \<open>find\<close>; the write is \<open>replace_first\<close>, which
  stores at the position the search stops at.
\<close>

fun replace_first :: "('a \<Rightarrow> bool) \<Rightarrow> 'a \<Rightarrow> 'a list \<Rightarrow> 'a list" where
  "replace_first p y [] = []"
| "replace_first p y (x # xs) = (if p x then y # xs else x # replace_first p y xs)"

lemma find_Some_mem: "find p xs = Some x \<Longrightarrow> x \<in> set xs \<and> p x"
  by (metis (mono_tags, lifting) find_Some_iff nth_mem)

lemma find_None_all: "find p xs = None \<longleftrightarrow> (\<forall>x \<in> set xs. \<not> p x)"
  by (auto simp: find_None_iff)

lemma length_replace_first [simp]: "length (replace_first p y xs) = length xs"
  by (induction xs) auto

lemma set_replace_first: "set (replace_first p y xs) \<subseteq> insert y (set xs)"
  by (induction xs) auto

lemma replace_first_mem:
  "find p xs = Some x \<Longrightarrow> y \<in> set (replace_first p y xs)"
  by (induction xs) (auto split: if_splits)

lemma replace_first_split:
  assumes "find p xs = Some x"
  shows "\<exists>us vs. xs = us @ x # vs \<and> (\<forall>u \<in> set us. \<not> p u) \<and> p x
    \<and> replace_first p y xs = us @ y # vs"
  using assms
proof (induction xs)
  case Nil
  then show ?case by simp
next
  case (Cons z zs)
  show ?case
  proof (cases "p z")
    case True
    with Cons.prems have "x = z" by simp
    with True show ?thesis by (intro exI [of _ "[]"] exI [of _ zs]) auto
  next
    case False
    with Cons obtain us vs where "zs = us @ x # vs" "\<forall>u \<in> set us. \<not> p u" "p x"
      "replace_first p y zs = us @ y # vs" by auto
    with False show ?thesis by (intro exI [of _ "z # us"] exI [of _ vs]) auto
  qed
qed

lemma map_replace_first:
  "find p xs = Some x \<Longrightarrow> f y = f x \<Longrightarrow> map f (replace_first p y xs) = map f xs"
  by (induction xs) (auto split: if_splits)

lemma find_key_distinct:
  assumes "distinct (map key xs)" "x \<in> set xs"
  shows "find (\<lambda>e. key e = key x) xs = Some x"
  using assms
proof (induction xs)
  case Nil
  then show ?case by simp
next
  case (Cons y ys)
  show ?case
  proof (cases "key y = key x")
    case True
    with Cons.prems have "x = y" by (auto simp: image_iff)
    with True show ?thesis by simp
  next
    case False
    with Cons show ?thesis by auto
  qed
qed

lemma key_unique:
  "distinct (map key xs) \<Longrightarrow> x \<in> set xs \<Longrightarrow> y \<in> set xs \<Longrightarrow> key x = key y \<Longrightarrow> x = y"
  by (metis find_key_distinct option.inject)

lemma find_replace_first_same:
  "find (\<lambda>e. key e = k) xs = Some x \<Longrightarrow> key y = k \<Longrightarrow>
   find (\<lambda>e. key e = k) (replace_first (\<lambda>e. key e = k) y xs) = Some y"
  by (induction xs) (auto split: if_splits)

lemma find_replace_first_other:
  "k' \<noteq> k \<Longrightarrow> key y = k \<Longrightarrow>
   find (\<lambda>e. key e = k') (replace_first (\<lambda>e. key e = k) y xs) = find (\<lambda>e. key e = k') xs"
  by (induction xs) (auto split: if_splits)

lemma mem_replace_first_iff:
  assumes "distinct (map key xs)" "find (\<lambda>e. key e = k) xs = Some x"
  shows "z \<in> set (replace_first (\<lambda>e. key e = k) y xs) \<longleftrightarrow> z = y \<or> z \<in> set xs \<and> key z \<noteq> k"
proof -
  from replace_first_split [OF assms(2), of y] obtain us vs where
    xs: "xs = us @ x # vs" and k: "key x = k"
    and rf: "replace_first (\<lambda>e. key e = k) y xs = us @ y # vs" by auto
  from assms(1) k have "\<forall>u \<in> set us \<union> set vs. key u \<noteq> k" by (auto simp: xs image_iff)
  with k show ?thesis unfolding rf by (auto simp: xs)
qed

section \<open>Minimum over a list of words\<close>

text \<open>The shape of the code's \<open>for\<close> loops that lower a bound with \<^verbatim>\<open>std::min\<close>.\<close>

lemma fold_min_le_init: "fold (\<lambda>x m. min m (f x)) xs (a::'a::linorder) \<le> a"
proof (induction xs arbitrary: a)
  case Nil
  then show ?case by simp
next
  case (Cons y ys)
  then show ?case by (metis fold_simps(2) min.bounded_iff)
qed

lemma fold_min_le_mem: "x \<in> set xs \<Longrightarrow> fold (\<lambda>x m. min m (f x)) xs (a::'a::linorder) \<le> f x"
proof (induction xs arbitrary: a)
  case Nil
  then show ?case by simp
next
  case (Cons y ys)
  then show ?case
    by (auto intro: order_trans [OF fold_min_le_init])
qed

lemma fold_min_in:
  "fold (\<lambda>x m. min m (f x)) xs (a::'a::linorder) = a
   \<or> (\<exists>x \<in> set xs. fold (\<lambda>x m. min m (f x)) xs a = f x)"
proof (induction xs arbitrary: a)
  case Nil
  then show ?case by simp
next
  case (Cons y ys)
  from Cons.IH [of "min a (f y)"] show ?case
    by (auto simp: min_def split: if_splits)
qed

lemma le_fold_min_iff:
  "b \<le> fold (\<lambda>x m. min m (f x)) xs (a::'a::linorder) \<longleftrightarrow> b \<le> a \<and> (\<forall>x \<in> set xs. b \<le> f x)"
  by (induction xs arbitrary: a) auto

lemma fold_max_ge_iff:
  "fold (\<lambda>x m. max m (f x)) xs (a::'a::linorder) \<le> b \<longleftrightarrow> a \<le> b \<and> (\<forall>x \<in> set xs. f x \<le> b)"
  by (induction xs arbitrary: a) auto

lemma fold_max_ge_mem:
  "x \<in> set xs \<Longrightarrow> f x \<le> fold (\<lambda>x m. max m (f x)) xs (a::'a::linorder)"
  using fold_max_ge_iff [of f xs a "fold (\<lambda>x m. max m (f x)) xs a"] by auto

lemma fold_if_filter: "fold (\<lambda>x m. if p x then g x m else m) xs a = fold g (filter p xs) a"
  by (induction xs arbitrary: a) auto

lemma distinct_map_filter_replace:
  assumes "find p xs = Some x" and "distinct (map f (filter q xs))"
    and "q y \<Longrightarrow> q x \<and> f y = f x \<or> (\<forall>z \<in> set xs. q z \<longrightarrow> f z \<noteq> f y)"
  shows "distinct (map f (filter q (replace_first p y xs)))"
proof -
  from replace_first_split [OF assms(1), of y] obtain us vs where
    xs: "xs = us @ x # vs" and rf: "replace_first p y xs = us @ y # vs" by auto
  show ?thesis
  proof (cases "q y")
    case True
    from assms(3) [OF True] show ?thesis
    proof
      assume "q x \<and> f y = f x"
      with assms(2) True show ?thesis unfolding rf by (simp add: xs)
    next
      assume "\<forall>z \<in> set xs. q z \<longrightarrow> f z \<noteq> f y"
      with assms(2) True show ?thesis unfolding rf by (auto simp: xs image_iff split: if_splits)
    qed
  next
    case False
    with assms(2) show ?thesis unfolding rf by (auto simp: xs split: if_splits)
  qed
qed

text \<open>A validation that returns the empty string for valid and a reason otherwise.\<close>

lemma reason_if: "s \<noteq> [] \<Longrightarrow> (if c then s else x) = [] \<longleftrightarrow> \<not> c \<and> x = []"
  by simp

section \<open>Interfaces\<close>

text \<open>
  A component whose state is changed by steps and has an invariant. The clients of the component use
  the invariant of every state a run reaches.
\<close>

locale invariant_system =
  fixes step :: "'s \<Rightarrow> 's \<Rightarrow> bool" and inv_of :: "'s \<Rightarrow> bool"
  assumes step_keeps: "step s s' \<Longrightarrow> inv_of s \<Longrightarrow> inv_of s'"
begin

lemma run_keeps: "step\<^sup>*\<^sup>* s s' \<Longrightarrow> inv_of s \<Longrightarrow> inv_of s'"
  by (induction rule: rtranclp_induct) (auto intro: step_keeps)

end

text \<open>
  A component that promises a relation between the states before and after a step, such as a counter
  that never decreases or facts that are never rewritten. Along a run the relation accumulates.
\<close>

locale history_system = invariant_system step inv_of
  for step :: "'s \<Rightarrow> 's \<Rightarrow> bool" and inv_of :: "'s \<Rightarrow> bool" +
  fixes since :: "'s \<Rightarrow> 's \<Rightarrow> bool"
  assumes since_refl: "since s s"
    and since_trans: "since a b \<Longrightarrow> since b c \<Longrightarrow> since a c"
    and step_since: "step s s' \<Longrightarrow> inv_of s \<Longrightarrow> since s s'"
begin

lemma run_since: "step\<^sup>*\<^sup>* s s' \<Longrightarrow> inv_of s \<Longrightarrow> since s s'"
proof (induction rule: rtranclp_induct)
  case base
  show ?case by (rule since_refl)
next
  case (step b c)
  have "inv_of b" using run_keeps [OF step.hyps(1) step.prems] .
  with step show ?case by (blast intro: since_trans step_since)
qed

end

text \<open>
  A list of items with a numeric key, unique in every valid state and below an allocation counter:
  the contract of the inventories and tables that are searched linearly.
\<close>

locale keyed_items =
  fixes valid :: "'s \<Rightarrow> bool" and items :: "'s \<Rightarrow> 'a list" and key_of :: "'a \<Rightarrow> u64"
    and bound :: "'s \<Rightarrow> u64"
  assumes keys_distinct: "valid s \<Longrightarrow> distinct (map key_of (items s))"
    and keys_bounded: "valid s \<Longrightarrow> x \<in> set (items s) \<Longrightarrow> key_of x < bound s"
begin

lemma same_key: "valid s \<Longrightarrow> x \<in> set (items s) \<Longrightarrow> y \<in> set (items s) \<Longrightarrow> key_of x = key_of y \<Longrightarrow> x = y"
  using key_unique [OF keys_distinct] .

lemma find_item: "valid s \<Longrightarrow> x \<in> set (items s) \<Longrightarrow> find (\<lambda>y. key_of y = key_of x) (items s) = Some x"
  using find_key_distinct [OF keys_distinct] .

lemma find_unallocated: "valid s \<Longrightarrow> bound s \<le> k \<Longrightarrow> find (\<lambda>y. key_of y = k) (items s) = None"
  using keys_bounded by (fastforce simp: find_None_iff)

end

end
