(* ===== verification/Platform.thy ===== *)
theory Platform
  imports Prelude
begin

text \<open>
  The platform types of \<^verbatim>\<open>src/project/src/core/platform/runtime_platform.hpp\<close> and the
  diagnostic records of \<^verbatim>\<open>runtime_platform.cpp\<close>: status values, UUIDs, typed UUIDs, diagnostics
  and the validation of a diagnostic record. A function of the code that returns a struct with a
  \<^verbatim>\<open>status\<close>, a value and a \<^verbatim>\<open>diagnostic\<close> returns \<open>Inl diagnostic\<close> here when the status is an
  error and \<open>Inr value\<close> when it is ok.
\<close>

section \<open>Status\<close>

datatype severity = Sev_trace | Sev_info | Sev_warning | Sev_error | Sev_fatal

datatype subsystem =
    Sub_platform | Sub_diagnostics | Sub_uuid | Sub_time | Sub_memory | Sub_storage_disk
  | Sub_storage_page | Sub_datatypes | Sub_transaction_mga | Sub_catalog | Sub_engine
  | Sub_parser | Sub_cluster_private

datatype status_code =
    SC_ok | SC_platform_compile_gate_failed | SC_platform_unknown_endian
  | SC_platform_required_feature_missing | SC_diagnostic_invalid_record | SC_uuid_invalid
  | SC_time_source_unavailable | SC_memory_invalid_request | SC_memory_allocation_failed
  | SC_memory_limit_exceeded | SC_memory_unknown_pointer
  | SC_mga_cow_invalid_kind | SC_mga_cow_invalid_transaction_identity
  | SC_mga_cow_invalid_row_identity | SC_mga_cow_insert_has_base | SC_mga_cow_base_required
  | SC_mga_cow_invalid_base_sequence | SC_mga_cow_invalid_new_sequence
  | SC_mga_cow_nonincreasing_sequence | SC_mga_cow_invalid_phase | SC_mga_cow_invalid_row_state
  | SC_mga_cow_evidence_required | SC_mga_cow_illegal_transition
  | SC_mga_cow_transaction_not_writable | SC_mga_cow_invalid_row_metadata
  | SC_mga_cow_read_only_transaction

record status =
  status_code :: status_code
  status_severity :: severity
  status_subsystem :: subsystem

text \<open>\<^verbatim>\<open>Status::ok()\<close>.\<close>

definition status_ok :: "status \<Rightarrow> bool" where
  "status_ok s \<longleftrightarrow> status_code s = SC_ok"

section \<open>UUIDs\<close>

datatype uuid_kind =
    UK_database | UK_cluster | UK_filespace | UK_schema | UK_object | UK_row | UK_page
  | UK_transaction | UK_session | UK_principal | UK_unknown

text \<open>
  \<^verbatim>\<open>struct Uuid\<close> holds a \<^verbatim>\<open>std::array<byte, 16>\<close>. The model keeps the bytes as a list; lemmas that
  read a byte by its position assume \<open>wf_uuid\<close>, the length the array type fixes.
\<close>

datatype uuid = Uuid (uuid_bytes: "byte list")

definition wf_uuid :: "uuid \<Rightarrow> bool" where
  "wf_uuid u \<longleftrightarrow> length (uuid_bytes u) = 16"

text \<open>\<^verbatim>\<open>Uuid::is_nil\<close> and the default value, sixteen zero bytes.\<close>

definition is_nil :: "uuid \<Rightarrow> bool" where
  "is_nil u \<longleftrightarrow> list_all (\<lambda>b. b = 0) (uuid_bytes u)"

definition NilUuid :: uuid where
  "NilUuid = Uuid (replicate 16 0)"

record typed_uuid =
  uuid_kind :: uuid_kind
  uuid_value :: uuid

text \<open>\<^verbatim>\<open>TypedUuid::valid()\<close>, and the value of a default constructed \<^verbatim>\<open>TypedUuid\<close>.\<close>

definition typed_uuid_valid :: "typed_uuid \<Rightarrow> bool" where
  "typed_uuid_valid t \<longleftrightarrow> uuid_kind t \<noteq> UK_unknown \<and> \<not> is_nil (uuid_value t)"

definition default_typed_uuid :: typed_uuid where
  "default_typed_uuid = \<lparr>uuid_kind = UK_unknown, uuid_value = NilUuid\<rparr>"

section \<open>Diagnostic records\<close>

datatype diagnostic_argument_value = Arg_text string | Arg_uuid uuid

type_synonym diagnostic_argument = "string \<times> diagnostic_argument_value"

record diagnostic_record =
  diag_status :: status
  diagnostic_code :: string
  message_key :: string
  diag_arguments :: "diagnostic_argument list"
  trace_id :: string
  source_component :: string
  remediation_hint :: string

definition MakeDiagnostic ::
  "status_code \<Rightarrow> severity \<Rightarrow> subsystem \<Rightarrow> string \<Rightarrow> string \<Rightarrow> diagnostic_argument list \<Rightarrow>
   string \<Rightarrow> string \<Rightarrow> string \<Rightarrow> diagnostic_record" where
  "MakeDiagnostic code sev sub dcode key args trace source hint =
    \<lparr>diag_status = \<lparr>status_code = code, status_severity = sev, status_subsystem = sub\<rparr>,
     diagnostic_code = dcode, message_key = key, diag_arguments = args,
     trace_id = trace, source_component = source, remediation_hint = hint\<rparr>"

text \<open>
  Every component has a \<^verbatim>\<open>Make...Diagnostic\<close> helper with the same body; only the source component
  differs. \<open>detail_arguments\<close> is its \<^verbatim>\<open>if (!detail.empty())\<close>.
\<close>

definition detail_arguments :: "string \<Rightarrow> diagnostic_argument list" where
  "detail_arguments detail = (if detail = [] then [] else [(''detail'', Arg_text detail)])"

definition component_diagnostic ::
  "string \<Rightarrow> status \<Rightarrow> string \<Rightarrow> string \<Rightarrow> string \<Rightarrow> diagnostic_record" where
  "component_diagnostic source st dcode key detail =
    MakeDiagnostic (status_code st) (status_severity st) (status_subsystem st)
      dcode key (detail_arguments detail) [] source []"

text \<open>The result type of the fallible operations.\<close>

type_synonym 'a result = "diagnostic_record + 'a"

definition is_ok :: "'a result \<Rightarrow> bool" where
  "is_ok r \<longleftrightarrow> (case r of Inl _ \<Rightarrow> False | Inr _ \<Rightarrow> True)"

lemma is_ok_simps [simp]: "\<not> is_ok (Inl d)" "is_ok (Inr x)"
  by (simp_all add: is_ok_def)

lemma is_ok_iff: "is_ok r \<longleftrightarrow> (\<exists>x. r = Inr x)"
  by (cases r) auto

text \<open>Sequencing: the code's early return when a step fails.\<close>

definition bind_result :: "'a result \<Rightarrow> ('a \<Rightarrow> 'b result) \<Rightarrow> 'b result" where
  "bind_result r f = (case r of Inl d \<Rightarrow> Inl d | Inr x \<Rightarrow> f x)"

lemma bind_result_simps [simp]:
  "bind_result (Inl d) f = Inl d" "bind_result (Inr x) f = f x"
  by (simp_all add: bind_result_def)

lemma bind_result_eq_Inr: "bind_result r f = Inr y \<longleftrightarrow> (\<exists>x. r = Inr x \<and> f x = Inr y)"
  by (cases r) auto

section \<open>Decimal rendering\<close>

text \<open>\<^verbatim>\<open>std::to_string\<close> on an unsigned value.\<close>

fun decimal :: "nat \<Rightarrow> string" where
  "decimal n = (if n < 10 then [char_of (48 + n)] else decimal (n div 10) @ [char_of (48 + n mod 10)])"

declare decimal.simps [simp del]

definition to_string :: "u64 \<Rightarrow> string" where
  "to_string x = decimal (unat x)"

lemma decimal_nonempty [simp]: "decimal n \<noteq> []"
  by (subst decimal.simps) simp

section \<open>Validation of diagnostic records\<close>

text \<open>The C locale's \<^verbatim>\<open>isalpha\<close>, \<^verbatim>\<open>isalnum\<close> and \<^verbatim>\<open>tolower\<close>.\<close>

definition isalpha :: "char \<Rightarrow> bool" where
  "isalpha c \<longleftrightarrow> (let n = of_char c :: nat in 65 \<le> n \<and> n \<le> 90 \<or> 97 \<le> n \<and> n \<le> 122)"

definition isalnum :: "char \<Rightarrow> bool" where
  "isalnum c \<longleftrightarrow> isalpha c \<or> (let n = of_char c :: nat in 48 \<le> n \<and> n \<le> 57)"

definition tolower :: "char \<Rightarrow> char" where
  "tolower c = (let n = of_char c :: nat in if 65 \<le> n \<and> n \<le> 90 then char_of (n + 32) else c)"

fun contains_sublist :: "'a list \<Rightarrow> 'a list \<Rightarrow> bool" where
  "contains_sublist [] needle = (needle = [])"
| "contains_sublist (x # xs) needle =
     (take (length needle) (x # xs) = needle \<or> contains_sublist xs needle)"

definition ContainsInsensitive :: "string \<Rightarrow> string \<Rightarrow> bool" where
  "ContainsInsensitive s needle = contains_sublist (map tolower s) (map tolower needle)"

definition IsCanonicalDiagnosticCodeChar :: "char \<Rightarrow> bool" where
  "IsCanonicalDiagnosticCodeChar c \<longleftrightarrow> isalnum c \<or> c = CHR ''-'' \<or> c = CHR ''_'' \<or> c = CHR ''.''"

definition DiagnosticCodeLooksCanonical :: "string \<Rightarrow> bool" where
  "DiagnosticCodeLooksCanonical code \<longleftrightarrow>
    code \<noteq> [] \<and> code \<noteq> ''OK'' \<and> code \<noteq> ''SB_OK'' \<and>
    list_all IsCanonicalDiagnosticCodeChar code \<and>
    list_ex isalpha code \<and>
    list_ex (\<lambda>c. c = CHR ''-'' \<or> c = CHR ''_'' \<or> c = CHR ''.'') code"

definition DiagnosticMessageKeyLooksCanonical :: "string \<Rightarrow> bool" where
  "DiagnosticMessageKeyLooksCanonical key \<longleftrightarrow>
    key \<noteq> [] \<and>
    list_all (\<lambda>c. isalnum c \<or> c = CHR ''_'' \<or> c = CHR ''.'') key \<and>
    list_ex (\<lambda>c. c = CHR ''.'') key"

definition DiagnosticRecordHasPlaceholderText :: "diagnostic_record \<Rightarrow> bool" where
  "DiagnosticRecordHasPlaceholderText r \<longleftrightarrow>
    (let combined = diagnostic_code r @ '' '' @ message_key r @ '' '' @ source_component r
                    @ '' '' @ remediation_hint r
     in list_ex (ContainsInsensitive combined)
          [''placeholder'', ''stub'', ''todo'', ''fixme'', ''generic_error'', ''unknown_error''])"

text \<open>
  The failures \<^verbatim>\<open>ValidateDiagnosticRecord\<close> collects, in its order. A \<^verbatim>\<open>std::variant\<close> of the model
  always holds a value, so the last loop of the code adds nothing.
\<close>

definition diagnostic_failures :: "diagnostic_record \<Rightarrow> (string \<times> string) list" where
  "diagnostic_failures r =
     (if DiagnosticCodeLooksCanonical (diagnostic_code r) then []
      else [(''diagnostic_code'', ''not_canonical'')])
   @ (if DiagnosticMessageKeyLooksCanonical (message_key r) then []
      else [(''message_key'', ''not_canonical'')])
   @ (if source_component r = [] then [(''source_component'', ''required'')] else [])
   @ (if status_code (diag_status r) \<noteq> SC_ok \<and> remediation_hint r = []
      then [(''remediation_hint'', ''required_for_non_ok_status'')] else [])
   @ (if status_code (diag_status r) = SC_ok \<and> status_severity (diag_status r) \<noteq> Sev_info
         \<and> status_severity (diag_status r) \<noteq> Sev_trace
      then [(''severity'', ''ok_status_must_be_info_or_trace'')] else [])
   @ (if status_code (diag_status r) \<noteq> SC_ok \<and> status_severity (diag_status r) = Sev_info
      then [(''severity'', ''non_ok_status_must_not_be_info'')] else [])
   @ (if DiagnosticRecordHasPlaceholderText r then [(''placeholder_text'', ''forbidden'')] else [])"

definition invalid_record_hint :: string where
  "invalid_record_hint =
    ''Fix the diagnostic record so it has a canonical code, canonical message key, '' @
    ''source component, and remediation hint when non-OK.''"

definition ValidateDiagnosticRecord ::
  "diagnostic_record \<Rightarrow> status \<times> diagnostic_record \<times> (string \<times> string) list" where
  "ValidateDiagnosticRecord r =
    (let failures = diagnostic_failures r in
     if failures \<noteq> [] then
       (\<lparr>status_code = SC_diagnostic_invalid_record, status_severity = Sev_error,
         status_subsystem = Sub_diagnostics\<rparr>,
        MakeDiagnostic SC_diagnostic_invalid_record Sev_error Sub_diagnostics
          ''SB-DIAGNOSTIC-INVALID-RECORD'' ''diagnostics.record.invalid''
          (map (\<lambda>(k, v). (k, Arg_text v)) failures) [] ''core.platform.diagnostics''
          invalid_record_hint,
        failures)
     else
       (\<lparr>status_code = SC_ok, status_severity = Sev_info, status_subsystem = Sub_diagnostics\<rparr>,
        r, []))"

end
