(* ===== verification/UuidModel.thy ===== *)
theory UuidModel
  imports Platform
begin

unbundle bit_operations_syntax

text \<open>
  UUID identity policy: \<^verbatim>\<open>src/project/src/core/uuid/uuid.{hpp,cpp}\<close>.
\<close>

definition IsValidUuidVariant :: "uuid \<Rightarrow> bool" where
  "IsValidUuidVariant u \<longleftrightarrow> (uuid_bytes u ! 8) AND 0xc0 = 0x80"

definition UuidVersion :: "uuid \<Rightarrow> u8" where
  "UuidVersion u = drop_bit 4 (uuid_bytes u ! 6) AND 0x0f"

definition IsEngineIdentityUuid :: "uuid \<Rightarrow> bool" where
  "IsEngineIdentityUuid u \<longleftrightarrow> \<not> is_nil u \<and> IsValidUuidVariant u \<and> UuidVersion u = 7"

end
