(* ===== verification/TransactionState.thy ===== *)
theory TransactionState
  imports Platform UuidModel
begin

text \<open>
  Transaction identities and the transaction state machine:
  \<^verbatim>\<open>src/project/src/transaction/mga/transaction_state.{hpp,cpp}\<close> and
  \<^verbatim>\<open>transaction_identity_observation.hpp\<close>. The legal transitions are a table; a check looks the
  pair up. The lemmas show which pairs the check allows, that a finished transaction never changes
  its outcome, and that every unfinished state can still reach a finished one.
\<close>

section \<open>Data\<close>

definition kInvalidLocalTransactionId :: u64 where
  "kInvalidLocalTransactionId = 0"

datatype transaction_scope = Scope_local_node | Scope_cluster_global | Scope_unknown

datatype transaction_state =
    TS_none | TS_created | TS_active | TS_preparing | TS_prepared | TS_committing | TS_committed
  | TS_rolling_back | TS_rolled_back | TS_limbo | TS_recovering | TS_failed_terminal
  | TS_archived | TS_read_only_active

datatype transition_class = TC_user | TC_coordinator | TC_recovery | TC_cleanup | TC_invalid

text \<open>\<^verbatim>\<open>struct LocalTransactionId\<close> has one field; the model uses its value.\<close>

type_synonym local_transaction_id = u64

definition local_id_valid :: "local_transaction_id \<Rightarrow> bool" where
  "local_id_valid i \<longleftrightarrow> i \<noteq> kInvalidLocalTransactionId"

record transaction_identity =
  local_id :: local_transaction_id
  transaction_uuid :: typed_uuid
  scope :: transaction_scope

text \<open>\<^verbatim>\<open>TransactionIdentity::valid()\<close>.\<close>

definition transaction_identity_valid :: "transaction_identity \<Rightarrow> bool" where
  "transaction_identity_valid i \<longleftrightarrow>
    local_id_valid (local_id i) \<and> uuid_kind (transaction_uuid i) = UK_transaction \<and>
    typed_uuid_valid (transaction_uuid i) \<and> scope i \<noteq> Scope_unknown"

record state_transition =
  tr_from :: transaction_state
  tr_to :: transaction_state
  tr_class :: transition_class
  tr_recovery_only :: bool
  tr_stable_name :: string

section \<open>Names\<close>

fun TransactionScopeName :: "transaction_scope \<Rightarrow> string" where
  "TransactionScopeName Scope_local_node = ''local_node''"
| "TransactionScopeName Scope_cluster_global = ''cluster_global''"
| "TransactionScopeName Scope_unknown = ''unknown''"

fun TransactionStateName :: "transaction_state \<Rightarrow> string" where
  "TransactionStateName TS_none = ''none''"
| "TransactionStateName TS_created = ''created''"
| "TransactionStateName TS_active = ''active''"
| "TransactionStateName TS_preparing = ''preparing''"
| "TransactionStateName TS_prepared = ''prepared''"
| "TransactionStateName TS_committing = ''committing''"
| "TransactionStateName TS_committed = ''committed''"
| "TransactionStateName TS_rolling_back = ''rolling_back''"
| "TransactionStateName TS_rolled_back = ''rolled_back''"
| "TransactionStateName TS_limbo = ''limbo''"
| "TransactionStateName TS_recovering = ''recovering''"
| "TransactionStateName TS_failed_terminal = ''failed_terminal''"
| "TransactionStateName TS_archived = ''archived''"
| "TransactionStateName TS_read_only_active = ''read_only_active''"

fun TransactionTransitionClassName :: "transition_class \<Rightarrow> string" where
  "TransactionTransitionClassName TC_user = ''user''"
| "TransactionTransitionClassName TC_coordinator = ''coordinator''"
| "TransactionTransitionClassName TC_recovery = ''recovery''"
| "TransactionTransitionClassName TC_cleanup = ''cleanup''"
| "TransactionTransitionClassName TC_invalid = ''invalid''"

section \<open>Status and diagnostics\<close>

definition TransactionOkStatus :: status where
  "TransactionOkStatus =
    \<lparr>status_code = SC_ok, status_severity = Sev_info, status_subsystem = Sub_transaction_mga\<rparr>"

definition TransactionErrorStatus :: status where
  "TransactionErrorStatus =
    \<lparr>status_code = SC_platform_required_feature_missing, status_severity = Sev_error,
     status_subsystem = Sub_transaction_mga\<rparr>"

definition MakeTransactionDiagnostic :: "status \<Rightarrow> string \<Rightarrow> string \<Rightarrow> string \<Rightarrow> diagnostic_record" where
  "MakeTransactionDiagnostic = component_diagnostic ''transaction.mga.state''"

section \<open>The transition table\<close>

definition IsTerminalTransactionState :: "transaction_state \<Rightarrow> bool" where
  "IsTerminalTransactionState s \<longleftrightarrow>
    s = TS_committed \<or> s = TS_rolled_back \<or> s = TS_failed_terminal \<or> s = TS_archived"

definition Transition ::
  "transaction_state \<Rightarrow> transaction_state \<Rightarrow> transition_class \<Rightarrow> bool \<Rightarrow> string \<Rightarrow> state_transition" where
  "Transition f t c r n =
    \<lparr>tr_from = f, tr_to = t, tr_class = c, tr_recovery_only = r, tr_stable_name = n\<rparr>"

definition BuiltinTransactionStateTransitionView :: "state_transition list" where
  "BuiltinTransactionStateTransitionView =
   [Transition TS_none TS_created TC_coordinator False ''allocate_transaction'',
    Transition TS_created TS_active TC_user False ''begin_transaction'',
    Transition TS_created TS_read_only_active TC_user False ''begin_read_only_transaction'',
    Transition TS_created TS_rolling_back TC_user False ''abort_created_transaction'',
    Transition TS_read_only_active TS_committing TC_coordinator False ''commit_read_only_transaction'',
    Transition TS_read_only_active TS_rolling_back TC_user False ''rollback_read_only_transaction'',
    Transition TS_active TS_preparing TC_coordinator False ''enter_prepare'',
    Transition TS_preparing TS_prepared TC_coordinator False ''finish_prepare'',
    Transition TS_prepared TS_committing TC_coordinator False ''commit_decision_known'',
    Transition TS_committing TS_committed TC_coordinator False ''publish_commit'',
    Transition TS_active TS_rolling_back TC_user False ''rollback_active'',
    Transition TS_preparing TS_rolling_back TC_coordinator False ''rollback_preparing'',
    Transition TS_prepared TS_rolling_back TC_coordinator False ''rollback_prepared'',
    Transition TS_rolling_back TS_rolled_back TC_coordinator False ''publish_rollback'',
    Transition TS_prepared TS_limbo TC_recovery False ''prepared_enter_limbo'',
    Transition TS_committing TS_limbo TC_recovery False ''committing_enter_limbo'',
    Transition TS_limbo TS_recovering TC_recovery True ''recover_limbo'',
    Transition TS_recovering TS_committed TC_recovery True ''recovered_commit'',
    Transition TS_recovering TS_rolled_back TC_recovery True ''recovered_rollback'',
    Transition TS_recovering TS_failed_terminal TC_recovery True ''recovery_failed_terminal'',
    Transition TS_committed TS_archived TC_cleanup False ''archive_committed_transaction'',
    Transition TS_rolled_back TS_archived TC_cleanup False ''archive_rolled_back_transaction'',
    Transition TS_failed_terminal TS_archived TC_cleanup False ''archive_failed_terminal_transaction'']"

text \<open>The linear search of \<^verbatim>\<open>CheckTransactionStateTransition\<close>; the result on success is the row.\<close>

definition CheckTransactionStateTransition ::
  "transaction_state \<Rightarrow> transaction_state \<Rightarrow> bool \<Rightarrow> state_transition result" where
  "CheckTransactionStateTransition from to recovery_context =
    (case find (\<lambda>t. tr_from t = from \<and> tr_to t = to) BuiltinTransactionStateTransitionView of
       Some t \<Rightarrow>
         if tr_recovery_only t \<and> \<not> recovery_context then
           Inl (MakeTransactionDiagnostic TransactionErrorStatus
                  ''SB-TXN-TRANSITION-REQUIRES-RECOVERY-CONTEXT''
                  ''transaction.transition_requires_recovery_context'' (tr_stable_name t))
         else Inr t
     | None \<Rightarrow>
         Inl (MakeTransactionDiagnostic TransactionErrorStatus
                ''SB-TXN-STATE-INVALID-TRANSITION'' ''transaction.illegal_state_transition''
                (TransactionStateName from @ ''->'' @ TransactionStateName to)))"

section \<open>Identity validation\<close>

text \<open>
  \<^verbatim>\<open>ObserveTransactionIdentity\<close> with its diagnostic materialised, which is what
  \<^verbatim>\<open>ValidateTransactionIdentity\<close> returns.
\<close>

definition ValidateTransactionIdentity :: "transaction_identity \<Rightarrow> transaction_identity result" where
  "ValidateTransactionIdentity i =
    (if \<not> local_id_valid (local_id i) then
       Inl (MakeTransactionDiagnostic TransactionErrorStatus
              ''SB-TXN-INVALID-LOCAL-TRANSACTION-ID'' ''transaction.invalid_local_transaction_id'' [])
     else if uuid_kind (transaction_uuid i) \<noteq> UK_transaction \<or> \<not> typed_uuid_valid (transaction_uuid i) then
       Inl (MakeTransactionDiagnostic TransactionErrorStatus
              ''SB-TXN-INVALID-TRANSACTION-UUID-KIND'' ''transaction.invalid_transaction_uuid_kind'' [])
     else if \<not> IsEngineIdentityUuid (uuid_value (transaction_uuid i)) then
       Inl (MakeTransactionDiagnostic TransactionErrorStatus
              ''SB-TXN-UUID-MUST-BE-V7'' ''transaction.transaction_uuid_must_be_v7'' [])
     else if scope i = Scope_unknown then
       Inl (MakeTransactionDiagnostic TransactionErrorStatus
              ''SB-TXN-UNKNOWN-TRANSACTION-SCOPE'' ''transaction.unknown_transaction_scope'' [])
     else Inr i)"

definition MakeTransactionIdentity ::
  "local_transaction_id \<Rightarrow> typed_uuid \<Rightarrow> transaction_scope \<Rightarrow> transaction_identity result" where
  "MakeTransactionIdentity i u s =
    ValidateTransactionIdentity \<lparr>local_id = i, transaction_uuid = u, scope = s\<rparr>"

section \<open>Lemmas: the table as a relation\<close>

text \<open>
  The pairs of the table with their recovery flag. The proofs below work on this set, so that the
  names and classes of the rows play no part in them.
\<close>

definition edge :: "bool \<Rightarrow> transaction_state \<Rightarrow> transaction_state \<Rightarrow> bool" where
  "edge ctx s t \<longleftrightarrow> is_ok (CheckTransactionStateTransition s t ctx)"

lemma find_Transition:
  "find (\<lambda>t. tr_from t = from \<and> tr_to t = to) (Transition f t c r n # ts) =
    (if f = from \<and> t = to then Some (Transition f t c r n)
     else find (\<lambda>t. tr_from t = from \<and> tr_to t = to) ts)"
  by (simp add: Transition_def)

lemma recovery_only_Transition [simp]: "tr_recovery_only (Transition f t c r n) = r"
  by (simp add: Transition_def)

definition successors :: "bool \<Rightarrow> transaction_state \<Rightarrow> transaction_state list" where
  "successors ctx s = (case s of
      TS_none \<Rightarrow> [TS_created]
    | TS_created \<Rightarrow> [TS_active, TS_read_only_active, TS_rolling_back]
    | TS_active \<Rightarrow> [TS_preparing, TS_rolling_back]
    | TS_preparing \<Rightarrow> [TS_prepared, TS_rolling_back]
    | TS_prepared \<Rightarrow> [TS_committing, TS_rolling_back, TS_limbo]
    | TS_committing \<Rightarrow> [TS_committed, TS_limbo]
    | TS_committed \<Rightarrow> [TS_archived]
    | TS_rolling_back \<Rightarrow> [TS_rolled_back]
    | TS_rolled_back \<Rightarrow> [TS_archived]
    | TS_limbo \<Rightarrow> (if ctx then [TS_recovering] else [])
    | TS_recovering \<Rightarrow> (if ctx then [TS_committed, TS_rolled_back, TS_failed_terminal] else [])
    | TS_failed_terminal \<Rightarrow> [TS_archived]
    | TS_archived \<Rightarrow> []
    | TS_read_only_active \<Rightarrow> [TS_committing, TS_rolling_back])"

lemma edge_iff: "edge ctx s t \<longleftrightarrow> t \<in> set (successors ctx s)"
  unfolding edge_def CheckTransactionStateTransition_def BuiltinTransactionStateTransitionView_def
    find_Transition
  by (cases s; cases t; simp add: successors_def)

lemma edge_simps [enum_simps]:
  "edge ctx TS_none t \<longleftrightarrow> t = TS_created"
  "edge ctx TS_created t \<longleftrightarrow> t = TS_active \<or> t = TS_read_only_active \<or> t = TS_rolling_back"
  "edge ctx TS_active t \<longleftrightarrow> t = TS_preparing \<or> t = TS_rolling_back"
  "edge ctx TS_read_only_active t \<longleftrightarrow> t = TS_committing \<or> t = TS_rolling_back"
  "edge ctx TS_preparing t \<longleftrightarrow> t = TS_prepared \<or> t = TS_rolling_back"
  "edge ctx TS_prepared t \<longleftrightarrow> t = TS_committing \<or> t = TS_rolling_back \<or> t = TS_limbo"
  "edge ctx TS_committing t \<longleftrightarrow> t = TS_committed \<or> t = TS_limbo"
  "edge ctx TS_committed t \<longleftrightarrow> t = TS_archived"
  "edge ctx TS_rolling_back t \<longleftrightarrow> t = TS_rolled_back"
  "edge ctx TS_rolled_back t \<longleftrightarrow> t = TS_archived"
  "edge ctx TS_limbo t \<longleftrightarrow> ctx \<and> t = TS_recovering"
  "edge ctx TS_recovering t \<longleftrightarrow> ctx \<and> (t = TS_committed \<or> t = TS_rolled_back \<or> t = TS_failed_terminal)"
  "edge ctx TS_failed_terminal t \<longleftrightarrow> t = TS_archived"
  "edge ctx TS_archived t \<longleftrightarrow> False"
  by (auto simp: edge_iff successors_def)

lemma check_transition_cases:
  "(\<exists>row. CheckTransactionStateTransition s t ctx = Inr row) \<or>
   (\<exists>d. CheckTransactionStateTransition s t ctx = Inl d \<and> \<not> edge ctx s t)"
  by (cases "CheckTransactionStateTransition s t ctx") (auto simp: edge_def)


section \<open>Lemmas: finality and progress\<close>

lemma edge_mono: "edge False s t \<Longrightarrow> edge True s t"
  by (cases s) (auto simp: enum_simps)

lemma terminal_edge: "IsTerminalTransactionState s \<Longrightarrow> edge ctx s t \<Longrightarrow> t = TS_archived"
  by (auto simp: IsTerminalTransactionState_def enum_simps)

lemma archived_reaches: "(edge ctx)\<^sup>*\<^sup>* TS_archived t \<Longrightarrow> t = TS_archived"
  by (induction rule: rtranclp_induct) (auto simp: enum_simps)

lemma terminal_reaches:
  "(edge ctx)\<^sup>*\<^sup>* s t \<Longrightarrow> IsTerminalTransactionState s \<Longrightarrow> t = s \<or> t = TS_archived"
  by (induction rule: rtranclp_induct) (auto dest: terminal_edge simp: enum_simps)

text \<open>A rank that every transition raises: the machine has no cycles.\<close>

fun state_rank :: "transaction_state \<Rightarrow> nat" where
  "state_rank TS_none = 0"
| "state_rank TS_created = 1"
| "state_rank TS_active = 2"
| "state_rank TS_read_only_active = 2"
| "state_rank TS_preparing = 3"
| "state_rank TS_prepared = 4"
| "state_rank TS_committing = 5"
| "state_rank TS_limbo = 6"
| "state_rank TS_recovering = 7"
| "state_rank TS_rolling_back = 5"
| "state_rank TS_committed = 8"
| "state_rank TS_rolled_back = 8"
| "state_rank TS_failed_terminal = 8"
| "state_rank TS_archived = 9"

lemma edge_rank: "edge ctx s t \<Longrightarrow> state_rank s < state_rank t"
  by (cases s) (auto simp: enum_simps)

lemma state_rank_le: "state_rank s \<le> 9"
  by (cases s) auto

lemma edge_relpowp_rank: "((edge ctx) ^^ n) s t \<Longrightarrow> state_rank s + n \<le> state_rank t"
proof (induction n arbitrary: t)
  case 0
  then show ?case by simp
next
  case (Suc n)
  then obtain u where "((edge ctx) ^^ n) s u" "edge ctx u t" by auto
  with Suc.IH [of u] edge_rank [of ctx u t] show ?case by simp
qed

definition can_finish :: "transaction_state \<Rightarrow> bool" where
  "can_finish s \<longleftrightarrow> (\<exists>t. IsTerminalTransactionState t \<and> (edge True)\<^sup>*\<^sup>* s t)"

lemma can_finish_terminal: "IsTerminalTransactionState s \<Longrightarrow> can_finish s"
  by (auto simp: can_finish_def)

lemma can_finish_step: "edge True s t \<Longrightarrow> can_finish t \<Longrightarrow> can_finish s"
  by (auto simp: can_finish_def intro: converse_rtranclp_into_rtranclp)

lemma can_finish_all: "can_finish s"
proof -
  have fin: "can_finish TS_committed" "can_finish TS_rolled_back" "can_finish TS_failed_terminal"
    "can_finish TS_archived"
    by (simp_all add: can_finish_terminal IsTerminalTransactionState_def)
  have rb: "can_finish TS_rolling_back"
    by (rule can_finish_step [OF _ fin(2)]) (simp add: enum_simps)
  have undo: "can_finish s" if "edge True s TS_rolling_back" for s
    using that rb by (rule can_finish_step)
  have rec: "can_finish TS_recovering"
    by (rule can_finish_step [OF _ fin(1)]) (simp add: enum_simps)
  have lim: "can_finish TS_limbo"
    by (rule can_finish_step [OF _ rec]) (simp add: enum_simps)
  have com: "can_finish TS_committing"
    by (rule can_finish_step [OF _ fin(1)]) (simp add: enum_simps)
  have cre: "can_finish TS_created" by (rule undo) (simp add: enum_simps)
  have non: "can_finish TS_none"
    by (rule can_finish_step [OF _ cre]) (simp add: enum_simps)
  have act: "can_finish TS_active" "can_finish TS_read_only_active" "can_finish TS_preparing"
    "can_finish TS_prepared"
    by (rule undo; simp add: enum_simps)+
  show ?thesis by (cases s) (simp_all only: fin rb rec lim com cre non act)
qed

section \<open>Properties\<close>

text \<open>
  What the transition check allows. It accepts a pair exactly when the table has a row for it
  and, for a recovery-only row, the caller is in a recovery context; the row it returns is the one
  for that pair.
\<close>

lemma check_transition_correct:
  "(CheckTransactionStateTransition s t ctx = Inr row \<longrightarrow>
      row \<in> set BuiltinTransactionStateTransitionView \<and> tr_from row = s \<and> tr_to row = t
      \<and> (tr_recovery_only row \<longrightarrow> ctx))
   \<and> (is_ok (CheckTransactionStateTransition s t ctx) \<longleftrightarrow>
      (\<exists>row \<in> set BuiltinTransactionStateTransitionView.
         tr_from row = s \<and> tr_to row = t \<and> (tr_recovery_only row \<longrightarrow> ctx)))"
  (is "?A \<and> (?B \<longleftrightarrow> ?C)")
proof (intro conjI iffI)
  show ?A
    by (auto simp: CheckTransactionStateTransition_def dest!: find_Some_mem
        split: option.splits if_splits)
next
  assume ?B
  then show ?C
    by (auto simp: is_ok_iff CheckTransactionStateTransition_def dest!: find_Some_mem
        split: option.splits if_splits)
next
  assume ?C
  then have "t \<in> set (successors ctx s)"
    by (auto simp: BuiltinTransactionStateTransitionView_def Transition_def successors_def)
  then show ?B by (simp add: edge_iff [symmetric] edge_def)
qed

text \<open>
  Finality. Once a transaction is committed, rolled back or failed, no sequence of allowed
  transitions, with or without a recovery context, leads anywhere but to the archived state: a
  committed transaction never becomes a rolled back one, nor the reverse.
\<close>

lemma terminal_state_is_final:
  assumes "IsTerminalTransactionState s" and "(edge ctx)\<^sup>*\<^sup>* s t"
  shows "t = s \<or> t = TS_archived"
  using terminal_reaches [OF assms(2,1)] .

text \<open>
  C3. Every transaction can finish and no run of the state machine is longer than nine
  transitions: with recovery available, a finished state is reachable from every state, and the
  number of transitions of any run is at most nine.
\<close>

theorem every_state_can_finish:
  "(\<exists>t. IsTerminalTransactionState t \<and> (edge True)\<^sup>*\<^sup>* s t)
   \<and> (\<forall>n u. ((edge ctx) ^^ n) s u \<longrightarrow> n \<le> 9)"
proof (intro conjI allI impI)
  show "\<exists>t. IsTerminalTransactionState t \<and> (edge True)\<^sup>*\<^sup>* s t"
    by (rule can_finish_all [unfolded can_finish_def])
next
  fix n u
  assume "((edge ctx) ^^ n) s u"
  from edge_relpowp_rank [OF this] state_rank_le [of u] show "n \<le> 9" by simp
qed

theorem every_state_can_finish_witness:
  "((edge True) ^^ 2) TS_committing TS_archived \<and> (2::nat) \<le> 9 \<and>
   (\<exists>t. IsTerminalTransactionState t \<and> (edge True)\<^sup>*\<^sup>* TS_committing t)"
proof -
  have "edge True TS_committing TS_committed" "edge True TS_committed TS_archived"
    by (simp_all add: enum_simps)
  then have p: "((edge True) ^^ 2) TS_committing TS_archived" by (auto simp: numeral_2_eq_2)
  from every_state_can_finish [of TS_committing True] p show ?thesis by blast
qed

end
