(* ===== verification/TransactionInventory.thy ===== *)
theory TransactionInventory
  imports TransactionState
begin

text \<open>
  The local transaction inventory: \<^verbatim>\<open>src/project/src/transaction/mga/transaction_inventory.{hpp,cpp}\<close>
  and the structural validation of \<^verbatim>\<open>transaction_inventory_validation.hpp\<close>. The operations are
  pure transforms of the inventory, as in the code: they take it by value and return the new one
  with the entry they touched. The lemmas relate the validation loop to the invariant it decides
  and show that every operation keeps that invariant.
\<close>

section \<open>Data\<close>

record transaction_inventory_entry =
  identity :: transaction_identity
  entry_state :: transaction_state
  archived_from_state :: transaction_state
  begin_unix_epoch_millis :: u64
  final_unix_epoch_millis :: u64
  begin_visible_through_local_transaction_id :: u64
  begin_visible_through_commit_sequence :: u64
  commit_sequence :: u64
  evidence_record_required :: bool
  evidence_record_written :: bool
  rollback_only :: bool
  stable_snapshot :: bool

record inventory_publication_base =
  base_database_uuid :: uuid
  base_inventory_sha256 :: "byte list"
  base_generation :: u64

record local_transaction_inventory =
  next_local_transaction_id :: u64
  next_commit_sequence :: u64
  entries :: "transaction_inventory_entry list"
  publication_base :: "inventory_publication_base option"

text \<open>The key of an entry and its UUID, which the code spells out at every use.\<close>

abbreviation entry_id :: "transaction_inventory_entry \<Rightarrow> u64" where
  "entry_id e \<equiv> local_id (identity e)"

abbreviation entry_uuid :: "transaction_inventory_entry \<Rightarrow> uuid" where
  "entry_uuid e \<equiv> uuid_value (transaction_uuid (identity e))"

definition InventoryVisibilityState :: "transaction_inventory_entry \<Rightarrow> transaction_state" where
  "InventoryVisibilityState e =
    (if entry_state e \<noteq> TS_archived
     then (if archived_from_state e = TS_none then entry_state e else TS_none)
     else (case archived_from_state e of
             TS_committed \<Rightarrow> TS_committed
           | TS_rolled_back \<Rightarrow> TS_rolled_back
           | TS_failed_terminal \<Rightarrow> TS_failed_terminal
           | _ \<Rightarrow> TS_none))"

definition HasCommittedInventoryOutcome :: "transaction_inventory_entry \<Rightarrow> bool" where
  "HasCommittedInventoryOutcome e \<longleftrightarrow> InventoryVisibilityState e = TS_committed"

section \<open>Structural validation\<close>

text \<open>
  The loop of \<^verbatim>\<open>detail::ValidateInventoryStructure\<close> with the three \<^verbatim>\<open>std::set\<close> accumulators of
  \<^verbatim>\<open>ValidateLocalTransactionInventoryStructure\<close>. The empty string means valid.
\<close>

fun ValidateInventoryStructure ::
  "u64 \<Rightarrow> u64 \<Rightarrow> u64 set \<Rightarrow> u64 set \<Rightarrow> uuid set \<Rightarrow> transaction_inventory_entry list \<Rightarrow> string" where
  "ValidateInventoryStructure nid ncs commits locals identities [] = ''''"
| "ValidateInventoryStructure nid ncs commits locals identities (e # es) =
    (if ncs \<le> begin_visible_through_commit_sequence e then ''begin_commit_sequence_invalid''
     else if entry_state e = TS_archived \<and>
             archived_from_state e \<noteq> TS_committed \<and> archived_from_state e \<noteq> TS_rolled_back \<and>
             archived_from_state e \<noteq> TS_failed_terminal then ''archive_origin_invalid''
     else if entry_state e \<noteq> TS_archived \<and> archived_from_state e \<noteq> TS_none then ''nonarchived_origin''
     else if HasCommittedInventoryOutcome e \<and>
             (commit_sequence e = 0 \<or> ncs \<le> commit_sequence e \<or>
              commit_sequence e \<le> begin_visible_through_commit_sequence e)
          then ''commit_sequence_invalid''
     else if HasCommittedInventoryOutcome e \<and> commit_sequence e \<in> commits
          then ''duplicate_commit_sequence''
     else if \<not> HasCommittedInventoryOutcome e \<and> commit_sequence e \<noteq> 0
          then ''noncommitted_commit_sequence''
     else if \<not> transaction_identity_valid (identity e) \<or> \<not> IsEngineIdentityUuid (entry_uuid e)
          then ''invalid_transaction_identity''
     else if scope (identity e) \<noteq> Scope_local_node \<and> scope (identity e) \<noteq> Scope_cluster_global
          then ''invalid_transaction_scope''
     else if nid \<le> entry_id e then ''future_transaction_in_inventory''
     else if entry_id e \<in> locals then ''duplicate_local_transaction_id''
     else if entry_uuid e \<in> identities then ''duplicate_transaction_uuid''
     else if entry_state e = TS_none then ''invalid_transaction_state''
     else ValidateInventoryStructure nid ncs
            (if HasCommittedInventoryOutcome e then insert (commit_sequence e) commits else commits)
            (insert (entry_id e) locals) (insert (entry_uuid e) identities) es)"

definition ValidateLocalTransactionInventoryStructure :: "local_transaction_inventory \<Rightarrow> string" where
  "ValidateLocalTransactionInventoryStructure ivt =
    (if next_local_transaction_id ivt = kInvalidLocalTransactionId then ''next_transaction_invalid''
     else if next_commit_sequence ivt = 0 then ''next_commit_sequence_invalid''
     else ValidateInventoryStructure (next_local_transaction_id ivt) (next_commit_sequence ivt)
            {} {} {} (entries ivt))"

section \<open>Operations\<close>

definition InventoryErrorStatus :: status where
  "InventoryErrorStatus = TransactionErrorStatus"

definition MakeTransactionInventoryDiagnostic ::
  "status \<Rightarrow> string \<Rightarrow> string \<Rightarrow> string \<Rightarrow> diagnostic_record" where
  "MakeTransactionInventoryDiagnostic = component_diagnostic ''transaction.mga.inventory''"

text \<open>\<^verbatim>\<open>InventoryError\<close>, \<^verbatim>\<open>LookupError\<close> and \<^verbatim>\<open>CompactionError\<close> differ only in the result type.\<close>

definition InventoryError :: "string \<Rightarrow> string \<Rightarrow> string \<Rightarrow> 'a result" where
  "InventoryError code key detail =
    Inl (MakeTransactionInventoryDiagnostic InventoryErrorStatus code key detail)"

definition FindEntry ::
  "local_transaction_inventory \<Rightarrow> local_transaction_id \<Rightarrow> transaction_inventory_entry option" where
  "FindEntry ivt i = find (\<lambda>e. entry_id e = i) (entries ivt)"

text \<open>The write through the pointer that \<^verbatim>\<open>FindEntry\<close> returned.\<close>

definition StoreEntry ::
  "local_transaction_inventory \<Rightarrow> local_transaction_id \<Rightarrow> transaction_inventory_entry \<Rightarrow>
   local_transaction_inventory" where
  "StoreEntry ivt i e = ivt\<lparr>entries := replace_first (\<lambda>e'. entry_id e' = i) e (entries ivt)\<rparr>"

definition ContainsTransactionUuid :: "local_transaction_inventory \<Rightarrow> typed_uuid \<Rightarrow> bool" where
  "ContainsTransactionUuid ivt u \<longleftrightarrow> list_ex (\<lambda>e. entry_uuid e = uuid_value u) (entries ivt)"

definition TransitionOrFail ::
  "transaction_inventory_entry \<Rightarrow> transaction_state \<Rightarrow> transaction_inventory_entry result" where
  "TransitionOrFail e next =
    bind_result (CheckTransactionStateTransition (entry_state e) next False)
      (\<lambda>_. Inr (e\<lparr>entry_state := next\<rparr>))"

definition MakeEmptyLocalTransactionInventory :: local_transaction_inventory where
  "MakeEmptyLocalTransactionInventory =
    \<lparr>next_local_transaction_id = 1, next_commit_sequence = 1, entries = [], publication_base = None\<rparr>"

type_synonym inventory_result = "(local_transaction_inventory \<times> transaction_inventory_entry) result"

definition BeginLocalTransactionWithState ::
  "local_transaction_inventory \<Rightarrow> typed_uuid \<Rightarrow> u64 \<Rightarrow> transaction_state \<Rightarrow> inventory_result" where
  "BeginLocalTransactionWithState ivt uuid millis active_state =
    (if next_local_transaction_id ivt = kInvalidLocalTransactionId then
       InventoryError ''SB-TXN-INVENTORY-NEXT-ID-INVALID'' ''transaction.inventory.next_id_invalid'' []
     else if ValidateLocalTransactionInventoryStructure ivt \<noteq> '''' then
       InventoryError ''CATALOG.INVALID_INPUT'' ''transaction.inventory.structure_invalid''
         (ValidateLocalTransactionInventoryStructure ivt)
     else if next_local_transaction_id ivt = u64_max then
       InventoryError ''CATALOG.INVALID_INPUT'' ''transaction.inventory.number_exhausted'' []
     else if ContainsTransactionUuid ivt uuid then
       InventoryError ''SB-TXN-DUPLICATE-TRANSACTION-UUID''
         ''transaction.inventory.duplicate_transaction_uuid'' []
     else
       bind_result (MakeTransactionIdentity (next_local_transaction_id ivt) uuid Scope_local_node)
       (\<lambda>ident.
          bind_result
            (TransitionOrFail
              \<lparr>identity = ident, entry_state = TS_none, archived_from_state = TS_none,
               begin_unix_epoch_millis = millis, final_unix_epoch_millis = 0,
               begin_visible_through_local_transaction_id = next_local_transaction_id ivt - 1,
               begin_visible_through_commit_sequence = next_commit_sequence ivt - 1,
               commit_sequence = 0, evidence_record_required = True,
               evidence_record_written = False, rollback_only = False, stable_snapshot = False\<rparr>
              TS_created)
          (\<lambda>created.
          bind_result (TransitionOrFail created active_state)
          (\<lambda>entry.
             Inr (ivt\<lparr>next_local_transaction_id := next_local_transaction_id ivt + 1,
                      entries := entries ivt @ [entry]\<rparr>, entry)))))"

definition BeginLocalTransaction ::
  "local_transaction_inventory \<Rightarrow> typed_uuid \<Rightarrow> u64 \<Rightarrow> inventory_result" where
  "BeginLocalTransaction ivt uuid millis = BeginLocalTransactionWithState ivt uuid millis TS_active"

definition BeginLocalReadOnlyTransaction ::
  "local_transaction_inventory \<Rightarrow> typed_uuid \<Rightarrow> u64 \<Rightarrow> inventory_result" where
  "BeginLocalReadOnlyTransaction ivt uuid millis =
    BeginLocalTransactionWithState ivt uuid millis TS_read_only_active"

definition PrepareLocalTransaction ::
  "local_transaction_inventory \<Rightarrow> local_transaction_id \<Rightarrow> inventory_result" where
  "PrepareLocalTransaction ivt i =
    (if \<not> local_id_valid i then
       InventoryError ''SB-TXN-LOCAL-ID-NOT-FOUND'' ''transaction.inventory.prepare_id_invalid'' []
     else case FindEntry ivt i of
       None \<Rightarrow> InventoryError ''SB-TXN-LOCAL-ID-NOT-FOUND''
                 ''transaction.inventory.prepare_id_not_found'' (to_string i)
     | Some e \<Rightarrow>
         if scope (identity e) \<noteq> Scope_local_node then
           InventoryError ''CATALOG.INVALID_INPUT'' ''transaction.inventory.local_scope_required'' []
         else bind_result (TransitionOrFail e TS_preparing) (\<lambda>e1.
              bind_result (TransitionOrFail e1 TS_prepared) (\<lambda>e2.
              Inr (StoreEntry ivt i e2, e2))))"

definition CommitLocalTransaction ::
  "local_transaction_inventory \<Rightarrow> local_transaction_id \<Rightarrow> u64 \<Rightarrow> inventory_result" where
  "CommitLocalTransaction ivt i millis =
    (if ValidateLocalTransactionInventoryStructure ivt \<noteq> '''' then
       InventoryError ''CATALOG.INVALID_INPUT'' ''transaction.inventory.structure_invalid''
         (ValidateLocalTransactionInventoryStructure ivt)
     else if next_commit_sequence ivt = u64_max then
       InventoryError ''CATALOG.INVALID_INPUT'' ''transaction.inventory.commit_sequence_exhausted'' []
     else if \<not> local_id_valid i then
       InventoryError ''SB-TXN-LOCAL-ID-NOT-FOUND'' ''transaction.inventory.commit_id_invalid'' []
     else case FindEntry ivt i of
       None \<Rightarrow> InventoryError ''SB-TXN-LOCAL-ID-NOT-FOUND''
                 ''transaction.inventory.commit_id_not_found'' (to_string i)
     | Some e \<Rightarrow>
         if scope (identity e) \<noteq> Scope_local_node then
           InventoryError ''CATALOG.INVALID_INPUT'' ''transaction.inventory.local_scope_required'' []
         else if rollback_only e then
           InventoryError ''SB-MGA-ROLLBACK-ONLY-COMMIT-REFUSED''
             ''transaction.inventory.rollback_only_commit_refused'' (to_string i)
         else
           bind_result
             (if entry_state e = TS_active
              then bind_result (TransitionOrFail e TS_preparing) (\<lambda>e1. TransitionOrFail e1 TS_prepared)
              else Inr e) (\<lambda>e2.
           bind_result (TransitionOrFail e2 TS_committing) (\<lambda>e3.
           bind_result (TransitionOrFail e3 TS_committed) (\<lambda>e4.
             let e5 = e4\<lparr>final_unix_epoch_millis := millis,
                         commit_sequence := next_commit_sequence ivt,
                         evidence_record_written := True\<rparr>
             in Inr (StoreEntry (ivt\<lparr>next_commit_sequence := next_commit_sequence ivt + 1\<rparr>) i e5,
                     e5)))))"

definition ArchiveLocalTransaction ::
  "local_transaction_inventory \<Rightarrow> local_transaction_id \<Rightarrow> inventory_result" where
  "ArchiveLocalTransaction ivt i =
    (if ValidateLocalTransactionInventoryStructure ivt \<noteq> '''' then
       InventoryError ''CATALOG.INVALID_INPUT'' ''transaction.inventory.structure_invalid''
         (ValidateLocalTransactionInventoryStructure ivt)
     else if \<not> local_id_valid i then
       InventoryError ''SB-TXN-LOCAL-ID-NOT-FOUND'' ''transaction.inventory.archive_id_invalid'' []
     else case FindEntry ivt i of
       None \<Rightarrow> InventoryError ''SB-TXN-LOCAL-ID-NOT-FOUND''
                 ''transaction.inventory.archive_id_not_found'' (to_string i)
     | Some e \<Rightarrow>
         if \<not> evidence_record_written e then
           InventoryError ''SB-MGA-ARCHIVE-FINALITY-EVIDENCE-REQUIRED''
             ''transaction.inventory.archive_finality_evidence_required'' (to_string i)
         else bind_result (TransitionOrFail e TS_archived) (\<lambda>e1.
              let e2 = e1\<lparr>archived_from_state := entry_state e\<rparr> in Inr (StoreEntry ivt i e2, e2)))"

definition RollbackLocalTransaction ::
  "local_transaction_inventory \<Rightarrow> local_transaction_id \<Rightarrow> u64 \<Rightarrow> inventory_result" where
  "RollbackLocalTransaction ivt i millis =
    (if \<not> local_id_valid i then
       InventoryError ''SB-TXN-LOCAL-ID-NOT-FOUND'' ''transaction.inventory.rollback_id_invalid'' []
     else case FindEntry ivt i of
       None \<Rightarrow> InventoryError ''SB-TXN-LOCAL-ID-NOT-FOUND''
                 ''transaction.inventory.rollback_id_not_found'' (to_string i)
     | Some e \<Rightarrow>
         if scope (identity e) \<noteq> Scope_local_node then
           InventoryError ''CATALOG.INVALID_INPUT'' ''transaction.inventory.local_scope_required'' []
         else bind_result (TransitionOrFail e TS_rolling_back) (\<lambda>e1.
              bind_result (TransitionOrFail e1 TS_rolled_back) (\<lambda>e2.
              let e3 = e2\<lparr>final_unix_epoch_millis := millis, evidence_record_written := True\<rparr>
              in Inr (StoreEntry ivt i e3, e3))))"

definition AbortLocalTransaction ::
  "local_transaction_inventory \<Rightarrow> local_transaction_id \<Rightarrow> u64 \<Rightarrow> inventory_result" where
  "AbortLocalTransaction ivt i millis = RollbackLocalTransaction ivt i millis"

definition MarkLocalTransactionRollbackOnly ::
  "local_transaction_inventory \<Rightarrow> local_transaction_id \<Rightarrow> inventory_result" where
  "MarkLocalTransactionRollbackOnly ivt i =
    (if \<not> local_id_valid i then
       InventoryError ''SB-TXN-LOCAL-ID-NOT-FOUND'' ''transaction.inventory.rollback_only_id_invalid'' []
     else case FindEntry ivt i of
       None \<Rightarrow> InventoryError ''SB-TXN-LOCAL-ID-NOT-FOUND''
                 ''transaction.inventory.rollback_only_id_not_found'' (to_string i)
     | Some e \<Rightarrow>
         if entry_state e = TS_committed \<or> entry_state e = TS_archived then
           InventoryError ''SB-MGA-ROLLBACK-ONLY-MARK-REFUSED''
             ''transaction.inventory.rollback_only_mark_refused'' (to_string i)
         else let e1 = e\<lparr>rollback_only := True\<rparr> in Inr (StoreEntry ivt i e1, e1))"

definition LookupLocalTransaction ::
  "local_transaction_inventory \<Rightarrow> local_transaction_id \<Rightarrow> transaction_inventory_entry result" where
  "LookupLocalTransaction ivt i =
    (if \<not> local_id_valid i then
       InventoryError ''SB-TXN-LOCAL-ID-NOT-FOUND'' ''transaction.inventory.lookup_id_invalid'' []
     else case find (\<lambda>e. entry_id e = i) (entries ivt) of
       Some e \<Rightarrow> Inr e
     | None \<Rightarrow> InventoryError ''SB-TXN-LOCAL-ID-NOT-FOUND''
                 ''transaction.inventory.lookup_id_not_found'' (to_string i))"

record inventory_compaction_request =
  compaction_inventory :: local_transaction_inventory
  inventory_authoritative :: bool
  oldest_required_local_transaction_id :: local_transaction_id
  drop_archived_entries :: bool

definition can_drop :: "inventory_compaction_request \<Rightarrow> transaction_inventory_entry \<Rightarrow> bool" where
  "can_drop rq e \<longleftrightarrow>
    drop_archived_entries rq \<and> entry_state e = TS_archived \<and>
    archived_from_state e \<noteq> TS_failed_terminal \<and> local_id_valid (entry_id e) \<and>
    entry_id e < oldest_required_local_transaction_id rq"

text \<open>The result is the compacted inventory and the number of entries dropped.\<close>

definition CompactLocalTransactionInventory ::
  "inventory_compaction_request \<Rightarrow> (local_transaction_inventory \<times> u64) result" where
  "CompactLocalTransactionInventory rq =
    (if \<not> inventory_authoritative rq then
       InventoryError ''SB-TXN-INVENTORY-COMPACTION-NOT-AUTHORITATIVE''
         ''transaction.inventory.compaction_not_authoritative'' []
     else if \<not> local_id_valid (oldest_required_local_transaction_id rq) then
       InventoryError ''SB-TXN-INVENTORY-COMPACTION-HORIZON-INVALID''
         ''transaction.inventory.compaction_horizon_invalid'' []
     else if ValidateLocalTransactionInventoryStructure (compaction_inventory rq) \<noteq> '''' then
       InventoryError ''CATALOG.INVALID_INPUT'' ''transaction.inventory.structure_invalid''
         (ValidateLocalTransactionInventoryStructure (compaction_inventory rq))
     else
       let ivt = compaction_inventory rq in
       Inr (\<lparr>next_local_transaction_id = next_local_transaction_id ivt,
             next_commit_sequence = next_commit_sequence ivt,
             entries = filter (\<lambda>e. \<not> can_drop rq e) (entries ivt),
             publication_base = publication_base ivt\<rparr>,
            of_nat (length (filter (can_drop rq) (entries ivt)))))"

section \<open>The invariant\<close>

definition entry_ok :: "u64 \<Rightarrow> u64 \<Rightarrow> transaction_inventory_entry \<Rightarrow> bool" where
  "entry_ok nid ncs e \<longleftrightarrow>
    begin_visible_through_commit_sequence e < ncs \<and>
    (if entry_state e = TS_archived
     then archived_from_state e \<in> {TS_committed, TS_rolled_back, TS_failed_terminal}
     else archived_from_state e = TS_none) \<and>
    (if HasCommittedInventoryOutcome e
     then commit_sequence e \<noteq> 0 \<and> commit_sequence e < ncs \<and>
          begin_visible_through_commit_sequence e < commit_sequence e
     else commit_sequence e = 0) \<and>
    transaction_identity_valid (identity e) \<and> IsEngineIdentityUuid (entry_uuid e) \<and>
    entry_id e < nid \<and> entry_state e \<noteq> TS_none"

definition valid_inventory :: "local_transaction_inventory \<Rightarrow> bool" where
  "valid_inventory ivt \<longleftrightarrow>
    next_local_transaction_id ivt \<noteq> 0 \<and> next_commit_sequence ivt \<noteq> 0 \<and>
    (\<forall>e \<in> set (entries ivt).
       entry_ok (next_local_transaction_id ivt) (next_commit_sequence ivt) e) \<and>
    distinct (map entry_id (entries ivt)) \<and>
    distinct (map entry_uuid (entries ivt)) \<and>
    distinct (map commit_sequence (filter HasCommittedInventoryOutcome (entries ivt)))"

lemma identity_valid_scope:
  "transaction_identity_valid i \<Longrightarrow> scope i = Scope_local_node \<or> scope i = Scope_cluster_global"
  by (cases "scope i") (auto simp: transaction_identity_valid_def)

lemma ValidateInventoryStructure_iff:
  "ValidateInventoryStructure nid ncs C L U es = [] \<longleftrightarrow>
    (\<forall>e \<in> set es. entry_ok nid ncs e) \<and>
    distinct (map entry_id es) \<and> entry_id ` set es \<inter> L = {} \<and>
    distinct (map entry_uuid es) \<and> entry_uuid ` set es \<inter> U = {} \<and>
    distinct (map commit_sequence (filter HasCommittedInventoryOutcome es)) \<and>
    commit_sequence ` {e \<in> set es. HasCommittedInventoryOutcome e} \<inter> C = {}"
proof (induction es arbitrary: C L U)
  case Nil
  show ?case by simp
next
  case (Cons e es)
  have pass: "ValidateInventoryStructure nid ncs C L U (e # es) = [] \<longleftrightarrow>
     entry_ok nid ncs e \<and> (HasCommittedInventoryOutcome e \<longrightarrow> commit_sequence e \<notin> C) \<and>
     entry_id e \<notin> L \<and> entry_uuid e \<notin> U \<and>
     ValidateInventoryStructure nid ncs
       (if HasCommittedInventoryOutcome e then insert (commit_sequence e) C else C)
       (insert (entry_id e) L) (insert (entry_uuid e) U) es = []"
    unfolding ValidateInventoryStructure.simps entry_ok_def
    using identity_valid_scope [of "identity e"]
    by (cases "HasCommittedInventoryOutcome e"; cases "entry_state e = TS_archived";
        simp add: reason_if not_le; argo)
  show ?case
    unfolding pass Cons.IH by (auto simp: image_iff)
qed

lemma structure_valid_iff: "ValidateLocalTransactionInventoryStructure ivt = [] \<longleftrightarrow> valid_inventory ivt"
  by (auto simp: ValidateLocalTransactionInventoryStructure_def valid_inventory_def
      kInvalidLocalTransactionId_def ValidateInventoryStructure_iff)

section \<open>What a successful operation does\<close>

lemma TransitionOrFail_Inr:
  "TransitionOrFail e s = Inr e' \<longleftrightarrow> edge False (entry_state e) s \<and> e' = e\<lparr>entry_state := s\<rparr>"
  using check_transition_cases [of "entry_state e" s False]
  by (auto simp: TransitionOrFail_def edge_def bind_result_eq_Inr)

lemma InventoryError_not_Inr [simp]: "InventoryError c k d \<noteq> Inr x" "Inr x \<noteq> InventoryError c k d"
  by (simp_all add: InventoryError_def)

lemma is_ok_InventoryError [simp]: "\<not> is_ok (InventoryError c k d)"
  by (simp add: InventoryError_def)

lemma MakeTransactionIdentity_Inr:
  "MakeTransactionIdentity i u s = Inr x \<longleftrightarrow>
    x = \<lparr>local_id = i, transaction_uuid = u, scope = s\<rparr> \<and> transaction_identity_valid x \<and>
    IsEngineIdentityUuid (uuid_value u)"
  by (auto simp: MakeTransactionIdentity_def ValidateTransactionIdentity_def
      transaction_identity_valid_def split: if_splits)

text \<open>The entry a begin appends.\<close>

definition begun_entry ::
  "local_transaction_inventory \<Rightarrow> typed_uuid \<Rightarrow> u64 \<Rightarrow> transaction_state \<Rightarrow> transaction_inventory_entry" where
  "begun_entry ivt uuid millis st =
    \<lparr>identity = \<lparr>local_id = next_local_transaction_id ivt, transaction_uuid = uuid,
                 scope = Scope_local_node\<rparr>,
     entry_state = st, archived_from_state = TS_none, begin_unix_epoch_millis = millis,
     final_unix_epoch_millis = 0,
     begin_visible_through_local_transaction_id = next_local_transaction_id ivt - 1,
     begin_visible_through_commit_sequence = next_commit_sequence ivt - 1,
     commit_sequence = 0, evidence_record_required = True, evidence_record_written = False,
     rollback_only = False, stable_snapshot = False\<rparr>"

lemma Begin_Inr:
  "BeginLocalTransactionWithState ivt uuid millis st = Inr (ivt', e') \<longleftrightarrow>
    valid_inventory ivt \<and> next_local_transaction_id ivt \<noteq> u64_max \<and>
    (\<forall>e \<in> set (entries ivt). entry_uuid e \<noteq> uuid_value uuid) \<and>
    uuid_kind uuid = UK_transaction \<and> IsEngineIdentityUuid (uuid_value uuid) \<and>
    edge False TS_created st \<and>
    e' = begun_entry ivt uuid millis st \<and>
    ivt' = ivt\<lparr>next_local_transaction_id := next_local_transaction_id ivt + 1,
               entries := entries ivt @ [e']\<rparr>"
proof (cases "valid_inventory ivt \<and> next_local_transaction_id ivt \<noteq> u64_max
    \<and> \<not> ContainsTransactionUuid ivt uuid")
  case True
  then have n: "next_local_transaction_id ivt \<noteq> 0" by (simp add: valid_inventory_def)
  with True show ?thesis
    by (auto simp: BeginLocalTransactionWithState_def structure_valid_iff bind_result_eq_Inr
        MakeTransactionIdentity_Inr TransitionOrFail_Inr begun_entry_def enum_simps
        kInvalidLocalTransactionId_def transaction_identity_valid_def local_id_valid_def
        typed_uuid_valid_def IsEngineIdentityUuid_def ContainsTransactionUuid_def list_ex_iff)
next
  case False
  then show ?thesis
    by (auto simp: BeginLocalTransactionWithState_def structure_valid_iff
        ContainsTransactionUuid_def list_ex_iff)
qed

lemma Prepare_Inr:
  "PrepareLocalTransaction ivt i = Inr (ivt', e') \<longleftrightarrow>
    i \<noteq> 0 \<and> (\<exists>e. FindEntry ivt i = Some e \<and> scope (identity e) = Scope_local_node \<and>
      entry_state e = TS_active \<and> e' = e\<lparr>entry_state := TS_prepared\<rparr> \<and> ivt' = StoreEntry ivt i e')"
  by (cases "FindEntry ivt i"; cases "entry_state (the (FindEntry ivt i))")
    (auto simp: PrepareLocalTransaction_def bind_result_eq_Inr TransitionOrFail_Inr
      enum_simps local_id_valid_def kInvalidLocalTransactionId_def)

definition committable :: "transaction_inventory_entry \<Rightarrow> bool" where
  "committable e \<longleftrightarrow> scope (identity e) = Scope_local_node \<and> \<not> rollback_only e \<and>
    entry_state e \<in> {TS_active, TS_prepared, TS_read_only_active}"

definition committed_entry :: "u64 \<Rightarrow> u64 \<Rightarrow> transaction_inventory_entry \<Rightarrow> transaction_inventory_entry" where
  "committed_entry ncs millis e =
    e\<lparr>entry_state := TS_committed, final_unix_epoch_millis := millis, commit_sequence := ncs,
      evidence_record_written := True\<rparr>"

lemma Commit_Inr:
  "CommitLocalTransaction ivt i millis = Inr (ivt', e') \<longleftrightarrow>
    valid_inventory ivt \<and> next_commit_sequence ivt \<noteq> u64_max \<and> i \<noteq> 0 \<and>
    (\<exists>e. FindEntry ivt i = Some e \<and> committable e \<and>
      e' = committed_entry (next_commit_sequence ivt) millis e \<and>
      ivt' = StoreEntry (ivt\<lparr>next_commit_sequence := next_commit_sequence ivt + 1\<rparr>) i e')"
  by (cases "FindEntry ivt i"; cases "entry_state (the (FindEntry ivt i))")
    (auto simp: CommitLocalTransaction_def bind_result_eq_Inr TransitionOrFail_Inr Let_def
      structure_valid_iff committable_def committed_entry_def
      enum_simps local_id_valid_def kInvalidLocalTransactionId_def)

lemma Archive_Inr:
  "ArchiveLocalTransaction ivt i = Inr (ivt', e') \<longleftrightarrow>
    valid_inventory ivt \<and> i \<noteq> 0 \<and>
    (\<exists>e. FindEntry ivt i = Some e \<and> evidence_record_written e \<and>
      entry_state e \<in> {TS_committed, TS_rolled_back, TS_failed_terminal} \<and>
      e' = e\<lparr>entry_state := TS_archived, archived_from_state := entry_state e\<rparr> \<and>
      ivt' = StoreEntry ivt i e')"
  by (cases "FindEntry ivt i"; cases "entry_state (the (FindEntry ivt i))")
    (auto simp: ArchiveLocalTransaction_def bind_result_eq_Inr TransitionOrFail_Inr Let_def
      structure_valid_iff enum_simps local_id_valid_def kInvalidLocalTransactionId_def)

lemma Rollback_Inr:
  "RollbackLocalTransaction ivt i millis = Inr (ivt', e') \<longleftrightarrow>
    i \<noteq> 0 \<and> (\<exists>e. FindEntry ivt i = Some e \<and> scope (identity e) = Scope_local_node \<and>
      entry_state e \<in> {TS_created, TS_active, TS_read_only_active, TS_preparing, TS_prepared} \<and>
      e' = e\<lparr>entry_state := TS_rolled_back, final_unix_epoch_millis := millis,
             evidence_record_written := True\<rparr> \<and>
      ivt' = StoreEntry ivt i e')"
  by (cases "FindEntry ivt i"; cases "entry_state (the (FindEntry ivt i))")
    (auto simp: RollbackLocalTransaction_def bind_result_eq_Inr TransitionOrFail_Inr Let_def
      enum_simps local_id_valid_def kInvalidLocalTransactionId_def)

lemma MarkRollbackOnly_Inr:
  "MarkLocalTransactionRollbackOnly ivt i = Inr (ivt', e') \<longleftrightarrow>
    i \<noteq> 0 \<and> (\<exists>e. FindEntry ivt i = Some e \<and> entry_state e \<noteq> TS_committed \<and>
      entry_state e \<noteq> TS_archived \<and> e' = e\<lparr>rollback_only := True\<rparr> \<and> ivt' = StoreEntry ivt i e')"
  by (cases "FindEntry ivt i")
    (auto simp: MarkLocalTransactionRollbackOnly_def Let_def local_id_valid_def
      kInvalidLocalTransactionId_def)

lemma Lookup_Inr:
  "LookupLocalTransaction ivt i = Inr e \<longleftrightarrow> i \<noteq> 0 \<and> FindEntry ivt i = Some e"
  by (auto simp: LookupLocalTransaction_def FindEntry_def local_id_valid_def
      kInvalidLocalTransactionId_def split: option.splits)

lemma Compact_Inr:
  "CompactLocalTransactionInventory rq = Inr (ivt', n) \<longleftrightarrow>
    inventory_authoritative rq \<and> oldest_required_local_transaction_id rq \<noteq> 0 \<and>
    valid_inventory (compaction_inventory rq) \<and>
    ivt' = (compaction_inventory rq)
      \<lparr>entries := filter (\<lambda>e. \<not> can_drop rq e) (entries (compaction_inventory rq))\<rparr> \<and>
    n = of_nat (length (filter (can_drop rq) (entries (compaction_inventory rq))))"
  by (auto simp: CompactLocalTransactionInventory_def Let_def structure_valid_iff
      local_id_valid_def kInvalidLocalTransactionId_def)

lemmas inventory_op_simps =
  Begin_Inr Prepare_Inr Commit_Inr Archive_Inr Rollback_Inr MarkRollbackOnly_Inr

section \<open>Projections of the invariant\<close>

lemma valid_next: "valid_inventory ivt \<Longrightarrow> next_local_transaction_id ivt \<noteq> 0"
  and valid_next_cs: "valid_inventory ivt \<Longrightarrow> next_commit_sequence ivt \<noteq> 0"
  by (simp_all add: valid_inventory_def)

lemma valid_entry:
  "valid_inventory ivt \<Longrightarrow> e \<in> set (entries ivt) \<Longrightarrow>
   entry_ok (next_local_transaction_id ivt) (next_commit_sequence ivt) e"
  by (simp add: valid_inventory_def)

lemma valid_ids: "valid_inventory ivt \<Longrightarrow> distinct (map entry_id (entries ivt))"
  and valid_uuids: "valid_inventory ivt \<Longrightarrow> distinct (map entry_uuid (entries ivt))"
  by (simp_all add: valid_inventory_def)

lemma valid_commit_order:
  "valid_inventory ivt \<Longrightarrow> a \<in> set (entries ivt) \<Longrightarrow> b \<in> set (entries ivt) \<Longrightarrow>
   HasCommittedInventoryOutcome a \<Longrightarrow> HasCommittedInventoryOutcome b \<Longrightarrow>
   commit_sequence a = commit_sequence b \<Longrightarrow> a = b"
  using key_unique [of commit_sequence "filter HasCommittedInventoryOutcome (entries ivt)" a b]
  by (simp add: valid_inventory_def)

lemma entry_ok_pos: "entry_ok nid ncs e \<Longrightarrow> entry_id e \<noteq> 0"
  by (simp add: entry_ok_def transaction_identity_valid_def local_id_valid_def
      kInvalidLocalTransactionId_def)

lemma FindEntry_Some:
  "FindEntry ivt i = Some e \<Longrightarrow> e \<in> set (entries ivt) \<and> entry_id e = i"
  by (auto simp: FindEntry_def dest: find_Some_mem)

lemma valid_id_less:
  "valid_inventory ivt \<Longrightarrow> e \<in> set (entries ivt) \<Longrightarrow> entry_id e < next_local_transaction_id ivt"
  by (auto dest: valid_entry simp: entry_ok_def)

interpretation ivt_items: keyed_items valid_inventory entries "\<lambda>e. entry_id e" next_local_transaction_id
  by unfold_locales (simp_all add: valid_ids valid_id_less)

lemma FindEntry_mem:
  "valid_inventory ivt \<Longrightarrow> e \<in> set (entries ivt) \<Longrightarrow> FindEntry ivt (entry_id e) = Some e"
  unfolding FindEntry_def by (rule ivt_items.find_item)

lemma committed_state: "HasCommittedInventoryOutcome e \<longleftrightarrow>
    (entry_state e = TS_committed \<and> archived_from_state e = TS_none) \<or>
    (entry_state e = TS_archived \<and> archived_from_state e = TS_committed)"
  by (auto simp: HasCommittedInventoryOutcome_def InventoryVisibilityState_def
      split: transaction_state.splits if_splits)

lemma visible_nonarchived:
  "entry_ok nid ncs e \<Longrightarrow> entry_state e \<noteq> TS_archived \<Longrightarrow> InventoryVisibilityState e = entry_state e"
  by (simp add: InventoryVisibilityState_def entry_ok_def)

lemma found_visible:
  "valid_inventory ivt \<Longrightarrow> FindEntry ivt i = Some e \<Longrightarrow> entry_state e \<noteq> TS_archived \<Longrightarrow>
   InventoryVisibilityState e = entry_state e \<and> archived_from_state e = TS_none"
  using valid_entry [of ivt e] by (auto simp: visible_nonarchived entry_ok_def dest!: FindEntry_Some)

section \<open>Every operation keeps the invariant\<close>

lemma entry_ok_mono:
  "entry_ok nid ncs e \<Longrightarrow> nid \<le> nid' \<Longrightarrow> ncs \<le> ncs' \<Longrightarrow> entry_ok nid' ncs' e"
  by (auto simp: entry_ok_def)

lemma StoreEntry_simps [simp]:
  "next_local_transaction_id (StoreEntry ivt i e) = next_local_transaction_id ivt"
  "next_commit_sequence (StoreEntry ivt i e) = next_commit_sequence ivt"
  "publication_base (StoreEntry ivt i e) = publication_base ivt"
  "entries (StoreEntry ivt i e) = replace_first (\<lambda>e'. entry_id e' = i) e (entries ivt)"
  by (simp_all add: StoreEntry_def)

lemma StoreEntry_valid:
  assumes v: "valid_inventory ivt" and f: "FindEntry ivt i = Some e"
    and nid: "next_local_transaction_id ivt' = next_local_transaction_id ivt"
    and ncs: "next_commit_sequence ivt \<le> next_commit_sequence ivt'"
    and es: "entries ivt' = entries ivt"
    and k: "entry_id e' = entry_id e" "entry_uuid e' = entry_uuid e"
    and ok: "entry_ok (next_local_transaction_id ivt) (next_commit_sequence ivt') e'"
    and seq: "HasCommittedInventoryOutcome e' \<Longrightarrow>
       HasCommittedInventoryOutcome e \<and> commit_sequence e' = commit_sequence e \<or>
       (\<forall>z \<in> set (entries ivt). HasCommittedInventoryOutcome z \<longrightarrow> commit_sequence z \<noteq> commit_sequence e')"
  shows "valid_inventory (StoreEntry ivt' i e')"
proof -
  let ?p = "\<lambda>e'. entry_id e' = i"
  from f have f': "find ?p (entries ivt) = Some e" by (simp add: FindEntry_def)
  have "next_commit_sequence ivt' \<noteq> 0"
    using ncs valid_next_cs [OF v] by (metis word_le_0_iff)
  moreover have "\<forall>z \<in> set (replace_first ?p e' (entries ivt)).
      entry_ok (next_local_transaction_id ivt) (next_commit_sequence ivt') z"
    using set_replace_first [of ?p e' "entries ivt"] ok valid_entry [OF v]
      entry_ok_mono [OF _ order_refl ncs] by blast
  moreover have "distinct (map commit_sequence
      (filter HasCommittedInventoryOutcome (replace_first ?p e' (entries ivt))))"
    using v by (intro distinct_map_filter_replace [OF f' _ seq]) (auto simp: valid_inventory_def)
  ultimately show ?thesis
    using v by (simp add: valid_inventory_def nid es map_replace_first [OF f'] k)
qed

lemma begun_entry_simps [simp]:
  "entry_id (begun_entry ivt uuid millis st) = next_local_transaction_id ivt"
  "entry_uuid (begun_entry ivt uuid millis st) = uuid_value uuid"
  "entry_state (begun_entry ivt uuid millis st) = st"
  "archived_from_state (begun_entry ivt uuid millis st) = TS_none"
  "commit_sequence (begun_entry ivt uuid millis st) = 0"
  "begin_visible_through_commit_sequence (begun_entry ivt uuid millis st) = next_commit_sequence ivt - 1"
  by (simp_all add: begun_entry_def)

lemma Begin_valid:
  assumes "BeginLocalTransactionWithState ivt uuid millis st = Inr (ivt', e')"
  shows "valid_inventory ivt'"
proof -
  from assms have v: "valid_inventory ivt" and m: "next_local_transaction_id ivt \<noteq> u64_max"
    and fresh: "\<forall>e \<in> set (entries ivt). entry_uuid e \<noteq> uuid_value uuid"
    and kind: "uuid_kind uuid = UK_transaction" and eng: "IsEngineIdentityUuid (uuid_value uuid)"
    and ed: "edge False TS_created st"
    and e': "e' = begun_entry ivt uuid millis st"
    and ivt': "ivt' = ivt\<lparr>next_local_transaction_id := next_local_transaction_id ivt + 1,
               entries := entries ivt @ [e']\<rparr>" by (auto simp: Begin_Inr)
  have st: "st \<noteq> TS_none" "st \<noteq> TS_archived" "st \<noteq> TS_committed"
    using ed by (auto simp: enum_simps)
  then have nc: "\<not> HasCommittedInventoryOutcome e'" by (simp add: committed_state e')
  have lt: "next_local_transaction_id ivt < next_local_transaction_id ivt + 1"
    using m by (rule u64_less_inc)
  have "entry_ok (next_local_transaction_id ivt + 1) (next_commit_sequence ivt) e'"
    using kind eng st nc lt valid_next [OF v] u64_dec_less [OF valid_next_cs [OF v]]
    by (simp add: entry_ok_def e' transaction_identity_valid_def local_id_valid_def
        kInvalidLocalTransactionId_def typed_uuid_valid_def IsEngineIdentityUuid_def begun_entry_def)
  moreover have "entry_ok (next_local_transaction_id ivt + 1) (next_commit_sequence ivt) e"
    if "e \<in> set (entries ivt)" for e
    using entry_ok_mono [OF valid_entry [OF v that] less_imp_le [OF lt] order_refl] .
  moreover have "next_local_transaction_id ivt \<notin> entry_id ` set (entries ivt)"
    using valid_id_less [OF v] by force
  moreover have "entry_uuid e' \<notin> entry_uuid ` set (entries ivt)" using fresh by (auto simp: e')
  ultimately show ?thesis
    using v nc u64_inc_nonzero [OF m] by (auto simp: valid_inventory_def ivt' e')
qed

lemma update_entry_ok:
  assumes "entry_ok nid ncs e" "\<not> HasCommittedInventoryOutcome e"
    "identity e' = identity e"
    "begin_visible_through_commit_sequence e' = begin_visible_through_commit_sequence e"
    "archived_from_state e' = archived_from_state e" "commit_sequence e' = commit_sequence e"
    "entry_state e \<noteq> TS_archived"
    "entry_state e' \<noteq> TS_none" "entry_state e' \<noteq> TS_archived" "entry_state e' \<noteq> TS_committed"
  shows "entry_ok nid ncs e' \<and> \<not> HasCommittedInventoryOutcome e'"
  using assms by (auto simp: entry_ok_def committed_state)

lemma store_uncommitted_valid:
  assumes v: "valid_inventory ivt" and f: "FindEntry ivt i = Some e"
    and s: "entry_state e \<noteq> TS_archived" "entry_state e \<noteq> TS_committed"
    and same: "identity e' = identity e" "archived_from_state e' = archived_from_state e"
      "begin_visible_through_commit_sequence e' = begin_visible_through_commit_sequence e"
      "commit_sequence e' = commit_sequence e"
    and s': "entry_state e' \<noteq> TS_none" "entry_state e' \<noteq> TS_archived" "entry_state e' \<noteq> TS_committed"
  shows "valid_inventory (StoreEntry ivt i e')"
proof -
  from f have mem: "e \<in> set (entries ivt)" by (simp add: FindEntry_Some)
  from s have nc: "\<not> HasCommittedInventoryOutcome e" by (auto simp: committed_state)
  have "entry_ok (next_local_transaction_id ivt) (next_commit_sequence ivt) e'
      \<and> \<not> HasCommittedInventoryOutcome e'"
    by (rule update_entry_ok [OF valid_entry [OF v mem] nc]) (use same s s' in auto)
  then show ?thesis
    by (intro StoreEntry_valid [OF v f]) (use same in auto)
qed

lemma Prepare_valid:
  "valid_inventory ivt \<Longrightarrow> PrepareLocalTransaction ivt i = Inr (ivt', e') \<Longrightarrow> valid_inventory ivt'"
  by (auto simp: Prepare_Inr intro!: store_uncommitted_valid)

lemma Rollback_valid:
  "valid_inventory ivt \<Longrightarrow> RollbackLocalTransaction ivt i millis = Inr (ivt', e') \<Longrightarrow> valid_inventory ivt'"
  by (auto simp: Rollback_Inr intro!: store_uncommitted_valid)

lemma MarkRollbackOnly_valid:
  assumes "valid_inventory ivt" "MarkLocalTransactionRollbackOnly ivt i = Inr (ivt', e')"
  shows "valid_inventory ivt'"
proof -
  from assms(2) obtain e where f: "FindEntry ivt i = Some e"
    and s: "entry_state e \<noteq> TS_committed" "entry_state e \<noteq> TS_archived"
    and e': "e' = e\<lparr>rollback_only := True\<rparr>" "ivt' = StoreEntry ivt i e'"
    by (auto simp: MarkRollbackOnly_Inr)
  from f have "e \<in> set (entries ivt)" by (simp add: FindEntry_Some)
  from valid_entry [OF assms(1) this] have "entry_state e \<noteq> TS_none" by (simp add: entry_ok_def)
  with s show ?thesis unfolding e'
    by (intro store_uncommitted_valid [OF assms(1) f]) auto
qed

lemma Commit_valid:
  assumes "CommitLocalTransaction ivt i millis = Inr (ivt', e')"
  shows "valid_inventory ivt'"
proof -
  let ?n = "next_commit_sequence ivt"
  from assms obtain e where v: "valid_inventory ivt" and m: "?n \<noteq> u64_max"
    and f: "FindEntry ivt i = Some e" and c: "committable e"
    and e': "e' = committed_entry ?n millis e"
    and ivt': "ivt' = StoreEntry (ivt\<lparr>next_commit_sequence := ?n + 1\<rparr>) i e'"
    by (auto simp: Commit_Inr)
  from f have mem: "e \<in> set (entries ivt)" by (simp add: FindEntry_Some)
  note ok = valid_entry [OF v mem]
  have le: "?n \<le> ?n + 1" using u64_less_inc [OF m] by simp
  have "entry_ok (next_local_transaction_id ivt) (?n + 1) e'"
    using ok c u64_less_inc [OF m] valid_next_cs [OF v] le
    by (auto simp: entry_ok_def e' committed_entry_def committable_def committed_state)
  moreover have "commit_sequence z \<noteq> ?n"
    if "z \<in> set (entries ivt)" "HasCommittedInventoryOutcome z" for z
    using valid_entry [OF v that(1)] that(2) by (auto simp: entry_ok_def)
  ultimately show ?thesis unfolding ivt'
    by (intro StoreEntry_valid [OF v f]) (use le in \<open>auto simp: e' committed_entry_def\<close>)
qed

lemma Archive_valid:
  assumes "ArchiveLocalTransaction ivt i = Inr (ivt', e')"
  shows "valid_inventory ivt'"
proof -
  from assms obtain e where v: "valid_inventory ivt" and f: "FindEntry ivt i = Some e"
    and s: "entry_state e \<in> {TS_committed, TS_rolled_back, TS_failed_terminal}"
    and e': "e' = e\<lparr>entry_state := TS_archived, archived_from_state := entry_state e\<rparr>"
    and ivt': "ivt' = StoreEntry ivt i e'"
    by (auto simp: Archive_Inr)
  from f have mem: "e \<in> set (entries ivt)" by (simp add: FindEntry_Some)
  note ok = valid_entry [OF v mem]
  have eq: "HasCommittedInventoryOutcome e' \<longleftrightarrow> HasCommittedInventoryOutcome e"
    using s ok by (auto simp: e' committed_state entry_ok_def)
  have "entry_ok (next_local_transaction_id ivt) (next_commit_sequence ivt) e'"
    using ok s eq by (auto simp: entry_ok_def e')
  then show ?thesis unfolding ivt'
    by (intro StoreEntry_valid [OF v f]) (use eq in \<open>auto simp: e'\<close>)
qed

lemma Compact_valid:
  assumes "CompactLocalTransactionInventory rq = Inr (ivt', n)"
  shows "valid_inventory ivt'"
proof -
  let ?k = "\<lambda>e. \<not> can_drop rq e"
  from assms have v: "valid_inventory (compaction_inventory rq)"
    and ivt': "ivt' = (compaction_inventory rq)
      \<lparr>entries := filter ?k (entries (compaction_inventory rq))\<rparr>"
    by (auto simp: Compact_Inr)
  have "distinct (map f (filter q (filter ?k es)))" if "distinct (map f (filter q es))"
    for f :: "transaction_inventory_entry \<Rightarrow> u64" and q es
    using that by (induction es) auto
  from this [of commit_sequence HasCommittedInventoryOutcome] v show ?thesis
    by (simp add: valid_inventory_def ivt' distinct_map_filter)
qed

section \<open>Runs\<close>

text \<open>A step is one successful operation; a refused operation leaves the inventory as it was.\<close>

inductive inventory_step :: "local_transaction_inventory \<Rightarrow> local_transaction_inventory \<Rightarrow> bool" where
  step_begin: "BeginLocalTransaction ivt uuid millis = Inr (ivt', e) \<Longrightarrow> inventory_step ivt ivt'"
| step_begin_read_only:
    "BeginLocalReadOnlyTransaction ivt uuid millis = Inr (ivt', e) \<Longrightarrow> inventory_step ivt ivt'"
| step_prepare: "PrepareLocalTransaction ivt i = Inr (ivt', e) \<Longrightarrow> inventory_step ivt ivt'"
| step_commit: "CommitLocalTransaction ivt i millis = Inr (ivt', e) \<Longrightarrow> inventory_step ivt ivt'"
| step_rollback: "RollbackLocalTransaction ivt i millis = Inr (ivt', e) \<Longrightarrow> inventory_step ivt ivt'"
| step_abort: "AbortLocalTransaction ivt i millis = Inr (ivt', e) \<Longrightarrow> inventory_step ivt ivt'"
| step_mark: "MarkLocalTransactionRollbackOnly ivt i = Inr (ivt', e) \<Longrightarrow> inventory_step ivt ivt'"
| step_archive: "ArchiveLocalTransaction ivt i = Inr (ivt', e) \<Longrightarrow> inventory_step ivt ivt'"
| step_compact:
    "CompactLocalTransactionInventory rq = Inr (ivt', n) \<Longrightarrow> compaction_inventory rq = ivt \<Longrightarrow>
     inventory_step ivt ivt'"

lemma step_valid: "inventory_step ivt ivt' \<Longrightarrow> valid_inventory ivt \<Longrightarrow> valid_inventory ivt'"
  by (induction rule: inventory_step.induct)
    (auto simp: BeginLocalTransaction_def BeginLocalReadOnlyTransaction_def AbortLocalTransaction_def
      intro: Begin_valid Prepare_valid Commit_valid Rollback_valid MarkRollbackOnly_valid
        Archive_valid Compact_valid)

lemma empty_valid: "valid_inventory MakeEmptyLocalTransactionInventory"
  by (simp add: valid_inventory_def MakeEmptyLocalTransactionInventory_def)

interpretation ivt_run: invariant_system inventory_step valid_inventory
  by unfold_locales (rule step_valid)

lemmas run_valid = ivt_run.run_keeps

lemma FindEntry_StoreEntry:
  "FindEntry ivt i = Some old \<Longrightarrow> entries mid = entries ivt \<Longrightarrow> entry_id e = i \<Longrightarrow>
   FindEntry (StoreEntry mid i e) j = (if j = i then Some e else FindEntry ivt j)"
  by (auto simp: FindEntry_def find_replace_first_same find_replace_first_other)

section \<open>A sample inventory\<close>

text \<open>One committed and two active transactions, at which the properties are instantiated.\<close>

definition sample_uuid :: "byte \<Rightarrow> uuid" where
  "sample_uuid b = Uuid [1, 144, 0, 0, 0, 0, 112, 0, 128, 0, 0, 0, 0, 0, 0, b]"

definition sample_transaction :: "byte \<Rightarrow> typed_uuid" where
  "sample_transaction b = \<lparr>uuid_kind = UK_transaction, uuid_value = sample_uuid b\<rparr>"

definition sample_entry :: "u64 \<Rightarrow> byte \<Rightarrow> transaction_state \<Rightarrow> u64 \<Rightarrow> u64 \<Rightarrow> transaction_inventory_entry" where
  "sample_entry i b st seen cs =
    \<lparr>identity = \<lparr>local_id = i, transaction_uuid = sample_transaction b, scope = Scope_local_node\<rparr>,
     entry_state = st, archived_from_state = TS_none, begin_unix_epoch_millis = 100,
     final_unix_epoch_millis = 0, begin_visible_through_local_transaction_id = i - 1,
     begin_visible_through_commit_sequence = seen, commit_sequence = cs,
     evidence_record_required = True, evidence_record_written = False,
     rollback_only = False, stable_snapshot = False\<rparr>"

definition sample_inventory :: local_transaction_inventory where
  "sample_inventory =
    \<lparr>next_local_transaction_id = 4, next_commit_sequence = 2,
     entries = [sample_entry 1 1 TS_committed 0 1, sample_entry 2 2 TS_active 0 0,
                sample_entry 3 3 TS_active 1 0],
     publication_base = None\<rparr>"

lemma sample_valid: "valid_inventory sample_inventory"
  unfolding structure_valid_iff [symmetric] by code_simp

section \<open>Properties\<close>

text \<open>
  C4. The structural check decides the inventory invariant: it returns no reason exactly when both
  counters are nonzero, every entry is well formed (state, archive origin, commit sequence and
  identity agree and lie below the counters) and local numbers, transaction UUIDs and commit
  sequences of committed entries are each unique.
\<close>

theorem structure_check_decides_invariant:
  "ValidateLocalTransactionInventoryStructure ivt = '''' \<longleftrightarrow> valid_inventory ivt"
  by (rule structure_valid_iff)

text \<open>
  C5. Every inventory that any sequence of begin, prepare, commit, rollback, abort, rollback-only,
  archive and compaction operations builds from the empty one passes the structural check.
\<close>

theorem reachable_inventory_passes_check:
  assumes "inventory_step\<^sup>*\<^sup>* MakeEmptyLocalTransactionInventory ivt"
  shows "ValidateLocalTransactionInventoryStructure ivt = ''''"
  using run_valid [OF assms empty_valid] by (simp add: structure_valid_iff)

theorem reachable_inventory_passes_check_witness:
  "\<exists>ivt. inventory_step\<^sup>*\<^sup>* MakeEmptyLocalTransactionInventory ivt \<and> length (entries ivt) = 1 \<and>
     ValidateLocalTransactionInventoryStructure ivt = ''''"
proof -
  let ?r = "BeginLocalTransaction MakeEmptyLocalTransactionInventory (sample_transaction 1) 7"
  have "is_ok ?r" by code_simp
  then obtain ivt e where r: "?r = Inr (ivt, e)" by (auto simp: is_ok_iff)
  then have run: "inventory_step\<^sup>*\<^sup>* MakeEmptyLocalTransactionInventory ivt"
    by (intro r_into_rtranclp step_begin)
  from r have "length (entries ivt) = 1"
    by (simp add: BeginLocalTransaction_def Begin_Inr MakeEmptyLocalTransactionInventory_def)
  with run reachable_inventory_passes_check [OF run] show ?thesis by blast
qed

text \<open>
  What a commit does. The entry becomes committed with the next commit sequence, which is
  larger than that of every transaction committed before; the counter grows by one without
  wrapping; and no other transaction's entry changes.
\<close>

lemma commit_assigns_next_sequence:
  assumes "CommitLocalTransaction ivt i millis = Inr (ivt', e')"
  shows "HasCommittedInventoryOutcome e' \<and> final_unix_epoch_millis e' = millis \<and>
    commit_sequence e' = next_commit_sequence ivt \<and>
    (\<forall>z \<in> set (entries ivt). HasCommittedInventoryOutcome z \<longrightarrow> commit_sequence z < commit_sequence e') \<and>
    unat (next_commit_sequence ivt') = unat (next_commit_sequence ivt) + 1 \<and>
    next_local_transaction_id ivt' = next_local_transaction_id ivt \<and>
    LookupLocalTransaction ivt' i = Inr e' \<and>
    (\<forall>j. j \<noteq> i \<longrightarrow> LookupLocalTransaction ivt' j = LookupLocalTransaction ivt j)"
proof -
  let ?mid = "ivt\<lparr>next_commit_sequence := next_commit_sequence ivt + 1\<rparr>"
  from assms obtain e where v: "valid_inventory ivt" and m: "next_commit_sequence ivt \<noteq> u64_max"
    and i: "i \<noteq> 0" and f: "FindEntry ivt i = Some e" and c: "committable e"
    and e': "e' = committed_entry (next_commit_sequence ivt) millis e"
    and ivt': "ivt' = StoreEntry ?mid i e'"
    by (auto simp: Commit_Inr)
  have below: "commit_sequence z < next_commit_sequence ivt"
    if "z \<in> set (entries ivt)" "HasCommittedInventoryOutcome z" for z
    using valid_entry [OF v that(1)] that(2) by (simp add: entry_ok_def)
  have com: "HasCommittedInventoryOutcome e'"
    using found_visible [OF v f] c by (auto simp: e' committed_entry_def committable_def committed_state)
  have "entry_id e' = i" using FindEntry_Some [OF f] by (simp add: e' committed_entry_def)
  then have find': "FindEntry ivt' j = (if j = i then Some e' else FindEntry ivt j)" for j
    unfolding ivt' by (intro FindEntry_StoreEntry [OF f]) simp_all
  then have look: "LookupLocalTransaction ivt' i = Inr e'"
    "j \<noteq> i \<Longrightarrow> LookupLocalTransaction ivt' j = LookupLocalTransaction ivt j" for j
    using i by (simp add: Lookup_Inr) (simp add: LookupLocalTransaction_def FindEntry_def [symmetric] find')
  have "final_unix_epoch_millis e' = millis \<and> commit_sequence e' = next_commit_sequence ivt"
    by (simp add: e' committed_entry_def)
  then show ?thesis
    using below com look u64_inc_unat [OF m] by (simp add: ivt')
qed

text \<open>
  When a commit succeeds: exactly when the inventory is well formed, the sequence counter is not
  exhausted, and the transaction is present, local, not marked rollback-only, and active, prepared
  or read-only active. Every other case is an error.
\<close>

lemma commit_succeeds_iff:
  "is_ok (CommitLocalTransaction ivt i millis) \<longleftrightarrow>
    valid_inventory ivt \<and> next_commit_sequence ivt \<noteq> u64_max \<and>
    (\<exists>e. LookupLocalTransaction ivt i = Inr e \<and> scope (identity e) = Scope_local_node \<and>
      \<not> rollback_only e \<and> entry_state e \<in> {TS_active, TS_prepared, TS_read_only_active})"
  by (auto simp: is_ok_iff Commit_Inr Lookup_Inr committable_def)

text \<open>
  What a begin does. The new entry has a local number no entry has, sees exactly the commits
  made so far (every commit sequence in use is at most its begin boundary and the next one is
  above it), and the existing entries are untouched.
\<close>

lemma begin_takes_fresh_number:
  assumes "BeginLocalTransaction ivt uuid millis = Inr (ivt', e')"
  shows "entries ivt' = entries ivt @ [e'] \<and> entry_id e' = next_local_transaction_id ivt \<and>
    (\<forall>z \<in> set (entries ivt). entry_id z < entry_id e' \<and> entry_uuid z \<noteq> entry_uuid e') \<and>
    entry_id e' < next_local_transaction_id ivt' \<and> entry_state e' = TS_active \<and>
    (\<forall>z \<in> set (entries ivt). HasCommittedInventoryOutcome z \<longrightarrow>
       commit_sequence z \<le> begin_visible_through_commit_sequence e') \<and>
    begin_visible_through_commit_sequence e' < next_commit_sequence ivt'"
proof -
  from assms have v: "valid_inventory ivt" and m: "next_local_transaction_id ivt \<noteq> u64_max"
    and fresh: "\<forall>e \<in> set (entries ivt). entry_uuid e \<noteq> uuid_value uuid"
    and e': "e' = begun_entry ivt uuid millis TS_active"
    and ivt': "ivt' = ivt\<lparr>next_local_transaction_id := next_local_transaction_id ivt + 1,
               entries := entries ivt @ [e']\<rparr>"
    by (auto simp: BeginLocalTransaction_def Begin_Inr)
  have "commit_sequence z \<le> next_commit_sequence ivt - 1"
    if "z \<in> set (entries ivt)" "HasCommittedInventoryOutcome z" for z
    using valid_entry [OF v that(1)] that(2) u64_le_dec_iff [OF valid_next_cs [OF v]]
    by (simp add: entry_ok_def)
  then show ?thesis
    using fresh valid_id_less [OF v] u64_less_inc [OF m] u64_dec_less [OF valid_next_cs [OF v]]
    by (simp add: ivt' e')
qed

end
