(* ===== verification/StdMap.thy ===== *)
theory StdMap
  imports Prelude
begin

text \<open>
  The parts of \<^verbatim>\<open>std::map\<close> the code uses: an association list in ascending key order, so that
  iteration visits the keys the way the container does. \<open>map_of\<close> is \<^verbatim>\<open>find\<close>, \<open>map_put\<close> is
  \<^verbatim>\<open>operator[] =\<close>, \<open>map_erase\<close> is \<^verbatim>\<open>erase(key)\<close>, \<open>map_erase_if\<close> the loop that erases
  through an iterator, and \<open>length\<close> is \<^verbatim>\<open>size()\<close>.
\<close>

type_synonym ('k, 'v) std_map = "('k \<times> 'v) list"

fun map_put :: "'k::linorder \<Rightarrow> 'v \<Rightarrow> ('k, 'v) std_map \<Rightarrow> ('k, 'v) std_map" where
  "map_put k v [] = [(k, v)]"
| "map_put k v ((k', v') # m) =
    (if k = k' then (k, v) # m
     else if k < k' then (k, v) # (k', v') # m
     else (k', v') # map_put k v m)"

definition map_erase :: "'k \<Rightarrow> ('k, 'v) std_map \<Rightarrow> ('k, 'v) std_map" where
  "map_erase k m = filter (\<lambda>(k', _). k' \<noteq> k) m"

definition map_erase_if :: "('v \<Rightarrow> bool) \<Rightarrow> ('k, 'v) std_map \<Rightarrow> ('k, 'v) std_map" where
  "map_erase_if p m = filter (\<lambda>(_, v). \<not> p v) m"

definition map_values :: "('v \<Rightarrow> 'w) \<Rightarrow> ('k, 'v) std_map \<Rightarrow> ('k, 'w) std_map" where
  "map_values f m = map (\<lambda>(k, v). (k, f v)) m"

definition wf_map :: "('k::linorder, 'v) std_map \<Rightarrow> bool" where
  "wf_map m \<longleftrightarrow> sorted_wrt (<) (map fst m)"

section \<open>Lookups\<close>

lemma map_of_put [simp]: "map_of (map_put k v m) = (map_of m)(k \<mapsto> v)"
  by (induction k v m rule: map_put.induct) auto

lemma map_of_erase [simp]: "map_of (map_erase k m) = (map_of m)(k := None)"
  by (induction m) (auto simp: map_erase_def)

lemma map_of_values [simp]: "map_of (map_values f m) k = map_option f (map_of m k)"
  by (induction m) (auto simp: map_values_def)

lemma map_of_erase_if:
  "wf_map m \<Longrightarrow>
   map_of (map_erase_if p m) k = (case map_of m k of Some v \<Rightarrow> if p v then None else Some v | None \<Rightarrow> None)"
proof (induction m)
  case Nil
  then show ?case by (simp add: map_erase_if_def)
next
  case (Cons a m)
  obtain k' v where a: "a = (k', v)" by (cases a)
  from Cons.prems have w: "wf_map m" and lt: "\<forall>x \<in> set m. k' < fst x" by (auto simp: wf_map_def a)
  from lt have "map_of m k' = None" by (auto simp: map_of_eq_None_iff)
  with Cons.IH [OF w] show ?case by (auto simp: a map_erase_if_def)
qed

section \<open>Well-formedness\<close>

lemma set_map_put: "set (map_put k v m) \<subseteq> insert (k, v) (set m)"
  by (induction k v m rule: map_put.induct) auto

lemma wf_map_Nil [simp]: "wf_map []"
  by (simp add: wf_map_def)

lemma wf_map_put [simp]: "wf_map m \<Longrightarrow> wf_map (map_put k v m)"
proof (induction k v m rule: map_put.induct)
  case (1 k v)
  then show ?case by (simp add: wf_map_def)
next
  case (2 k v k' v' m)
  from "2.prems" have w: "wf_map m" and lt: "\<forall>x \<in> set m. k' < fst x" by (auto simp: wf_map_def)
  show ?case
  proof (cases "k = k' \<or> k < k'")
    case True
    with "2.prems" lt show ?thesis by (auto simp: wf_map_def intro: less_trans)
  next
    case False
    then have "k' < k" "wf_map (map_put k v m)" using "2.IH" w by auto
    with lt set_map_put [of k v m] False show ?thesis by (auto simp: wf_map_def)
  qed
qed

lemma wf_map_filter: "wf_map m \<Longrightarrow> wf_map (filter p m)"
  by (induction m) (auto simp: wf_map_def)

lemma wf_map_erase [simp]: "wf_map m \<Longrightarrow> wf_map (map_erase k m)"
  by (simp add: map_erase_def wf_map_filter)

lemma wf_map_erase_if [simp]: "wf_map m \<Longrightarrow> wf_map (map_erase_if p m)"
  by (simp add: map_erase_if_def wf_map_filter)

lemma wf_map_values [simp]: "wf_map (map_values f m) = wf_map m"
  by (simp add: wf_map_def map_values_def comp_def case_prod_beta)

lemma wf_map_distinct: "wf_map m \<Longrightarrow> distinct (map fst m)"
  by (simp add: wf_map_def strict_sorted_iff)

lemma map_of_mem: "map_of m k = Some v \<Longrightarrow> (k, v) \<in> set m"
  by (rule map_of_SomeD)

lemma mem_map_of: "wf_map m \<Longrightarrow> (k, v) \<in> set m \<longleftrightarrow> map_of m k = Some v"
  by (rule map_of_eq_Some_iff [symmetric]) (rule wf_map_distinct)

lemma map_erase_absent: "map_of m k = None \<Longrightarrow> map_erase k m = m"
  by (auto simp: map_erase_def map_of_eq_None_iff filter_id_conv image_iff split: prod.splits)

end
