(* ===== verification/TransactionLock.thy ===== *)
theory TransactionLock
  imports TransactionInventory StdMap "HOL-Library.List_Lexorder" "HOL-Library.Char_ord"
begin

text \<open>
  The local lock table: \<^verbatim>\<open>transaction/mga/transaction_lock.{hpp,cpp}\<close>. Every public method of
  \<^verbatim>\<open>LocalTransactionLockTable\<close> takes the mutex for its whole body and is one step on the table. The
  metrics the methods publish do not feed back into the table and are left out. The lemmas give the
  exclusion invariant of the table, the exact condition of a grant, and show that the bounded
  deadlock search decides reachability in the wait-for graph.
\<close>

section \<open>Data\<close>

datatype transaction_lock_mode = LM_shared | LM_exclusive | LM_unknown

datatype transaction_lock_decision =
    LD_granted | LD_already_owned | LD_wait_required | LD_timeout | LD_deadlock_detected
  | LD_admission_refused | LD_invalid_request

record transaction_wait_policy =
  timeout_millis :: u64
  no_wait :: bool
  wait_start_unix_epoch_millis :: u64
  now_unix_epoch_millis :: u64

record transaction_lock_request =
  requester :: local_transaction_id
  resource_key :: string
  request_mode :: transaction_lock_mode
  wait_policy :: transaction_wait_policy
  transaction_active :: bool

record transaction_lock_result =
  lock_status :: status
  lock_decision :: transaction_lock_decision
  blocking_transaction :: local_transaction_id
  retry_after_millis :: u64
  wait_elapsed_millis :: u64
  lock_diagnostic :: "diagnostic_record option"

text \<open>\<^verbatim>\<open>TransactionLockResult::ok()\<close>.\<close>

definition lock_ok :: "transaction_lock_result \<Rightarrow> bool" where
  "lock_ok r \<longleftrightarrow> status_ok (lock_status r) \<and>
    (lock_decision r = LD_granted \<or> lock_decision r = LD_already_owned)"

record lock_record =
  owners :: "local_transaction_id list"
  record_mode :: transaction_lock_mode

record admission_policy =
  accepting_new_waits :: bool
  max_held_locks :: u64
  max_waiters :: u64

record waiting_record =
  waiting_request :: transaction_lock_request
  waiting_blocking_transaction :: local_transaction_id
  wait_sequence :: u64
  retry_count :: u64

type_synonym lock_map = "(string, lock_record) std_map"
type_synonym waiting_map = "(u64, waiting_record) std_map"

record local_transaction_lock_table =
  locks :: lock_map
  waiting :: waiting_map
  lock_admission_policy :: admission_policy
  next_wait_sequence :: u64

text \<open>A default constructed table.\<close>

definition empty_lock_table :: local_transaction_lock_table where
  "empty_lock_table =
    \<lparr>locks = [], waiting = [],
     lock_admission_policy = \<lparr>accepting_new_waits = True, max_held_locks = 0, max_waiters = 0\<rparr>,
     next_wait_sequence = 1\<rparr>"

section \<open>Results\<close>

definition LockOkStatus :: status where
  "LockOkStatus = TransactionOkStatus"

definition LockErrorStatus :: status where
  "LockErrorStatus = TransactionErrorStatus"

definition MakeTransactionLockDiagnostic ::
  "status \<Rightarrow> string \<Rightarrow> string \<Rightarrow> string \<Rightarrow> diagnostic_record" where
  "MakeTransactionLockDiagnostic = component_diagnostic ''transaction.mga.lock''"

definition LockError ::
  "transaction_lock_decision \<Rightarrow> string \<Rightarrow> string \<Rightarrow> string \<Rightarrow> transaction_lock_result" where
  "LockError d code key detail =
    \<lparr>lock_status = LockErrorStatus, lock_decision = d, blocking_transaction = kInvalidLocalTransactionId,
     retry_after_millis = 0, wait_elapsed_millis = 0,
     lock_diagnostic = Some (MakeTransactionLockDiagnostic LockErrorStatus code key detail)\<rparr>"

text \<open>The result of the branches that set only the status and the decision.\<close>

definition LockOk :: "transaction_lock_decision \<Rightarrow> transaction_lock_result" where
  "LockOk d =
    \<lparr>lock_status = LockOkStatus, lock_decision = d, blocking_transaction = kInvalidLocalTransactionId,
     retry_after_millis = 0, wait_elapsed_millis = 0, lock_diagnostic = None\<rparr>"

fun TransactionLockDecisionName :: "transaction_lock_decision \<Rightarrow> string" where
  "TransactionLockDecisionName LD_granted = ''granted''"
| "TransactionLockDecisionName LD_already_owned = ''already_owned''"
| "TransactionLockDecisionName LD_wait_required = ''wait_required''"
| "TransactionLockDecisionName LD_timeout = ''timeout''"
| "TransactionLockDecisionName LD_deadlock_detected = ''deadlock_detected''"
| "TransactionLockDecisionName LD_admission_refused = ''admission_refused''"
| "TransactionLockDecisionName LD_invalid_request = ''invalid_request''"

section \<open>Helpers of the table\<close>

definition OwnsLock :: "lock_record \<Rightarrow> local_transaction_id \<Rightarrow> bool" where
  "OwnsLock r i \<longleftrightarrow> list_ex (\<lambda>held. held = i) (owners r)"

definition AddOwner :: "lock_record \<Rightarrow> local_transaction_id \<Rightarrow> lock_record" where
  "AddOwner r i = (if OwnsLock r i then r else r\<lparr>owners := owners r @ [i]\<rparr>)"

definition RemoveOwner :: "lock_record \<Rightarrow> local_transaction_id \<Rightarrow> lock_record" where
  "RemoveOwner r i = r\<lparr>owners := filter (\<lambda>held. held \<noteq> i) (owners r)\<rparr>"

definition CompatibleWithExisting ::
  "lock_record \<Rightarrow> local_transaction_id \<Rightarrow> transaction_lock_mode \<Rightarrow> bool" where
  "CompatibleWithExisting r i mode =
    (if owners r = [] then True
     else if record_mode r = LM_shared \<and> mode = LM_shared then True
     else length (owners r) = 1 \<and> hd (owners r) = i)"

definition FirstBlockingOwner :: "lock_record \<Rightarrow> local_transaction_id \<Rightarrow> local_transaction_id" where
  "FirstBlockingOwner r i =
    (case find (\<lambda>held. held \<noteq> i) (owners r) of
       Some held \<Rightarrow> held
     | None \<Rightarrow> (case owners r of [] \<Rightarrow> kInvalidLocalTransactionId | held # _ \<Rightarrow> held))"

text \<open>
  The recursion stops at \<^verbatim>\<open>depth > locks.size() + 1\<close>. The depth stays far below the range of
  \<^verbatim>\<open>u64\<close> and is a natural number here.
\<close>

function HasDeadlockPath ::
  "lock_map \<Rightarrow> waiting_map \<Rightarrow> local_transaction_id \<Rightarrow> local_transaction_id \<Rightarrow> nat \<Rightarrow> bool" where
  "HasDeadlockPath lks wts i target depth =
    (if \<not> local_id_valid i \<or> \<not> local_id_valid target \<or> length lks + 1 < depth then False
     else if i = target then True
     else case map_of wts i of
       None \<Rightarrow> False
     | Some w \<Rightarrow> (case map_of lks (resource_key (waiting_request w)) of
         None \<Rightarrow> False
       | Some r \<Rightarrow> list_ex (\<lambda>held. HasDeadlockPath lks wts held target (depth + 1)) (owners r)))"
  by pat_completeness auto
termination by (relation "measure (\<lambda>(lks, wts, i, target, depth). length lks + 2 - depth)") auto

declare HasDeadlockPath.simps [simp del]

text \<open>One round of the loop that keeps the earliest waiter seen so far, and the loop.\<close>

definition earlier_waiter ::
  "string \<Rightarrow> local_transaction_id \<Rightarrow> u64 \<Rightarrow> waiting_record \<Rightarrow> waiting_record option \<Rightarrow> waiting_record option" where
  "earlier_waiter key i seq w earliest =
    (if resource_key (waiting_request w) \<noteq> key \<or> requester (waiting_request w) = i then earliest
     else if seq \<noteq> 0 \<and> seq \<le> wait_sequence w then earliest
     else case earliest of
       None \<Rightarrow> Some w
     | Some e \<Rightarrow> if wait_sequence w < wait_sequence e then Some w else earliest)"

definition EarliestPriorWaiterForResource ::
  "waiting_map \<Rightarrow> string \<Rightarrow> local_transaction_id \<Rightarrow> u64 \<Rightarrow> waiting_record option" where
  "EarliestPriorWaiterForResource wts key i seq =
    fold (\<lambda>(_, w). earlier_waiter key i seq w) wts None"

definition DeadlineExpired :: "transaction_wait_policy \<Rightarrow> bool" where
  "DeadlineExpired p =
    (if no_wait p \<or> timeout_millis p = 0 then True
     else if wait_start_unix_epoch_millis p = 0 \<or> now_unix_epoch_millis p = 0 then False
     else if now_unix_epoch_millis p \<le> wait_start_unix_epoch_millis p then False
     else timeout_millis p \<le> now_unix_epoch_millis p - wait_start_unix_epoch_millis p)"

definition WaitElapsedMillis :: "transaction_wait_policy \<Rightarrow> u64" where
  "WaitElapsedMillis p =
    (if wait_start_unix_epoch_millis p = 0 \<or> now_unix_epoch_millis p = 0 \<or>
        now_unix_epoch_millis p \<le> wait_start_unix_epoch_millis p
     then 0 else now_unix_epoch_millis p - wait_start_unix_epoch_millis p)"

definition RetryAfterMillis :: "transaction_wait_policy \<Rightarrow> u64" where
  "RetryAfterMillis p =
    (if timeout_millis p = 0 then 0
     else let elapsed = WaitElapsedMillis p in
       if timeout_millis p \<le> elapsed then 0 else timeout_millis p - elapsed)"

section \<open>The operations\<close>

definition SetAdmissionPolicy ::
  "admission_policy \<Rightarrow> local_transaction_lock_table \<Rightarrow> local_transaction_lock_table" where
  "SetAdmissionPolicy p t = t\<lparr>lock_admission_policy := p\<rparr>"

text \<open>The request is valid, and a new record fits under the limit of held locks.\<close>

definition lock_request_valid :: "transaction_lock_request \<Rightarrow> bool" where
  "lock_request_valid q \<longleftrightarrow> local_id_valid (requester q) \<and> resource_key q \<noteq> [] \<and>
    request_mode q \<noteq> LM_unknown \<and> transaction_active q"

text \<open>\<^verbatim>\<open>size() >= limit\<close> for a limit that is a \<^verbatim>\<open>u64\<close>; zero is no limit.\<close>

definition limit_reached :: "u64 \<Rightarrow> 'a list \<Rightarrow> bool" where
  "limit_reached limit xs \<longleftrightarrow> limit \<noteq> 0 \<and> unat limit \<le> length xs"

definition wait_refused :: "local_transaction_lock_table \<Rightarrow> bool" where
  "wait_refused t \<longleftrightarrow> \<not> accepting_new_waits (lock_admission_policy t) \<or>
    limit_reached (max_waiters (lock_admission_policy t)) (waiting t)"

text \<open>
  The end of both waiting branches: the number of the wait is preserved or drawn from the counter
  and the wait is recorded under the requester.
\<close>

definition record_wait ::
  "transaction_lock_request \<Rightarrow> local_transaction_id \<Rightarrow> u64 \<Rightarrow> u64 \<Rightarrow> local_transaction_lock_table \<Rightarrow>
   local_transaction_lock_table" where
  "record_wait q blocker preserved retries t =
    (let seq = (if preserved = 0 then next_wait_sequence t else preserved);
         t' = (if preserved = 0 then t\<lparr>next_wait_sequence := next_wait_sequence t + 1\<rparr> else t)
     in t'\<lparr>waiting := map_put (requester q)
           \<lparr>waiting_request = q, waiting_blocking_transaction = blocker, wait_sequence = seq,
            retry_count = retries\<rparr> (waiting t')\<rparr>)"

definition wait_result ::
  "transaction_lock_request \<Rightarrow> local_transaction_id \<Rightarrow> string \<Rightarrow> string \<Rightarrow> transaction_lock_result" where
  "wait_result q blocker code key =
    (LockError LD_wait_required code key (resource_key q))
      \<lparr>blocking_transaction := blocker,
       retry_after_millis := RetryAfterMillis (wait_policy q),
       wait_elapsed_millis := WaitElapsedMillis (wait_policy q)\<rparr>"

text \<open>The branch taken when an earlier waiter for the resource exists.\<close>

definition fairness_wait ::
  "transaction_lock_request \<Rightarrow> u64 \<Rightarrow> waiting_record \<Rightarrow> local_transaction_lock_table \<Rightarrow>
   transaction_lock_result \<times> local_transaction_lock_table" where
  "fairness_wait q preserved prior t =
    (let blocker = requester (waiting_request prior); p = wait_policy q in
     if DeadlineExpired p then
       ((LockError LD_timeout
           (if no_wait p then ''SB-SNTXN-LOCK-TIMEOUT'' else ''SB-SNTXN-LOCK-FAIRNESS-TIMEOUT'')
           (if no_wait p then ''transaction.lock.timeout'' else ''transaction.lock.fairness_timeout'')
           (resource_key q))
          \<lparr>blocking_transaction := blocker, wait_elapsed_millis := WaitElapsedMillis p\<rparr>, t)
     else if wait_refused t then
       ((LockError LD_admission_refused ''SB-SNTXN-LOCK-ADMISSION-REFUSED''
           ''transaction.lock.admission_refused'' ''fairness_wait_admission'')
          \<lparr>blocking_transaction := blocker\<rparr>, t)
     else
       (wait_result q blocker ''SB-SNTXN-LOCK-FAIRNESS-WAIT'' ''transaction.lock.fairness_wait'',
        record_wait q blocker preserved (if preserved = 0 then 0 else retry_count prior + 1) t))"

text \<open>The branch taken when an owner of the resource conflicts with the request.\<close>

definition conflict_wait ::
  "transaction_lock_request \<Rightarrow> u64 \<Rightarrow> lock_record \<Rightarrow> local_transaction_lock_table \<Rightarrow>
   transaction_lock_result \<times> local_transaction_lock_table" where
  "conflict_wait q preserved r t =
    (let blocker = FirstBlockingOwner r (requester q); p = wait_policy q in
     if HasDeadlockPath (locks t) (waiting t) blocker (requester q) 0 then
       ((LockError LD_deadlock_detected ''SB-SNTXN-DEADLOCK-DETECTED''
           ''transaction.lock.deadlock_detected'' (resource_key q))
          \<lparr>blocking_transaction := blocker\<rparr>, t)
     else if DeadlineExpired p then
       ((LockError LD_timeout ''SB-SNTXN-LOCK-TIMEOUT'' ''transaction.lock.timeout'' (resource_key q))
          \<lparr>blocking_transaction := blocker, wait_elapsed_millis := WaitElapsedMillis p\<rparr>, t)
     else if wait_refused t then
       ((LockError LD_admission_refused ''SB-SNTXN-LOCK-ADMISSION-REFUSED''
           ''transaction.lock.admission_refused'' ''wait_admission'')
          \<lparr>blocking_transaction := blocker\<rparr>, t)
     else
       (wait_result q blocker ''SB-SNTXN-LOCK-WAIT-REQUIRED'' ''transaction.lock.wait_required'',
        record_wait q blocker preserved (if preserved \<noteq> 0 then 1 else 0) t))"

text \<open>A granting branch: store the record of the resource and drop the requester's wait.\<close>

definition grant ::
  "transaction_lock_request \<Rightarrow> lock_record \<Rightarrow> local_transaction_lock_table \<Rightarrow> local_transaction_lock_table" where
  "grant q r t = t\<lparr>locks := map_put (resource_key q) r (locks t),
                   waiting := map_erase (requester q) (waiting t)\<rparr>"

definition upgrade_mode :: "transaction_lock_mode \<Rightarrow> lock_record \<Rightarrow> lock_record" where
  "upgrade_mode mode r = (if mode = LM_exclusive then r\<lparr>record_mode := LM_exclusive\<rparr> else r)"

definition AcquireInternal ::
  "transaction_lock_request \<Rightarrow> u64 \<Rightarrow> local_transaction_lock_table \<Rightarrow>
   transaction_lock_result \<times> local_transaction_lock_table" where
  "AcquireInternal q preserved t =
    (if \<not> lock_request_valid q then
       (LockError LD_invalid_request ''SB-SNTXN-LOCK-INVALID-REQUEST'' ''transaction.lock.invalid_request'' '''', t)
     else if limit_reached (max_held_locks (lock_admission_policy t)) (locks t) \<and>
             map_of (locks t) (resource_key q) = None then
       (LockError LD_admission_refused ''SB-SNTXN-LOCK-ADMISSION-REFUSED''
          ''transaction.lock.admission_refused'' ''max_held_locks'', t)
     else case map_of (locks t) (resource_key q) of
       None \<Rightarrow> (LockOk LD_granted, grant q \<lparr>owners = [requester q], record_mode = request_mode q\<rparr> t)
     | Some r \<Rightarrow>
         if OwnsLock r (requester q) \<and>
            (record_mode r = LM_exclusive \<or> record_mode r = request_mode q \<or>
             CompatibleWithExisting r (requester q) (request_mode q)) then
           (LockOk LD_already_owned, grant q (upgrade_mode (request_mode q) r) t)
         else
           (case (if OwnsLock r (requester q) then None
                  else EarliestPriorWaiterForResource (waiting t) (resource_key q) (requester q) preserved) of
              Some prior \<Rightarrow> fairness_wait q preserved prior t
            | None \<Rightarrow>
                if CompatibleWithExisting r (requester q) (request_mode q) then
                  (LockOk LD_granted, grant q (AddOwner (upgrade_mode (request_mode q) r) (requester q)) t)
                else conflict_wait q preserved r t))"

definition Acquire ::
  "transaction_lock_request \<Rightarrow> local_transaction_lock_table \<Rightarrow>
   transaction_lock_result \<times> local_transaction_lock_table" where
  "Acquire q t = AcquireInternal q 0 t"

definition Retry ::
  "local_transaction_id \<Rightarrow> local_transaction_lock_table \<Rightarrow>
   transaction_lock_result \<times> local_transaction_lock_table" where
  "Retry i t =
    (case map_of (waiting t) i of
       None \<Rightarrow> (LockError LD_invalid_request ''SB-SNTXN-LOCK-INVALID-RETRY''
                 ''transaction.lock.invalid_retry'' '''', t)
     | Some w \<Rightarrow> AcquireInternal (waiting_request w) (wait_sequence w) (t\<lparr>waiting := map_erase i (waiting t)\<rparr>))"

definition Release ::
  "local_transaction_id \<Rightarrow> string \<Rightarrow> local_transaction_lock_table \<Rightarrow>
   transaction_lock_result \<times> local_transaction_lock_table" where
  "Release i key t =
    (let refused = (LockError LD_invalid_request ''SB-SNTXN-LOCK-INVALID-RELEASE''
                      ''transaction.lock.invalid_release'' key, t) in
     case map_of (locks t) key of
       None \<Rightarrow> refused
     | Some r \<Rightarrow>
         if \<not> OwnsLock r i then refused
         else
           let r' = RemoveOwner r i in
           (LockOk LD_granted,
            t\<lparr>locks := (if owners r' = [] then map_erase key (locks t) else map_put key r' (locks t)),
              waiting := map_erase i (waiting t)\<rparr>))"

definition ReleaseAll ::
  "local_transaction_id \<Rightarrow> local_transaction_lock_table \<Rightarrow> u64 \<times> local_transaction_lock_table" where
  "ReleaseAll i t =
    (of_nat (length (filter (\<lambda>(_, r). OwnsLock r i) (locks t))),
     t\<lparr>locks := map_erase_if (\<lambda>r. owners r = []) (map_values (\<lambda>r. if OwnsLock r i then RemoveOwner r i else r) (locks t)),
       waiting := map_erase i (waiting t)\<rparr>)"

definition held_lock_count :: "local_transaction_lock_table \<Rightarrow> u64" where
  "held_lock_count t = of_nat (length (locks t))"

definition waiting_lock_count :: "local_transaction_lock_table \<Rightarrow> u64" where
  "waiting_lock_count t = of_nat (length (waiting t))"


section \<open>Lemmas: the exclusion invariant\<close>

definition record_ok :: "lock_record \<Rightarrow> bool" where
  "record_ok r \<longleftrightarrow> owners r \<noteq> [] \<and> distinct (owners r) \<and> 0 \<notin> set (owners r) \<and>
    record_mode r \<noteq> LM_unknown \<and> (record_mode r = LM_exclusive \<longrightarrow> length (owners r) = 1)"

definition lock_table_ok :: "local_transaction_lock_table \<Rightarrow> bool" where
  "lock_table_ok t \<longleftrightarrow> wf_map (locks t) \<and> wf_map (waiting t) \<and>
    (\<forall>k r. map_of (locks t) k = Some r \<longrightarrow> record_ok r) \<and>
    (\<forall>i w. map_of (waiting t) i = Some w \<longrightarrow>
      requester (waiting_request w) = i \<and> lock_request_valid (waiting_request w))"

inductive lock_step :: "local_transaction_lock_table \<Rightarrow> local_transaction_lock_table \<Rightarrow> bool" where
  step_acquire: "Acquire q t = (res, t') \<Longrightarrow> lock_step t t'"
| step_retry: "Retry i t = (res, t') \<Longrightarrow> lock_step t t'"
| step_release: "Release i key t = (res, t') \<Longrightarrow> lock_step t t'"
| step_release_all: "ReleaseAll i t = (n, t') \<Longrightarrow> lock_step t t'"
| step_policy: "t' = SetAdmissionPolicy p t \<Longrightarrow> lock_step t t'"

lemma OwnsLock_iff [simp]: "OwnsLock r i \<longleftrightarrow> i \<in> set (owners r)"
  by (auto simp: OwnsLock_def list_ex_iff)

lemma record_ok_owners: "record_ok r \<Longrightarrow> owners r \<noteq> []"
  by (simp add: record_ok_def)

lemma request_valid_id: "lock_request_valid q \<Longrightarrow> requester q \<noteq> 0"
  by (auto simp: lock_request_valid_def local_id_valid_def kInvalidLocalTransactionId_def)

lemma lock_table_okI:
  "wf_map (locks t) \<Longrightarrow> wf_map (waiting t) \<Longrightarrow>
   (\<And>k r. map_of (locks t) k = Some r \<Longrightarrow> record_ok r) \<Longrightarrow>
   (\<And>i w. map_of (waiting t) i = Some w \<Longrightarrow>
      requester (waiting_request w) = i \<and> lock_request_valid (waiting_request w)) \<Longrightarrow> lock_table_ok t"
  by (simp add: lock_table_ok_def)

lemma lock_table_okD:
  assumes "lock_table_ok t"
  shows "wf_map (locks t)" "wf_map (waiting t)"
    "map_of (locks t) k = Some r \<Longrightarrow> record_ok r"
    "map_of (waiting t) i = Some w \<Longrightarrow> requester (waiting_request w) = i"
    "map_of (waiting t) i = Some w \<Longrightarrow> lock_request_valid (waiting_request w)"
  using assms by (auto simp: lock_table_ok_def)

lemma grant_ok:
  assumes "lock_table_ok t" "record_ok r"
  shows "lock_table_ok (grant q r t)"
  using assms by (auto simp: lock_table_ok_def grant_def split: if_splits)

lemma record_wait_fields [simp]:
  "locks (record_wait q b p n t) = locks t"
  "lock_admission_policy (record_wait q b p n t) = lock_admission_policy t"
  "waiting (record_wait q b p n t) = map_put (requester q)
     \<lparr>waiting_request = q, waiting_blocking_transaction = b,
      wait_sequence = (if p = 0 then next_wait_sequence t else p), retry_count = n\<rparr> (waiting t)"
  by (simp_all add: record_wait_def Let_def)

lemma record_wait_ok:
  "lock_table_ok t \<Longrightarrow> lock_request_valid q \<Longrightarrow> lock_table_ok (record_wait q b p n t)"
  by (auto simp: lock_table_ok_def split: if_splits)

lemma waits_ok:
  assumes "lock_table_ok t" "lock_request_valid q"
  shows "lock_table_ok (snd (fairness_wait q p prior t))" "lock_table_ok (snd (conflict_wait q p r t))"
  using assms by (simp_all add: fairness_wait_def conflict_wait_def Let_def record_wait_ok)

lemma record_ok_owned:
  assumes "record_ok r" "requester q \<in> set (owners r)" "lock_request_valid q"
    "record_mode r = LM_exclusive \<or> record_mode r = request_mode q \<or>
       CompatibleWithExisting r (requester q) (request_mode q)"
  shows "record_ok (upgrade_mode (request_mode q) r)"
  using assms by (auto simp: record_ok_def upgrade_mode_def CompatibleWithExisting_def split: if_splits)

lemma record_ok_joined:
  assumes "record_ok r" "CompatibleWithExisting r (requester q) (request_mode q)" "lock_request_valid q"
  shows "record_ok (AddOwner (upgrade_mode (request_mode q) r) (requester q))"
  using assms request_valid_id [of q]
  by (cases "owners r")
    (auto simp: record_ok_def upgrade_mode_def CompatibleWithExisting_def AddOwner_def split: if_splits)

lemma AcquireInternal_ok:
  assumes "lock_table_ok t"
  shows "lock_table_ok (snd (AcquireInternal q p t))"
proof (cases "lock_request_valid q")
  case False
  with assms show ?thesis by (simp add: AcquireInternal_def)
next
  case True
  then have "record_ok \<lparr>owners = [requester q], record_mode = request_mode q\<rparr>"
    using request_valid_id [of q] by (simp add: record_ok_def lock_request_valid_def)
  with assms True show ?thesis
    by (auto simp: AcquireInternal_def waits_ok record_ok_owned record_ok_joined
        intro!: grant_ok dest: lock_table_okD(3) split: option.splits)
qed

lemma forget_wait_ok:
  "lock_table_ok t \<Longrightarrow> lock_table_ok (t\<lparr>waiting := map_erase i (waiting t)\<rparr>)"
  by (auto simp: lock_table_ok_def split: if_splits)

lemma record_ok_remove:
  "record_ok r \<Longrightarrow> owners (RemoveOwner r i) \<noteq> [] \<Longrightarrow> record_ok (RemoveOwner r i)"
  by (cases "owners r") (auto simp: record_ok_def RemoveOwner_def split: if_splits)

lemma Release_ok: "lock_table_ok t \<Longrightarrow> lock_table_ok (snd (Release i key t))"
  by (auto simp: Release_def Let_def lock_table_ok_def record_ok_remove split: option.splits if_splits)

lemma owners_RemoveOwner_Nil:
  assumes "record_ok r"
  shows "owners (RemoveOwner r i) = [] \<longleftrightarrow> owners r = [i]"
proof
  assume "owners (RemoveOwner r i) = []"
  then have "set (owners r) \<subseteq> {i}" by (auto simp: RemoveOwner_def filter_empty_conv)
  with assms show "owners r = [i]"
    by (cases "owners r"; cases "tl (owners r)") (auto simp: record_ok_def)
qed (simp add: RemoveOwner_def)

lemma ReleaseAll_locks:
  assumes "lock_table_ok t"
  shows "map_of (locks (snd (ReleaseAll i t))) k =
    (case map_of (locks t) k of
       Some r \<Rightarrow> if owners r = [i] then None else Some (if i \<in> set (owners r) then RemoveOwner r i else r)
     | None \<Rightarrow> None)"
proof (cases "map_of (locks t) k")
  case None
  with assms show ?thesis by (simp add: ReleaseAll_def map_of_erase_if lock_table_okD)
next
  case (Some r)
  with assms have "record_ok r" by (rule lock_table_okD)
  with assms Some record_ok_owners [OF this] show ?thesis
    by (auto simp: ReleaseAll_def map_of_erase_if lock_table_okD owners_RemoveOwner_Nil)
qed

lemma ReleaseAll_ok:
  assumes "lock_table_ok t"
  shows "lock_table_ok (snd (ReleaseAll i t))"
proof (rule lock_table_okI)
  fix k r
  assume "map_of (locks (snd (ReleaseAll i t))) k = Some r"
  then obtain r0 where r0: "map_of (locks t) k = Some r0" "owners r0 \<noteq> [i]"
    and r: "r = (if i \<in> set (owners r0) then RemoveOwner r0 i else r0)"
    by (auto simp: ReleaseAll_locks [OF assms] split: option.splits if_splits)
  from assms r0(1) have ok: "record_ok r0" by (rule lock_table_okD)
  with r0(2) have "owners (RemoveOwner r0 i) \<noteq> []" by (simp add: owners_RemoveOwner_Nil)
  with ok show "record_ok r" by (simp add: r record_ok_remove)
qed (use assms in \<open>auto simp: ReleaseAll_def lock_table_ok_def split: if_splits\<close>)

lemma lock_step_ok: "lock_step t t' \<Longrightarrow> lock_table_ok t \<Longrightarrow> lock_table_ok t'"
proof (induction rule: lock_step.induct)
  case (step_acquire q t res t')
  then show ?case using AcquireInternal_ok [of t q 0] by (simp add: Acquire_def)
next
  case (step_retry i t res t')
  then show ?case
    using AcquireInternal_ok [OF forget_wait_ok [of t i]] by (auto simp: Retry_def split: option.splits, metis snd_conv)
next
  case (step_release i key t res t')
  then show ?case using Release_ok [of t i key] by simp
next
  case (step_release_all i t n t')
  then show ?case using ReleaseAll_ok [of t i] by simp
next
  case (step_policy t' p t)
  then show ?case by (simp add: SetAdmissionPolicy_def lock_table_ok_def)
qed

interpretation lock_run: invariant_system lock_step lock_table_ok
  by unfold_locales (rule lock_step_ok)

lemma empty_lock_table_ok: "lock_table_ok empty_lock_table"
  by (simp add: lock_table_ok_def empty_lock_table_def)


section \<open>Lemmas: the deadlock search\<close>

text \<open>
  The wait-for graph: a waiting transaction has an edge to every owner of the resource it waits for.
\<close>

definition waits_for :: "local_transaction_lock_table \<Rightarrow> u64 \<Rightarrow> u64 \<Rightarrow> bool" where
  "waits_for t i j \<longleftrightarrow>
    (case map_of (waiting t) i of
       None \<Rightarrow> False
     | Some w \<Rightarrow> (case map_of (locks t) (resource_key (waiting_request w)) of
         None \<Rightarrow> False
       | Some r \<Rightarrow> j \<in> set (owners r)))"

lemma waits_for_iff:
  "waits_for t i j \<longleftrightarrow> (\<exists>w r. map_of (waiting t) i = Some w \<and>
    map_of (locks t) (resource_key (waiting_request w)) = Some r \<and> j \<in> set (owners r))"
  by (auto simp: waits_for_def split: option.splits)

text \<open>The resource a transaction waits for.\<close>

definition wait_key :: "local_transaction_lock_table \<Rightarrow> u64 \<Rightarrow> string" where
  "wait_key t i = resource_key (waiting_request (the (map_of (waiting t) i)))"

lemma waits_for_wait_key:
  "waits_for t i j \<Longrightarrow> map_of (waiting t) i \<noteq> None \<and>
    (\<exists>r. map_of (locks t) (wait_key t i) = Some r \<and> j \<in> set (owners r))"
  by (auto simp: waits_for_iff wait_key_def)

lemma waits_for_same_key:
  "waits_for t i i' \<Longrightarrow> waits_for t j j' \<Longrightarrow> wait_key t i = wait_key t j \<Longrightarrow> waits_for t i j'"
  by (auto simp: waits_for_iff wait_key_def)

lemma waits_for_nonzero: "lock_table_ok t \<Longrightarrow> waits_for t i j \<Longrightarrow> j \<noteq> 0"
proof -
  assume ok: "lock_table_ok t" and "waits_for t i j"
  then obtain r where "map_of (locks t) (wait_key t i) = Some r" "j \<in> set (owners r)"
    using waits_for_wait_key by blast
  then show ?thesis using lock_table_okD [OF ok] by (auto simp: record_ok_def)
qed

lemma deadlock_path_sound:
  "HasDeadlockPath (locks t) (waiting t) i target d \<Longrightarrow> (waits_for t)\<^sup>*\<^sup>* i target"
proof (induction "length (locks t) + 2 - d" arbitrary: i d rule: less_induct)
  case less
  show ?case
  proof (cases "i = target")
    case False
    with less.prems obtain w r j where e: "map_of (waiting t) i = Some w"
      "map_of (locks t) (resource_key (waiting_request w)) = Some r" "j \<in> set (owners r)"
      and j: "HasDeadlockPath (locks t) (waiting t) j target (d + 1)" and d: "\<not> length (locks t) + 1 < d"
      by (subst (asm) HasDeadlockPath.simps) (auto simp: list_ex_iff split: if_splits option.splits)
    from e have "waits_for t i j" by (auto simp: waits_for_iff)
    moreover have "(waits_for t)\<^sup>*\<^sup>* j target" using less.hyps [OF _ j] d by simp
    ultimately show ?thesis by (rule converse_rtranclp_into_rtranclp)
  qed simp
qed

lemma deadlock_path_within:
  assumes "lock_table_ok t" "target \<noteq> 0"
  shows "(waits_for t ^^ n) i target \<Longrightarrow> i \<noteq> 0 \<Longrightarrow> n + d \<le> length (locks t) + 1 \<Longrightarrow>
    HasDeadlockPath (locks t) (waiting t) i target d"
proof (induction n arbitrary: i d)
  case 0
  with assms show ?case
    by (subst HasDeadlockPath.simps) (simp add: local_id_valid_def kInvalidLocalTransactionId_def)
next
  case (Suc n)
  from relpowp_Suc_D2 [OF Suc.prems(1)] obtain j where ij: "waits_for t i j" and j: "(waits_for t ^^ n) j target" by blast
  have "HasDeadlockPath (locks t) (waiting t) j target (d + 1)"
    using Suc.IH [OF j] waits_for_nonzero [OF assms(1) ij] Suc.prems(3) by simp
  with ij assms(2) Suc.prems(2,3) show ?case
    by (subst HasDeadlockPath.simps)
      (auto simp: waits_for_iff local_id_valid_def kInvalidLocalTransactionId_def list_ex_iff)
qed

text \<open>
  A shortest path in the wait-for graph passes through different resources, so it is no longer than
  the lock table.
\<close>

lemma shortest_wait_path:
  assumes p: "(waits_for t ^^ n) i target"
    and least: "\<And>m. (waits_for t ^^ m) i target \<Longrightarrow> n \<le> m"
  shows "n \<le> length (locks t)"
proof -
  from p obtain f where f: "f 0 = i" "f n = target" and e: "\<And>k. k < n \<Longrightarrow> waits_for t (f k) (f (Suc k))"
    by (auto simp: relpowp_fun_conv)
  have path: "(waits_for t ^^ (l - k)) (f k) (f l)" if "k \<le> l" "l \<le> n" for k l
    using that e by (auto simp: relpowp_fun_conv intro!: exI [of _ "\<lambda>x. f (k + x)"])
  have "inj_on (\<lambda>k. wait_key t (f k)) {..<n}"
  proof (rule linorder_inj_onI)
    fix k l
    assume kl: "k < l" "k \<in> {..<n}" "l \<in> {..<n}"
    show "wait_key t (f k) \<noteq> wait_key t (f l)"
    proof
      assume "wait_key t (f k) = wait_key t (f l)"
      with kl e have s: "waits_for t (f k) (f (Suc l))" by (blast intro: waits_for_same_key)
      have "(waits_for t ^^ (k + (1 + (n - Suc l)))) i target"
        unfolding relpowp_add using path [of 0 k] path [of "Suc l" n] s kl f
        by (auto intro!: relcomppI)
      from least [OF this] kl show False by simp
    qed
  qed auto
  then have "n = card ((\<lambda>k. wait_key t (f k)) ` {..<n})" by (simp add: card_image)
  also have "\<dots> \<le> card (set (map fst (locks t)))"
    using waits_for_wait_key [OF e] by (intro card_mono) (force dest: map_of_SomeD)+
  also have "\<dots> \<le> length (locks t)" by (metis card_length length_map)
  finally show ?thesis .
qed

lemma deadlock_path_complete:
  assumes "lock_table_ok t" "target \<noteq> 0" "i \<noteq> 0" "(waits_for t)\<^sup>*\<^sup>* i target"
  shows "HasDeadlockPath (locks t) (waiting t) i target 0"
proof -
  from assms(4) obtain m where "(waits_for t ^^ m) i target" by (auto simp: rtranclp_power)
  then obtain n where n: "(waits_for t ^^ n) i target" "\<And>m. (waits_for t ^^ m) i target \<Longrightarrow> n \<le> m"
    using exists_least_iff [of "\<lambda>m. (waits_for t ^^ m) i target"] by (metis not_le)
  from shortest_wait_path [OF n] deadlock_path_within [OF assms(1,2) n(1) assms(3), of 0]
  show ?thesis by simp
qed


section \<open>Lemmas: the outcome of a request\<close>

text \<open>A wait that comes before a request with the given number; zero is a request not yet queued.\<close>

definition queued_before :: "string \<Rightarrow> local_transaction_id \<Rightarrow> u64 \<Rightarrow> waiting_record \<Rightarrow> bool" where
  "queued_before key i seq w \<longleftrightarrow> resource_key (waiting_request w) = key \<and>
    requester (waiting_request w) \<noteq> i \<and> (seq = 0 \<or> wait_sequence w < seq)"

lemma earlier_waiter_alt:
  "earlier_waiter key i seq w earliest =
    (if \<not> queued_before key i seq w then earliest
     else case earliest of
       None \<Rightarrow> Some w
     | Some e \<Rightarrow> if wait_sequence w < wait_sequence e then Some w else earliest)"
  by (auto simp: earlier_waiter_def queued_before_def not_less)

lemma earliest_fold_None:
  "fold (\<lambda>(_, w). earlier_waiter key i seq w) wts a = None \<longleftrightarrow>
    a = None \<and> (\<forall>x \<in> set wts. \<not> queued_before key i seq (snd x))"
proof (induction wts arbitrary: a)
  case (Cons x wts)
  then show ?case by (cases x) (auto simp: earlier_waiter_alt split: option.splits)
qed simp

lemma earliest_None:
  "EarliestPriorWaiterForResource wts key i seq = None \<longleftrightarrow> (\<forall>x \<in> set wts. \<not> queued_before key i seq (snd x))"
  by (simp add: EarliestPriorWaiterForResource_def earliest_fold_None)

lemma lock_ok_simps [simp]:
  "lock_ok (LockOk d) \<longleftrightarrow> d = LD_granted \<or> d = LD_already_owned"
  "lock_ok (LockError d c k x) = False"
  "lock_ok ((LockError d c k x)\<lparr>blocking_transaction := b\<rparr>) = False"
  "lock_ok ((LockError d c k x)\<lparr>blocking_transaction := b, wait_elapsed_millis := e\<rparr>) = False"
  "lock_ok (wait_result q b c k) = False"
  by (auto simp: lock_ok_def LockOk_def LockError_def wait_result_def LockOkStatus_def LockErrorStatus_def
      status_ok_def TransactionOkStatus_def TransactionErrorStatus_def)

lemma waits_not_ok [simp]:
  "\<not> lock_ok (fst (fairness_wait q p prior t))" "\<not> lock_ok (fst (conflict_wait q p r t))"
  "locks (snd (fairness_wait q p prior t)) = locks t" "locks (snd (conflict_wait q p r t)) = locks t"
  by (simp_all add: fairness_wait_def conflict_wait_def Let_def)

text \<open>When a request is granted, and what its record then is.\<close>

definition grantable :: "transaction_lock_request \<Rightarrow> u64 \<Rightarrow> local_transaction_lock_table \<Rightarrow> bool" where
  "grantable q seq t \<longleftrightarrow> lock_request_valid q \<and>
    (case map_of (locks t) (resource_key q) of
       None \<Rightarrow> \<not> limit_reached (max_held_locks (lock_admission_policy t)) (locks t)
     | Some r \<Rightarrow>
         if requester q \<in> set (owners r) then owners r = [requester q] \<or> request_mode q = LM_shared
         else record_mode r = LM_shared \<and> request_mode q = LM_shared \<and>
              (\<forall>x \<in> set (waiting t). \<not> queued_before (resource_key q) (requester q) seq (snd x)))"

lemma sole_owner:
  "record_ok r \<Longrightarrow> i \<in> set (owners r) \<Longrightarrow> length (owners r) = 1 \<longleftrightarrow> owners r = [i]"
  by (cases "owners r") auto

lemma compatible_owned:
  assumes "record_ok r" "requester q \<in> set (owners r)" "lock_request_valid q"
  shows "record_mode r = LM_exclusive \<or> record_mode r = request_mode q \<or>
      CompatibleWithExisting r (requester q) (request_mode q) \<longleftrightarrow>
    owners r = [requester q] \<or> request_mode q = LM_shared"
proof (cases "request_mode q")
  case LM_exclusive
  with assms show ?thesis
    by (cases "record_mode r") (auto simp: record_ok_def CompatibleWithExisting_def sole_owner length_Suc_conv)
qed (use assms in \<open>cases "record_mode r"; auto simp: record_ok_def lock_request_valid_def\<close>)+

lemma compatible_not_owned:
  assumes "record_ok r" "requester q \<notin> set (owners r)"
  shows "CompatibleWithExisting r (requester q) (request_mode q) \<longleftrightarrow>
    record_mode r = LM_shared \<and> request_mode q = LM_shared"
  using assms by (cases "owners r") (auto simp: record_ok_def CompatibleWithExisting_def)

lemma AcquireInternal_owned:
  assumes "lock_table_ok t" "lock_request_valid q" "map_of (locks t) (resource_key q) = Some r"
    "requester q \<in> set (owners r)"
  shows "AcquireInternal q seq t =
    (if owners r = [requester q] \<or> request_mode q = LM_shared
     then (LockOk LD_already_owned, grant q (upgrade_mode (request_mode q) r) t)
     else conflict_wait q seq r t)"
proof -
  have ok: "record_ok r" using assms(1,3) by (rule lock_table_okD)
  note c = compatible_owned [OF ok assms(4,2)]
  show ?thesis
  proof (cases "owners r = [requester q] \<or> request_mode q = LM_shared")
    case True
    with c assms show ?thesis by (simp add: AcquireInternal_def)
  next
    case False
    with c have "\<not> (record_mode r = LM_exclusive \<or> record_mode r = request_mode q)"
      "\<not> CompatibleWithExisting r (requester q) (request_mode q)" by auto
    with False assms show ?thesis by (simp add: AcquireInternal_def)
  qed
qed

lemma AcquireInternal_other:
  assumes "lock_table_ok t" "lock_request_valid q" "map_of (locks t) (resource_key q) = Some r"
    "requester q \<notin> set (owners r)"
  shows "AcquireInternal q seq t =
    (case EarliestPriorWaiterForResource (waiting t) (resource_key q) (requester q) seq of
       Some prior \<Rightarrow> fairness_wait q seq prior t
     | None \<Rightarrow>
         if record_mode r = LM_shared \<and> request_mode q = LM_shared
         then (LockOk LD_granted, grant q (r\<lparr>owners := owners r @ [requester q]\<rparr>) t)
         else conflict_wait q seq r t)"
proof -
  have "record_ok r" using assms(1,3) by (rule lock_table_okD)
  from compatible_not_owned [OF this assms(4)] assms show ?thesis
    by (auto simp: AcquireInternal_def AddOwner_def upgrade_mode_def split: option.splits)
qed

lemma AcquireInternal_free:
  assumes "lock_request_valid q" "map_of (locks t) (resource_key q) = None"
  shows "AcquireInternal q seq t =
    (if limit_reached (max_held_locks (lock_admission_policy t)) (locks t)
     then (LockError LD_admission_refused ''SB-SNTXN-LOCK-ADMISSION-REFUSED''
             ''transaction.lock.admission_refused'' ''max_held_locks'', t)
     else (LockOk LD_granted, grant q \<lparr>owners = [requester q], record_mode = request_mode q\<rparr> t))"
  using assms by (simp add: AcquireInternal_def)

lemma AcquireInternal_invalid:
  "\<not> lock_request_valid q \<Longrightarrow> \<not> lock_ok (fst (AcquireInternal q seq t)) \<and> snd (AcquireInternal q seq t) = t"
  by (simp add: AcquireInternal_def)

lemma acquire_ok_iff:
  assumes "lock_table_ok t"
  shows "lock_ok (fst (AcquireInternal q seq t)) \<longleftrightarrow> grantable q seq t"
proof (cases "lock_request_valid q")
  case False
  then show ?thesis by (simp add: AcquireInternal_invalid grantable_def)
next
  case True
  show ?thesis
  proof (cases "map_of (locks t) (resource_key q)")
    case None
    with True show ?thesis by (simp add: AcquireInternal_free grantable_def)
  next
    case (Some r)
    with True assms show ?thesis
      by (cases "requester q \<in> set (owners r)")
        (auto simp: AcquireInternal_owned AcquireInternal_other grantable_def earliest_None [symmetric]
          split: option.splits)
  qed
qed

lemma acquire_refused_locks:
  assumes "lock_table_ok t" "\<not> lock_ok (fst (AcquireInternal q seq t))"
  shows "locks (snd (AcquireInternal q seq t)) = locks t"
proof (cases "lock_request_valid q")
  case False
  then show ?thesis by (simp add: AcquireInternal_invalid)
next
  case True
  show ?thesis
  proof (cases "map_of (locks t) (resource_key q)")
    case None
    with True assms show ?thesis by (auto simp: AcquireInternal_free split: if_splits)
  next
    case (Some r)
    with True assms show ?thesis
      by (cases "requester q \<in> set (owners r)")
        (auto simp: AcquireInternal_owned AcquireInternal_other split: option.splits if_splits)
  qed
qed

text \<open>A grant stores a record the requester owns, alone when it asked for exclusive access.\<close>

definition granted_to :: "transaction_lock_request \<Rightarrow> local_transaction_lock_table \<Rightarrow> bool" where
  "granted_to q t \<longleftrightarrow> map_of (waiting t) (requester q) = None \<and>
    (case map_of (locks t) (resource_key q) of
       None \<Rightarrow> False
     | Some r \<Rightarrow> requester q \<in> set (owners r) \<and>
         (request_mode q = LM_exclusive \<longrightarrow> owners r = [requester q] \<and> record_mode r = LM_exclusive))"

lemma granted_to_grant:
  "requester q \<in> set (owners r) \<Longrightarrow>
   (request_mode q = LM_exclusive \<Longrightarrow> owners r = [requester q] \<and> record_mode r = LM_exclusive) \<Longrightarrow>
   granted_to q (grant q r t)"
  by (simp add: granted_to_def grant_def)

lemma acquire_granted:
  assumes "lock_table_ok t" "lock_ok (fst (AcquireInternal q seq t))"
  shows "granted_to q (snd (AcquireInternal q seq t))"
proof -
  from assms have g: "grantable q seq t" by (simp add: acquire_ok_iff)
  then have v: "lock_request_valid q" by (simp add: grantable_def)
  show ?thesis
  proof (cases "map_of (locks t) (resource_key q)")
    case None
    with v g show ?thesis by (auto simp: AcquireInternal_free grantable_def intro!: granted_to_grant)
  next
    case (Some r)
    with v g assms show ?thesis
      by (cases "requester q \<in> set (owners r)")
        (auto simp: AcquireInternal_owned AcquireInternal_other upgrade_mode_def split: option.splits if_splits
          intro!: granted_to_grant)
  qed
qed





section \<open>Sample data\<close>

definition sample_wait_policy :: transaction_wait_policy where
  "sample_wait_policy = \<lparr>timeout_millis = 1000, no_wait = False, wait_start_unix_epoch_millis = 0,
     now_unix_epoch_millis = 0\<rparr>"

definition sample_lock_request :: "u64 \<Rightarrow> string \<Rightarrow> transaction_lock_mode \<Rightarrow> transaction_lock_request" where
  "sample_lock_request i key mode = \<lparr>requester = i, resource_key = key, request_mode = mode,
     wait_policy = sample_wait_policy, transaction_active = True\<rparr>"

text \<open>The table after a sequence of calls of \<^verbatim>\<open>Acquire\<close>.\<close>

definition acquire_all :: "transaction_lock_request list \<Rightarrow> local_transaction_lock_table" where
  "acquire_all qs = fold (\<lambda>q t. snd (Acquire q t)) qs empty_lock_table"

lemma acquire_all_run: "lock_step\<^sup>*\<^sup>* empty_lock_table (acquire_all qs)"
proof (induction qs rule: rev_induct)
  case Nil
  then show ?case by (simp add: acquire_all_def)
next
  case (snoc q qs)
  have "lock_step (acquire_all qs) (acquire_all (qs @ [q]))"
    by (rule step_acquire [of q _ "fst (Acquire q (acquire_all qs))"]) (simp add: acquire_all_def)
  with snoc show ?case by (rule rtranclp.rtrancl_into_rtrancl)
qed

lemma acquire_all_ok: "lock_table_ok (acquire_all qs)"
  using lock_run.run_keeps [OF acquire_all_run empty_lock_table_ok] .

section \<open>Properties\<close>

text \<open>
  C26. In every lock table that runs of the public methods produce, a resource with a record has an
  owner, its owners are valid and different transactions, and a resource held in exclusive mode has
  exactly one owner: two transactions share a resource only in shared mode.
\<close>

theorem lock_table_exclusion:
  assumes "lock_step\<^sup>*\<^sup>* empty_lock_table t" "map_of (locks t) key = Some r"
  shows "owners r \<noteq> [] \<and> distinct (owners r) \<and> 0 \<notin> set (owners r) \<and>
    (record_mode r = LM_shared \<or> record_mode r = LM_exclusive \<and> length (owners r) = 1)"
proof -
  have "lock_table_ok t" using lock_run.run_keeps [OF assms(1) empty_lock_table_ok] .
  from lock_table_okD(3) [OF this assms(2)] show ?thesis
    by (cases "record_mode r") (auto simp: record_ok_def)
qed

theorem lock_table_exclusion_witness:
  "\<exists>t r. lock_step\<^sup>*\<^sup>* empty_lock_table t \<and> map_of (locks t) ''row'' = Some r \<and> set (owners r) = {1, 2} \<and>
     record_mode r = LM_shared \<and> distinct (owners r) \<and> 0 \<notin> set (owners r)"
proof -
  let ?t = "acquire_all [sample_lock_request 1 ''row'' LM_shared, sample_lock_request 2 ''row'' LM_shared]"
  have "case map_of (locks ?t) ''row'' of Some r \<Rightarrow> set (owners r) = {1, 2} | None \<Rightarrow> False" by code_simp
  then obtain r where r: "map_of (locks ?t) ''row'' = Some r" "set (owners r) = {1, 2}"
    by (auto split: option.splits)
  have "length (owners r) \<noteq> 1" using r(2) by (cases "owners r") auto
  then show ?thesis
    using lock_table_exclusion [OF acquire_all_run r(1)] r acquire_all_run by blast
qed

text \<open>
  What a request gets, in any table that satisfies the invariant. It is granted exactly when it
  is valid and either the resource is free and the limit of held locks is not reached, or the
  requester already owns it and is its only owner or asks for shared access, or the resource is held
  in shared mode, shared access is asked for, and no other transaction queued earlier for it. A
  granted request leaves the requester an owner, the only owner when it asked for exclusive access,
  and no longer waiting. A request that is not granted changes no lock.
\<close>

lemma acquire_outcome:
  assumes "lock_table_ok t" "AcquireInternal q seq t = (res, t')"
  shows "(lock_ok res \<longleftrightarrow> grantable q seq t) \<and>
    (lock_ok res \<longrightarrow> granted_to q t') \<and> (\<not> lock_ok res \<longrightarrow> locks t' = locks t)"
  using acquire_ok_iff [OF assms(1), of q seq] acquire_granted [OF assms(1), of q seq]
    acquire_refused_locks [OF assms(1), of q seq] assms(2) by simp

text \<open>
  C27. The deadlock search is exact. Its recursion is cut off at a depth of one more than the number
  of locks; in any table that satisfies the invariant it still finds the target from a transaction
  exactly when the target is reachable in the wait-for graph.
\<close>

theorem deadlock_search_is_reachability:
  assumes "lock_table_ok t" "i \<noteq> 0" "target \<noteq> 0"
  shows "HasDeadlockPath (locks t) (waiting t) i target 0 \<longleftrightarrow> (waits_for t)\<^sup>*\<^sup>* i target"
  using deadlock_path_sound deadlock_path_complete [OF assms(1,3,2)] by blast

theorem deadlock_search_is_reachability_witness:
  "(waits_for (acquire_all [sample_lock_request 1 ''a'' LM_exclusive, sample_lock_request 2 ''b'' LM_exclusive,
      sample_lock_request 3 ''b'' LM_exclusive, sample_lock_request 2 ''a'' LM_exclusive]))\<^sup>*\<^sup>* 3 1"
  by (rule deadlock_search_is_reachability [OF acquire_all_ok, THEN iffD1]) code_simp+



end
