(* ===== verification/Savepoint.thy ===== *)
theory Savepoint
  imports TransactionInventory "HOL-Library.Multiset"
begin

text \<open>
  Savepoints: \<^verbatim>\<open>transaction/mga/savepoint.{hpp,cpp}\<close>. The stack keeps the markers of all transactions
  in creation order and the recorded mutations in recording order. The physical undo executor is an
  abstract class of the source; it is a parameter, with a state of its own that every call of
  \<^verbatim>\<open>ApplyUndo\<close> may change. Metrics are left out.
\<close>

section \<open>Data\<close>

record savepoint_record =
  sp_local_id :: local_transaction_id
  sp_name :: string
  sp_ordinal :: u64
  sp_mutation_sequence :: u64

datatype savepoint_mutation_kind =
    SMK_data_page | SMK_catalog | SMK_index | SMK_overflow | SMK_metrics | SMK_unknown

datatype savepoint_rollback_decision =
    SRD_rollback_actions_ready | SRD_refused_missing_undo | SRD_refused_executor_missing
  | SRD_refused_executor_unavailable | SRD_refused_executor_failed | SRD_savepoint_not_found
  | SRD_invalid_request

record savepoint_mutation_record =
  mut_local_id :: local_transaction_id
  mut_sequence :: u64
  mut_kind :: savepoint_mutation_kind
  mut_stable_operation_id :: string
  mut_durable_evidence_written :: bool
  mut_undo_evidence_available :: bool
  mut_rolled_back :: bool

record savepoint_undo_result =
  undo_status :: status
  undo_mutation :: savepoint_mutation_record
  undo_applied :: bool
  undo_already_applied :: bool
  undo_executor_id :: string
  undo_durable_evidence_id :: string
  undo_diagnostic :: diagnostic_record

text \<open>\<^verbatim>\<open>SavepointUndoResult::ok()\<close>.\<close>

definition undo_ok :: "savepoint_undo_result \<Rightarrow> bool" where
  "undo_ok u \<longleftrightarrow> status_ok (undo_status u) \<and> (undo_applied u \<or> undo_already_applied u)"

text \<open>
  A rollback plan on success: the marker and the actions; \<^verbatim>\<open>affected_mutation_count\<close> is the number of
  actions. On failure the plan has the decision and the diagnostic.
\<close>

type_synonym rollback_plan = "(savepoint_rollback_decision \<times> diagnostic_record) +
  (savepoint_record \<times> savepoint_mutation_record list)"

record savepoint_rollback_execution_result =
  exec_status :: status
  exec_decision :: savepoint_rollback_decision
  exec_savepoint :: "savepoint_record option"
  exec_undo_results :: "savepoint_undo_result list"
  exec_affected_mutation_count :: u64
  exec_diagnostic :: "diagnostic_record option"

definition exec_ok :: "savepoint_rollback_execution_result \<Rightarrow> bool" where
  "exec_ok r \<longleftrightarrow> status_ok (exec_status r) \<and> exec_decision r = SRD_rollback_actions_ready"

record 's savepoint_physical_undo_executor =
  Supports :: "savepoint_mutation_kind \<Rightarrow> bool"
  ApplyUndo :: "savepoint_mutation_record \<Rightarrow> 's \<Rightarrow> savepoint_undo_result \<times> 's"

record savepoint_stack =
  savepoints :: "savepoint_record list"
  mutations :: "savepoint_mutation_record list"
  next_ordinal :: u64

definition empty_savepoint_stack :: savepoint_stack where
  "empty_savepoint_stack = \<lparr>savepoints = [], mutations = [], next_ordinal = 1\<rparr>"

section \<open>Names and diagnostics\<close>

fun SavepointMutationKindName :: "savepoint_mutation_kind \<Rightarrow> string" where
  "SavepointMutationKindName SMK_data_page = ''data_page''"
| "SavepointMutationKindName SMK_catalog = ''catalog''"
| "SavepointMutationKindName SMK_index = ''index''"
| "SavepointMutationKindName SMK_overflow = ''overflow''"
| "SavepointMutationKindName SMK_metrics = ''metrics''"
| "SavepointMutationKindName SMK_unknown = ''unknown''"

fun SavepointRollbackDecisionName :: "savepoint_rollback_decision \<Rightarrow> string" where
  "SavepointRollbackDecisionName SRD_rollback_actions_ready = ''rollback_actions_ready''"
| "SavepointRollbackDecisionName SRD_refused_missing_undo = ''rollback_refused_missing_undo''"
| "SavepointRollbackDecisionName SRD_refused_executor_missing = ''rollback_refused_executor_missing''"
| "SavepointRollbackDecisionName SRD_refused_executor_unavailable = ''rollback_refused_executor_unavailable''"
| "SavepointRollbackDecisionName SRD_refused_executor_failed = ''rollback_refused_executor_failed''"
| "SavepointRollbackDecisionName SRD_savepoint_not_found = ''savepoint_not_found''"
| "SavepointRollbackDecisionName SRD_invalid_request = ''invalid_request''"

definition SavepointErrorStatus :: status where
  "SavepointErrorStatus = TransactionErrorStatus"

definition MakeSavepointDiagnostic :: "status \<Rightarrow> string \<Rightarrow> string \<Rightarrow> string \<Rightarrow> diagnostic_record" where
  "MakeSavepointDiagnostic = component_diagnostic ''transaction.mga.savepoint''"

definition SavepointError :: "string \<Rightarrow> string \<Rightarrow> string \<Rightarrow> diagnostic_record" where
  "SavepointError code key detail = MakeSavepointDiagnostic SavepointErrorStatus code key detail"

definition SavepointRollbackError ::
  "savepoint_rollback_decision \<Rightarrow> string \<Rightarrow> string \<Rightarrow> string \<Rightarrow> rollback_plan" where
  "SavepointRollbackError d code key detail = Inl (d, MakeSavepointDiagnostic SavepointErrorStatus code key detail)"

definition SavepointExecutionError ::
  "savepoint_rollback_decision \<Rightarrow> string \<Rightarrow> string \<Rightarrow> string \<Rightarrow> savepoint_rollback_execution_result" where
  "SavepointExecutionError d code key detail =
    \<lparr>exec_status = SavepointErrorStatus, exec_decision = d, exec_savepoint = None, exec_undo_results = [],
     exec_affected_mutation_count = 0,
     exec_diagnostic = Some (MakeSavepointDiagnostic SavepointErrorStatus code key detail)\<rparr>"

section \<open>Markers\<close>

definition is_marker :: "local_transaction_id \<Rightarrow> string \<Rightarrow> savepoint_record \<Rightarrow> bool" where
  "is_marker i name s \<longleftrightarrow> sp_local_id s = i \<and> sp_name s = name"

text \<open>The search from the end of the vector.\<close>

definition FindSavepoint :: "savepoint_record list \<Rightarrow> local_transaction_id \<Rightarrow> string \<Rightarrow> savepoint_record option" where
  "FindSavepoint sps i name = find (is_marker i name) (rev sps)"

definition Create ::
  "local_transaction_id \<Rightarrow> string \<Rightarrow> u64 \<Rightarrow> savepoint_stack \<Rightarrow> savepoint_record result \<times> savepoint_stack" where
  "Create i name seq s =
    (if \<not> local_id_valid i \<or> name = [] then
       (Inl (SavepointError ''SB-SNTXN-SAVEPOINT-UNSUPPORTED'' ''transaction.savepoint.invalid_request'' ''''), s)
     else
       let kept = filter (\<lambda>x. \<not> is_marker i name x) (savepoints s);
           rec = \<lparr>sp_local_id = i, sp_name = name, sp_ordinal = next_ordinal s, sp_mutation_sequence = seq\<rparr>
       in (Inr rec, s\<lparr>savepoints := kept @ [rec], next_ordinal := next_ordinal s + 1\<rparr>))"

text \<open>\<^verbatim>\<open>erase(it, end)\<close> at the first marker with the name.\<close>

definition Release_savepoint ::
  "local_transaction_id \<Rightarrow> string \<Rightarrow> savepoint_stack \<Rightarrow> savepoint_record result \<times> savepoint_stack" where
  "Release_savepoint i name s =
    (case dropWhile (\<lambda>x. \<not> is_marker i name x) (savepoints s) of
       [] \<Rightarrow> (Inl (SavepointError ''SB-SNTXN-SAVEPOINT-UNSUPPORTED'' ''transaction.savepoint.not_found'' name), s)
     | rec # _ \<Rightarrow>
         (Inr rec, s\<lparr>savepoints := takeWhile (\<lambda>x. \<not> is_marker i name x) (savepoints s)\<rparr>))"

definition RollbackTo ::
  "local_transaction_id \<Rightarrow> string \<Rightarrow> savepoint_stack \<Rightarrow> savepoint_record result \<times> savepoint_stack" where
  "RollbackTo i name s =
    (case dropWhile (\<lambda>x. \<not> is_marker i name x) (savepoints s) of
       [] \<Rightarrow> (Inl (SavepointError ''SB-SNTXN-SAVEPOINT-UNSUPPORTED'' ''transaction.savepoint.not_found'' name), s)
     | rec # _ \<Rightarrow>
         (Inr rec, s\<lparr>savepoints := takeWhile (\<lambda>x. \<not> is_marker i name x) (savepoints s) @ [rec]\<rparr>))"

section \<open>Mutations and rollback\<close>

definition RecordMutation ::
  "savepoint_mutation_record \<Rightarrow> savepoint_stack \<Rightarrow> savepoint_mutation_record result \<times> savepoint_stack" where
  "RecordMutation m s =
    (if \<not> local_id_valid (mut_local_id m) \<or> mut_sequence m = 0 \<or> mut_kind m = SMK_unknown \<or>
        mut_stable_operation_id m = [] \<or> \<not> mut_durable_evidence_written m then
       (Inl (SavepointError ''SB-SNTXN-SAVEPOINT-MUTATION-INVALID'' ''transaction.savepoint.mutation_invalid''
          (mut_stable_operation_id m)), s)
     else (Inr m, s\<lparr>mutations := mutations s @ [m]\<rparr>))"

text \<open>The mutations a rollback to a marker has to undo.\<close>

definition to_undo :: "local_transaction_id \<Rightarrow> u64 \<Rightarrow> savepoint_mutation_record \<Rightarrow> bool" where
  "to_undo i seq m \<longleftrightarrow> mut_local_id m = i \<and> seq < mut_sequence m \<and> \<not> mut_rolled_back m"

text \<open>
  \<^verbatim>\<open>std::sort\<close> by falling sequence number. The standard leaves the order of equal keys open; the model
  keeps their recording order.
\<close>

definition sort_by_sequence_desc :: "savepoint_mutation_record list \<Rightarrow> savepoint_mutation_record list" where
  "sort_by_sequence_desc ms = sort_key (\<lambda>m. u64_max - mut_sequence m) ms"

definition PlanRollbackTo :: "local_transaction_id \<Rightarrow> string \<Rightarrow> savepoint_stack \<Rightarrow> rollback_plan" where
  "PlanRollbackTo i name s =
    (if \<not> local_id_valid i \<or> name = [] then
       SavepointRollbackError SRD_invalid_request ''SB-SNTXN-SAVEPOINT-ROLLBACK-INVALID''
         ''transaction.savepoint.rollback_invalid'' ''''
     else case FindSavepoint (savepoints s) i name of
       None \<Rightarrow> SavepointRollbackError SRD_savepoint_not_found ''SB-SNTXN-SAVEPOINT-NOT-FOUND''
                 ''transaction.savepoint.not_found'' name
     | Some marker \<Rightarrow>
         let affected = filter (to_undo i (sp_mutation_sequence marker)) (mutations s) in
         (case find (\<lambda>m. \<not> mut_undo_evidence_available m) affected of
            Some m \<Rightarrow> SavepointRollbackError SRD_refused_missing_undo ''SB-SNTXN-SAVEPOINT-ROLLBACK-MISSING-UNDO''
                        ''transaction.savepoint.rollback_missing_undo'' (mut_stable_operation_id m)
          | None \<Rightarrow> Inr (marker, sort_by_sequence_desc affected)))"

text \<open>The body of the loop over the mutations in \<^verbatim>\<open>MarkRollbackApplied\<close>.\<close>

definition mark_rolled_back ::
  "local_transaction_id \<Rightarrow> u64 \<Rightarrow> savepoint_mutation_record \<Rightarrow> savepoint_mutation_record" where
  "mark_rolled_back i seq m =
    (if mut_local_id m = i \<and> seq < mut_sequence m then m\<lparr>mut_rolled_back := True\<rparr> else m)"

definition MarkRollbackApplied :: "local_transaction_id \<Rightarrow> u64 \<Rightarrow> savepoint_stack \<Rightarrow> savepoint_stack" where
  "MarkRollbackApplied i seq s =
    s\<lparr>mutations := map (mark_rolled_back i seq) (mutations s),
      savepoints := filter (\<lambda>x. \<not> (sp_local_id x = i \<and> seq < sp_mutation_sequence x)) (savepoints s)\<rparr>"

definition ApplyRollbackTo ::
  "local_transaction_id \<Rightarrow> string \<Rightarrow> savepoint_stack \<Rightarrow> rollback_plan \<times> savepoint_stack" where
  "ApplyRollbackTo i name s =
    (case PlanRollbackTo i name s of
       Inl e \<Rightarrow> (Inl e, s)
     | Inr (marker, actions) \<Rightarrow>
         if actions \<noteq> [] then
           (SavepointRollbackError SRD_refused_executor_missing ''SB-SNTXN-SAVEPOINT-UNDO-EXECUTOR-MISSING''
              ''transaction.savepoint.undo_executor_missing'' (sp_name marker), s)
         else (Inr (marker, actions), MarkRollbackApplied i (sp_mutation_sequence marker) s))"

text \<open>
  The loop over the actions: the results so far, the outcome (\<open>None\<close> when every action was undone,
  otherwise the decision, the status and the diagnostic it stops with) and the executor's state.
\<close>

fun run_undo ::
  "'s savepoint_physical_undo_executor \<Rightarrow> savepoint_mutation_record list \<Rightarrow> savepoint_undo_result list \<Rightarrow> 's \<Rightarrow>
   savepoint_undo_result list \<times> (savepoint_rollback_decision \<times> status \<times> diagnostic_record) option \<times> 's" where
  "run_undo ex [] done st = (done, None, st)"
| "run_undo ex (m # ms) done st =
    (if \<not> Supports ex (mut_kind m) then
       (done, Some (SRD_refused_executor_unavailable, SavepointErrorStatus,
          MakeSavepointDiagnostic SavepointErrorStatus ''SB-SNTXN-SAVEPOINT-UNDO-EXECUTOR-UNAVAILABLE''
            ''transaction.savepoint.undo_executor_unavailable''
            (SavepointMutationKindName (mut_kind m) @ '':'' @ mut_stable_operation_id m)), st)
     else
       let (u, st') = ApplyUndo ex m st; done' = done @ [u] in
       if \<not> undo_ok u then
         let status = (if status_ok (undo_status u) then SavepointErrorStatus else undo_status u) in
         (done', Some (SRD_refused_executor_failed, status,
            if diagnostic_code (undo_diagnostic u) = [] then
              MakeSavepointDiagnostic status ''SB-SNTXN-SAVEPOINT-UNDO-EXECUTOR-FAILED''
                ''transaction.savepoint.undo_executor_failed'' (mut_stable_operation_id m)
            else undo_diagnostic u), st')
       else run_undo ex ms done' st')"

text \<open>The executor is a pointer that may be null.\<close>

definition ExecuteRollbackTo ::
  "local_transaction_id \<Rightarrow> string \<Rightarrow> 's savepoint_physical_undo_executor option \<Rightarrow> 's \<Rightarrow> savepoint_stack \<Rightarrow>
   savepoint_rollback_execution_result \<times> savepoint_stack \<times> 's" where
  "ExecuteRollbackTo i name executor st s =
    (case PlanRollbackTo i name s of
       Inl (d, diag) \<Rightarrow>
         (\<lparr>exec_status = SavepointErrorStatus, exec_decision = d, exec_savepoint = None, exec_undo_results = [],
           exec_affected_mutation_count = 0, exec_diagnostic = Some diag\<rparr>, s, st)
     | Inr (marker, actions) \<Rightarrow>
         (case executor of
            None \<Rightarrow>
              ((SavepointExecutionError SRD_refused_executor_missing ''SB-SNTXN-SAVEPOINT-UNDO-EXECUTOR-MISSING''
                  ''transaction.savepoint.undo_executor_missing'' (sp_name marker))
                 \<lparr>exec_savepoint := Some marker\<rparr>, s, st)
          | Some ex \<Rightarrow>
              let (done, failure, st') = run_undo ex actions [] st;
                  result = \<lparr>exec_status = TransactionOkStatus, exec_decision = SRD_rollback_actions_ready,
                            exec_savepoint = Some marker, exec_undo_results = done,
                            exec_affected_mutation_count = of_nat (length actions), exec_diagnostic = None\<rparr> in
              (case failure of
                 Some (d, status, diag) \<Rightarrow>
                   (result\<lparr>exec_status := status, exec_decision := d, exec_diagnostic := Some diag\<rparr>, s, st')
               | None \<Rightarrow> (result, MarkRollbackApplied i (sp_mutation_sequence marker) s, st'))))"

definition size_savepoints :: "savepoint_stack \<Rightarrow> u64" where
  "size_savepoints s = of_nat (length (savepoints s))"

definition mutation_count :: "savepoint_stack \<Rightarrow> u64" where
  "mutation_count s = of_nat (length (mutations s))"


section \<open>Lemmas\<close>

lemma find_filter: "find p xs = Some x \<Longrightarrow> q x \<Longrightarrow> find p (filter q xs) = Some x"
  by (induction xs) (auto split: if_splits)

lemma u64_complement_le: "u64_max - x \<le> u64_max - y \<longleftrightarrow> y \<le> x"
proof -
  have "unat (u64_max - z) = unat u64_max - unat z" for z
    by (rule unat_sub) simp
  moreover have "unat z \<le> unat u64_max" for z :: u64
    using u64_le_max [of z] by (simp add: word_le_nat_alt)
  ultimately show ?thesis by (simp add: word_le_nat_alt le_diff_iff')
qed

lemma sort_by_sequence_desc_props:
  "mset (sort_by_sequence_desc ms) = mset ms"
  "sorted_wrt (\<lambda>a b. mut_sequence b \<le> mut_sequence a) (sort_by_sequence_desc ms)"
proof -
  show "mset (sort_by_sequence_desc ms) = mset ms" by (simp add: sort_by_sequence_desc_def)
  have "sorted (map (\<lambda>m. u64_max - mut_sequence m) (sort_by_sequence_desc ms))"
    by (simp add: sort_by_sequence_desc_def)
  then show "sorted_wrt (\<lambda>a b. mut_sequence b \<le> mut_sequence a) (sort_by_sequence_desc ms)"
    by (simp add: sorted_wrt_map u64_complement_le)
qed

lemma SavepointRollbackError_not_Inr [simp]: "SavepointRollbackError d c k x \<noteq> Inr y"
  by (simp add: SavepointRollbackError_def)

lemma PlanRollbackTo_Inr:
  "PlanRollbackTo i name s = Inr (marker, actions) \<longleftrightarrow>
    local_id_valid i \<and> name \<noteq> [] \<and> FindSavepoint (savepoints s) i name = Some marker \<and>
    (\<forall>m \<in> set (mutations s). to_undo i (sp_mutation_sequence marker) m \<longrightarrow> mut_undo_evidence_available m) \<and>
    actions = sort_by_sequence_desc (filter (to_undo i (sp_mutation_sequence marker)) (mutations s))"
  by (auto simp: PlanRollbackTo_def Let_def find_None_all dest: find_Some_mem split: option.splits)

text \<open>The sequence of undo calls a complete run makes.\<close>

fun undo_all ::
  "'s savepoint_physical_undo_executor \<Rightarrow> savepoint_mutation_record list \<Rightarrow> 's \<Rightarrow> savepoint_undo_result list \<times> 's" where
  "undo_all ex [] st = ([], st)"
| "undo_all ex (m # ms) st =
    (let (u, st1) = ApplyUndo ex m st; (us, st2) = undo_all ex ms st1 in (u # us, st2))"

lemma run_undo_complete:
  "run_undo ex ms done st = (done', None, st') \<longleftrightarrow>
    list_all (\<lambda>m. Supports ex (mut_kind m)) ms \<and>
    (\<exists>us. undo_all ex ms st = (us, st') \<and> list_all undo_ok us \<and> done' = done @ us)"
  by (induction ex ms "done" st rule: run_undo.induct) (auto simp: Let_def split: prod.splits)

lemma run_undo_failure:
  "run_undo ex ms done st = (done', Some (d, status, diag), st') \<Longrightarrow> d \<noteq> SRD_rollback_actions_ready"
  by (induction ex ms "done" st rule: run_undo.induct) (auto simp: Let_def split: prod.splits if_splits)

lemma mark_rolled_back_done: "\<not> to_undo i seq (mark_rolled_back i seq m)"
  by (cases "mut_local_id m = i \<and> seq < mut_sequence m") (auto simp: to_undo_def mark_rolled_back_def)

lemma MarkRollbackApplied_mutations:
  "m \<in> set (mutations (MarkRollbackApplied i seq s)) \<Longrightarrow> \<not> to_undo i seq m"
  by (auto simp: MarkRollbackApplied_def mark_rolled_back_done)

lemma MarkRollbackApplied_others:
  "filter (\<lambda>m. \<not> (mut_local_id m = i \<and> seq < mut_sequence m)) (mutations (MarkRollbackApplied i seq s)) =
   filter (\<lambda>m. \<not> (mut_local_id m = i \<and> seq < mut_sequence m)) (mutations s)"
proof -
  have "filter (\<lambda>m. \<not> (mut_local_id m = i \<and> seq < mut_sequence m)) (map (mark_rolled_back i seq) ms) =
     filter (\<lambda>m. \<not> (mut_local_id m = i \<and> seq < mut_sequence m)) ms" for ms
    by (induction ms) (auto simp: mark_rolled_back_def)
  then show ?thesis by (simp add: MarkRollbackApplied_def)
qed

lemma plan_after_rollback:
  assumes "PlanRollbackTo i name s = Inr (marker, actions)"
  shows "PlanRollbackTo i name (MarkRollbackApplied i (sp_mutation_sequence marker) s) = Inr (marker, [])"
proof -
  let ?s = "MarkRollbackApplied i (sp_mutation_sequence marker) s"
  from assms have a: "local_id_valid i" "name \<noteq> []" "FindSavepoint (savepoints s) i name = Some marker"
    by (simp_all add: PlanRollbackTo_Inr)
  have "FindSavepoint (savepoints ?s) i name = Some marker"
    using a(3) by (simp add: FindSavepoint_def MarkRollbackApplied_def rev_filter find_filter)
  moreover have "filter (to_undo i (sp_mutation_sequence marker)) (mutations ?s) = []"
    using MarkRollbackApplied_mutations by (auto simp: filter_empty_conv)
  ultimately show ?thesis using a
    by (auto simp: PlanRollbackTo_Inr sort_by_sequence_desc_def filter_empty_conv)
qed

lemma plan_error_not_ready: "PlanRollbackTo i name s = Inl (d, diag) \<Longrightarrow> d \<noteq> SRD_rollback_actions_ready"
  by (auto simp: PlanRollbackTo_def SavepointRollbackError_def Let_def split: if_splits option.splits)

lemma ExecuteRollbackTo_outcome:
  assumes "ExecuteRollbackTo i name executor st s = (r, s', st')"
  shows "if exec_ok r then
      \<exists>marker actions ex. PlanRollbackTo i name s = Inr (marker, actions) \<and> executor = Some ex \<and>
        undo_all ex actions st = (exec_undo_results r, st') \<and> list_all undo_ok (exec_undo_results r) \<and>
        s' = MarkRollbackApplied i (sp_mutation_sequence marker) s
    else s' = s"
proof (cases "PlanRollbackTo i name s")
  case (Inl e)
  then show ?thesis
    using assms plan_error_not_ready by (cases e) (auto simp: ExecuteRollbackTo_def exec_ok_def)
next
  case (Inr p)
  obtain marker actions where p: "p = (marker, actions)" by (cases p)
  show ?thesis
  proof (cases executor)
    case None
    with Inr p assms show ?thesis
      by (auto simp: ExecuteRollbackTo_def exec_ok_def SavepointExecutionError_def)
  next
    case (Some ex)
    obtain us f st1 where run: "run_undo ex actions [] st = (us, f, st1)" by (metis prod_cases3)
    show ?thesis
    proof (cases f)
      case None
      with run have "undo_all ex actions st = (us, st1)" "list_all undo_ok us"
        by (auto simp: run_undo_complete)
      with None run Some Inr p assms show ?thesis
        by (auto simp: ExecuteRollbackTo_def exec_ok_def TransactionOkStatus_def status_ok_def)
    next
      case (Some x)
      obtain d status diag where x: "x = (d, status, diag)" by (cases x)
      have "d \<noteq> SRD_rollback_actions_ready" using run_undo_failure run Some x by metis
      with \<open>executor = Some ex\<close> Some x run Inr p assms show ?thesis
        by (auto simp: ExecuteRollbackTo_def exec_ok_def)
    qed
  qed
qed


section \<open>Sample data\<close>

definition sample_mutation :: "u64 \<Rightarrow> u64 \<Rightarrow> string \<Rightarrow> savepoint_mutation_record" where
  "sample_mutation i seq op =
    \<lparr>mut_local_id = i, mut_sequence = seq, mut_kind = SMK_data_page, mut_stable_operation_id = op,
     mut_durable_evidence_written = True, mut_undo_evidence_available = True, mut_rolled_back = False\<rparr>"

definition sample_stack :: savepoint_stack where
  "sample_stack =
    snd (RecordMutation (sample_mutation 1 4 ''d'') (snd (RecordMutation (sample_mutation 2 3 ''c'')
      (snd (RecordMutation (sample_mutation 1 2 ''b'') (snd (Create 1 ''sp'' 1
        (snd (RecordMutation (sample_mutation 1 1 ''a'') empty_savepoint_stack)))))))))"

text \<open>An executor that supports every kind and keeps the identifiers of what it undid.\<close>

definition sample_executor :: "string list savepoint_physical_undo_executor" where
  "sample_executor =
    \<lparr>Supports = (\<lambda>_. True),
     ApplyUndo = (\<lambda>m st.
       (\<lparr>undo_status = TransactionOkStatus, undo_mutation = m, undo_applied = True, undo_already_applied = False,
         undo_executor_id = ''sample'', undo_durable_evidence_id = mut_stable_operation_id m,
         undo_diagnostic = MakeSavepointDiagnostic TransactionOkStatus [] [] []\<rparr>,
        st @ [mut_stable_operation_id m]))\<rparr>"

section \<open>Properties\<close>

text \<open>
  C31. What a rollback plan contains. The marker is the most recent one with the name; the actions are
  exactly the mutations of the transaction that are younger than the marker and not yet rolled back,
  each as often as it was recorded and in falling order of the mutation sequence; each has its undo
  evidence. A plan is refused when an evidence is missing.
\<close>

theorem rollback_plan_is_exact:
  assumes "PlanRollbackTo i name s = Inr (marker, actions)"
  shows "FindSavepoint (savepoints s) i name = Some marker \<and>
    mset actions = mset (filter (\<lambda>m. mut_local_id m = i \<and> sp_mutation_sequence marker < mut_sequence m \<and>
                                      \<not> mut_rolled_back m) (mutations s)) \<and>
    sorted_wrt (\<lambda>a b. mut_sequence b \<le> mut_sequence a) actions \<and>
    list_all mut_undo_evidence_available actions"
proof -
  let ?u = "to_undo i (sp_mutation_sequence marker)"
  from assms have f: "FindSavepoint (savepoints s) i name = Some marker"
    and e: "\<forall>m \<in> set (mutations s). ?u m \<longrightarrow> mut_undo_evidence_available m"
    and a: "actions = sort_by_sequence_desc (filter ?u (mutations s))"
    by (simp_all add: PlanRollbackTo_Inr)
  have m: "mset actions = mset (filter ?u (mutations s))"
    unfolding a by (rule sort_by_sequence_desc_props)
  then have "set actions = set (filter ?u (mutations s))" by (metis set_mset_mset)
  with e have "list_all mut_undo_evidence_available actions" by (auto simp: list_all_iff)
  with f m a sort_by_sequence_desc_props(2) show ?thesis by (simp add: to_undo_def)
qed

theorem rollback_plan_is_exact_witness:
  "\<exists>marker actions. PlanRollbackTo 1 ''sp'' sample_stack = Inr (marker, actions) \<and>
     map mut_sequence actions = [4, 2] \<and> list_all mut_undo_evidence_available actions"
proof -
  have "map_sum (\<lambda>_. ()) (map mut_sequence \<circ> snd) (PlanRollbackTo 1 ''sp'' sample_stack) = Inr [4, 2]" by code_simp
  then obtain marker actions where h: "PlanRollbackTo 1 ''sp'' sample_stack = Inr (marker, actions)"
    "map mut_sequence actions = [4, 2]" by (cases "PlanRollbackTo 1 ''sp'' sample_stack") auto
  with rollback_plan_is_exact [OF h(1)] show ?thesis by (intro exI [of _ marker] exI [of _ actions]) simp
qed

text \<open>
  C32. Executing a rollback, for any executor. When it succeeds, the executor undid exactly the planned
  actions in their order, every call succeeding; all younger mutations of the transaction are marked
  rolled back, every other mutation is untouched, and planning the same rollback again gives nothing
  to undo. When it does not succeed the stack is unchanged.
\<close>

theorem rollback_execution:
  assumes "ExecuteRollbackTo i name (Some ex) st s = (r, s', st')"
  shows "(exec_ok r \<longrightarrow> (\<exists>marker actions. PlanRollbackTo i name s = Inr (marker, actions) \<and>
      undo_all ex actions st = (exec_undo_results r, st') \<and> list_all undo_ok (exec_undo_results r) \<and>
      (\<forall>m \<in> set (mutations s').
         mut_local_id m = i \<and> sp_mutation_sequence marker < mut_sequence m \<longrightarrow> mut_rolled_back m) \<and>
      filter (\<lambda>m. \<not> (mut_local_id m = i \<and> sp_mutation_sequence marker < mut_sequence m)) (mutations s') =
        filter (\<lambda>m. \<not> (mut_local_id m = i \<and> sp_mutation_sequence marker < mut_sequence m)) (mutations s) \<and>
      PlanRollbackTo i name s' = Inr (marker, []))) \<and>
    (\<not> exec_ok r \<longrightarrow> s' = s)"
proof (cases "exec_ok r")
  case True
  with ExecuteRollbackTo_outcome [OF assms] obtain marker actions where
    p: "PlanRollbackTo i name s = Inr (marker, actions)" and
    u: "undo_all ex actions st = (exec_undo_results r, st')" "list_all undo_ok (exec_undo_results r)" and
    s': "s' = MarkRollbackApplied i (sp_mutation_sequence marker) s" by auto
  have "\<forall>m \<in> set (mutations s'). mut_local_id m = i \<and> sp_mutation_sequence marker < mut_sequence m \<longrightarrow> mut_rolled_back m"
    using MarkRollbackApplied_mutations unfolding s' to_undo_def by blast
  with True p u plan_after_rollback [OF p] MarkRollbackApplied_others show ?thesis unfolding s' by blast
next
  case False
  with ExecuteRollbackTo_outcome [OF assms] show ?thesis by simp
qed

theorem rollback_execution_witness:
  "\<exists>r s'. ExecuteRollbackTo 1 ''sp'' (Some sample_executor) [] sample_stack = (r, s', [''d'', ''b'']) \<and> exec_ok r \<and>
     (\<exists>marker. PlanRollbackTo 1 ''sp'' s' = Inr (marker, []))"
proof -
  have "exec_ok (fst (ExecuteRollbackTo 1 ''sp'' (Some sample_executor) [] sample_stack)) \<and>
    snd (snd (ExecuteRollbackTo 1 ''sp'' (Some sample_executor) [] sample_stack)) = [''d'', ''b'']" by code_simp
  then obtain r s' where h: "ExecuteRollbackTo 1 ''sp'' (Some sample_executor) [] sample_stack = (r, s', [''d'', ''b''])"
    and ok: "exec_ok r"
    by (cases "ExecuteRollbackTo 1 ''sp'' (Some sample_executor) [] sample_stack") auto
  from rollback_execution [OF h] ok h show ?thesis by blast
qed

end
