(* ===== verification/RowVersion.thy ===== *)
theory RowVersion
  imports TransactionInventory
begin

text \<open>
  Row versions and their visibility: \<^verbatim>\<open>transaction/mga/row_version.{hpp,cpp}\<close> and
  \<^verbatim>\<open>row_version_observation.hpp\<close>. A decision carries its diagnostic: none when the code returns an ok
  status, a warning or an error otherwise. The lemmas characterise when a version is visible, relate
  the two visibility functions, and show what the acceptance of a HOT update proves.
\<close>

section \<open>Data\<close>

datatype row_version_state =
    RV_unknown | RV_uncommitted | RV_prepared | RV_committed | RV_rolled_back | RV_delete_marker
  | RV_limbo | RV_recovery_required

datatype visibility_decision =
    VD_visible | VD_invisible | VD_wait_for_transaction | VD_requires_recovery | VD_unknown

datatype hot_decision_kind =
    HOT_refused | HOT_page_local_hot | HOT_stable_row_head_indirection | HOT_ordinary_index_rewrite

definition kInvalidRowVersionSequence :: u64 where
  "kInvalidRowVersionSequence = 0"

text \<open>\<^verbatim>\<open>RowIdentity\<close> has the typed row UUID as its only member and is represented by it.\<close>

type_synonym row_identity = typed_uuid

record row_version_chain_links =
  previous_version_uuid :: typed_uuid
  next_version_uuid :: typed_uuid
  previous_version_sequence :: u64
  next_version_sequence :: u64

definition has_previous :: "row_version_chain_links \<Rightarrow> bool" where
  "has_previous c \<longleftrightarrow> previous_version_sequence c \<noteq> kInvalidRowVersionSequence"

definition has_next :: "row_version_chain_links \<Rightarrow> bool" where
  "has_next c \<longleftrightarrow> next_version_sequence c \<noteq> kInvalidRowVersionSequence"

record row_version_identity =
  version_row :: row_identity
  creator_transaction :: transaction_identity
  version_sequence :: u64
  version_uuid :: uuid

record row_version_metadata =
  version_identity :: row_version_identity
  chain :: row_version_chain_links
  successor_transaction_local_id :: local_transaction_id
  version_state :: row_version_state
  creator_transaction_state :: transaction_state
  payload_present :: bool
  creator_commit_sequence :: u64

record visibility_snapshot =
  reader_transaction :: local_transaction_id
  visible_through_local_transaction_id :: u64
  visible_through_local_transaction_id_is_boundary :: bool
  allow_reader_own_uncommitted :: bool
  recovery_context :: bool
  active_excluded_local_transaction_ids :: "u64 list"
  in_doubt_excluded_local_transaction_ids :: "u64 list"
  visible_through_commit_sequence :: u64
  visible_through_commit_sequence_is_boundary :: bool

record visibility_result =
  visibility_diagnostic :: "diagnostic_record option"
  decision :: visibility_decision

text \<open>\<^verbatim>\<open>VisibilityResult::ok()\<close>: no warning and no error.\<close>

definition visibility_ok :: "visibility_result \<Rightarrow> bool" where
  "visibility_ok r \<longleftrightarrow> visibility_diagnostic r = None"

section \<open>Names and diagnostics\<close>

fun RowVersionStateName :: "row_version_state \<Rightarrow> string" where
  "RowVersionStateName RV_unknown = ''unknown''"
| "RowVersionStateName RV_uncommitted = ''uncommitted''"
| "RowVersionStateName RV_prepared = ''prepared''"
| "RowVersionStateName RV_committed = ''committed''"
| "RowVersionStateName RV_rolled_back = ''rolled_back''"
| "RowVersionStateName RV_delete_marker = ''delete_marker''"
| "RowVersionStateName RV_limbo = ''limbo''"
| "RowVersionStateName RV_recovery_required = ''recovery_required''"

fun VisibilityDecisionName :: "visibility_decision \<Rightarrow> string" where
  "VisibilityDecisionName VD_visible = ''visible''"
| "VisibilityDecisionName VD_invisible = ''invisible''"
| "VisibilityDecisionName VD_wait_for_transaction = ''wait_for_transaction''"
| "VisibilityDecisionName VD_requires_recovery = ''requires_recovery''"
| "VisibilityDecisionName VD_unknown = ''unknown''"

definition RowVersionErrorStatus :: status where
  "RowVersionErrorStatus = TransactionErrorStatus"

definition RowVersionWarningStatus :: status where
  "RowVersionWarningStatus = RowVersionErrorStatus\<lparr>status_severity := Sev_warning\<rparr>"

definition MakeRowVersionDiagnostic :: "status \<Rightarrow> string \<Rightarrow> string \<Rightarrow> string \<Rightarrow> diagnostic_record" where
  "MakeRowVersionDiagnostic = component_diagnostic ''transaction.mga.row_version''"

definition RowVersionError :: "string \<Rightarrow> string \<Rightarrow> string \<Rightarrow> diagnostic_record" where
  "RowVersionError code key detail = MakeRowVersionDiagnostic RowVersionErrorStatus code key detail"

section \<open>Validation\<close>

definition ValidateRowIdentity :: "row_identity \<Rightarrow> row_identity result" where
  "ValidateRowIdentity r =
    (if uuid_kind r \<noteq> UK_row \<or> \<not> typed_uuid_valid r then
       Inl (RowVersionError ''SB-ROW-INVALID-ROW-UUID-KIND'' ''row_version.invalid_row_uuid_kind'' '''')
     else if \<not> IsEngineIdentityUuid (uuid_value r) then
       Inl (RowVersionError ''SB-ROW-ROW-UUID-MUST-BE-V7'' ''row_version.row_uuid_must_be_v7'' '''')
     else Inr r)"

definition ValidateRowVersionIdentity :: "row_version_identity \<Rightarrow> row_version_identity result" where
  "ValidateRowVersionIdentity i =
    (if \<not> IsEngineIdentityUuid (version_uuid i) \<or> version_uuid i = uuid_value (version_row i) then
       Inl (RowVersionError ''CATALOG.INVALID_INPUT'' ''row_version.invalid_version_uuid'' '''')
     else bind_result (ValidateRowIdentity (version_row i)) (\<lambda>_.
          bind_result (ValidateTransactionIdentity (creator_transaction i)) (\<lambda>_.
          if version_sequence i = kInvalidRowVersionSequence then
            Inl (RowVersionError ''SB-ROW-INVALID-VERSION-SEQUENCE'' ''row_version.invalid_version_sequence'' '''')
          else Inr i)))"

definition MakeRowVersionIdentity ::
  "row_identity \<Rightarrow> transaction_identity \<Rightarrow> u64 \<Rightarrow> uuid \<Rightarrow> row_version_identity result" where
  "MakeRowVersionIdentity row creator seq vuuid =
    ValidateRowVersionIdentity
      \<lparr>version_row = row, creator_transaction = creator, version_sequence = seq, version_uuid = vuuid\<rparr>"

definition ValidateRowVersionMetadata :: "row_version_metadata \<Rightarrow> row_version_metadata result" where
  "ValidateRowVersionMetadata m =
    bind_result (ValidateRowVersionIdentity (version_identity m)) (\<lambda>_.
    if version_state m = RV_unknown then
      Inl (RowVersionError ''SB-ROW-UNKNOWN-VERSION-STATE'' ''row_version.unknown_version_state'' '''')
    else if creator_transaction_state m = TS_none \<or> creator_transaction_state m = TS_archived then
      Inl (RowVersionError ''SB-ROW-UNKNOWN-CREATOR-TRANSACTION-STATE''
             ''row_version.unknown_creator_transaction_state'' '''')
    else if \<not> payload_present m \<and> version_state m \<noteq> RV_delete_marker \<and> version_state m \<noteq> RV_rolled_back then
      Inl (RowVersionError ''SB-ROW-MISSING-VERSION-PAYLOAD'' ''row_version.missing_version_payload''
             (RowVersionStateName (version_state m)))
    else if has_previous (chain m) \<and>
            version_sequence (version_identity m) \<le> previous_version_sequence (chain m) then
      Inl (RowVersionError ''SB-ROW-INVALID-PREVIOUS-VERSION-LINK''
             ''row_version.invalid_previous_version_link'' '''')
    else if has_next (chain m) \<and>
            next_version_sequence (chain m) \<le> version_sequence (version_identity m) then
      Inl (RowVersionError ''SB-ROW-INVALID-NEXT-VERSION-LINK'' ''row_version.invalid_next_version_link'' '''')
    else Inr m)"

section \<open>Visibility\<close>

text \<open>The state a delete marker takes when its effect is evaluated; \<open>None\<close> is the switch's default.\<close>

fun delete_effect_state :: "transaction_state \<Rightarrow> row_version_state option" where
  "delete_effect_state TS_committed = Some RV_committed"
| "delete_effect_state TS_rolled_back = Some RV_rolled_back"
| "delete_effect_state TS_failed_terminal = Some RV_rolled_back"
| "delete_effect_state TS_prepared = Some RV_prepared"
| "delete_effect_state TS_limbo = Some RV_limbo"
| "delete_effect_state TS_recovering = Some RV_recovery_required"
| "delete_effect_state TS_created = Some RV_uncommitted"
| "delete_effect_state TS_active = Some RV_uncommitted"
| "delete_effect_state TS_preparing = Some RV_uncommitted"
| "delete_effect_state TS_committing = Some RV_uncommitted"
| "delete_effect_state TS_rolling_back = Some RV_uncommitted"
| "delete_effect_state TS_read_only_active = Some RV_uncommitted"
| "delete_effect_state TS_none = None"
| "delete_effect_state TS_archived = None"

abbreviation decide :: "visibility_decision \<Rightarrow> visibility_result" where
  "decide d \<equiv> \<lparr>visibility_diagnostic = None, decision = d\<rparr>"

definition visibility_warning :: "visibility_decision \<Rightarrow> string \<Rightarrow> string \<Rightarrow> string \<Rightarrow> visibility_result" where
  "visibility_warning d code key detail =
    \<lparr>visibility_diagnostic = Some (MakeRowVersionDiagnostic RowVersionWarningStatus code key detail),
     decision = d\<rparr>"

abbreviation creator_id :: "row_version_metadata \<Rightarrow> u64" where
  "creator_id m \<equiv> local_id (creator_transaction (version_identity m))"

text \<open>The part of \<^verbatim>\<open>Evaluate\<close> after the effective state is known.\<close>

definition EvaluateState ::
  "row_version_metadata \<Rightarrow> visibility_snapshot \<Rightarrow> row_version_state \<Rightarrow> visibility_result" where
  "EvaluateState m s st =
    (if st = RV_recovery_required \<or> st = RV_limbo then
       visibility_warning VD_requires_recovery ''SB-ROW-VISIBILITY-REQUIRES-RECOVERY''
         ''row_version.visibility_requires_recovery'' (RowVersionStateName (version_state m))
     else if st = RV_prepared \<or> st = RV_uncommitted then
       (if allow_reader_own_uncommitted s \<and> local_id_valid (reader_transaction s) \<and>
           creator_id m = reader_transaction s
        then decide VD_visible
        else visibility_warning VD_wait_for_transaction ''SB-ROW-VISIBILITY-WAITS-FOR-TRANSACTION''
               ''row_version.visibility_waits_for_transaction'' (RowVersionStateName (version_state m)))
     else if st = RV_rolled_back \<or> st = RV_delete_marker then decide VD_invisible
     else if \<not> (st = RV_committed \<and> creator_transaction_state m = TS_committed) then
       visibility_warning VD_wait_for_transaction ''SB-ROW-CREATOR-NOT-COMMITTED''
         ''row_version.creator_not_committed'' (TransactionStateName (creator_transaction_state m))
     else if (visible_through_local_transaction_id_is_boundary s \<or>
              visible_through_local_transaction_id s \<noteq> kInvalidLocalTransactionId) \<and>
             visible_through_local_transaction_id s < creator_id m then decide VD_invisible
     else if visible_through_commit_sequence_is_boundary s \<and> creator_commit_sequence m = 0 then
       \<lparr>visibility_diagnostic = Some (RowVersionError ''CATALOG.INVALID_INPUT''
          ''row_version.creator_commit_sequence_missing'' ''''), decision = VD_unknown\<rparr>
     else if visible_through_commit_sequence_is_boundary s \<and>
             visible_through_commit_sequence s < creator_commit_sequence m then decide VD_invisible
     else if creator_id m \<in> set (active_excluded_local_transaction_ids s) \<or>
             creator_id m \<in> set (in_doubt_excluded_local_transaction_ids s) then decide VD_invisible
     else decide VD_visible)"

definition Evaluate :: "row_version_metadata \<Rightarrow> visibility_snapshot \<Rightarrow> bool \<Rightarrow> visibility_result" where
  "Evaluate m s delete_effect =
    (case ValidateRowVersionMetadata m of
       Inl d \<Rightarrow> \<lparr>visibility_diagnostic = Some d, decision = VD_unknown\<rparr>
     | Inr _ \<Rightarrow>
         if delete_effect \<and> version_state m = RV_delete_marker then
           (case delete_effect_state (creator_transaction_state m) of
              None \<Rightarrow> \<lparr>visibility_diagnostic = Some (RowVersionError
                        ''SB-ROW-UNKNOWN-CREATOR-TRANSACTION-STATE''
                        ''row_version.unknown_creator_transaction_state'' ''''), decision = VD_unknown\<rparr>
            | Some st \<Rightarrow> EvaluateState m s st)
         else EvaluateState m s (version_state m))"

definition EvaluateVisibility :: "row_version_metadata \<Rightarrow> visibility_snapshot \<Rightarrow> visibility_result" where
  "EvaluateVisibility m s = Evaluate m s False"

definition EvaluateVersionEffectVisibility ::
  "row_version_metadata \<Rightarrow> visibility_snapshot \<Rightarrow> visibility_result" where
  "EvaluateVersionEffectVisibility m s = Evaluate m s True"

section \<open>HOT updates\<close>

record hot_stable_row_head_proof_input =
  old_visible_version :: row_version_metadata
  new_version :: row_version_metadata
  old_version_uuid :: typed_uuid
  new_previous_version_uuid :: typed_uuid
  hot_visibility_snapshot :: visibility_snapshot
  exact_index_keys_unchanged :: bool
  same_page_budget_available :: bool
  parser_or_reference_authority :: bool

text \<open>
  \<^verbatim>\<open>HotStableRowHeadRefusal\<close> is the left injection; on the right are the decision and
  \<^verbatim>\<open>proof_accepted\<close>.
\<close>

definition IsValidRowTypedUuid :: "typed_uuid \<Rightarrow> bool" where
  "IsValidRowTypedUuid t \<longleftrightarrow> uuid_kind t = UK_row \<and> typed_uuid_valid t \<and> IsEngineIdentityUuid (uuid_value t)"

definition HotStableRowHeadRefusal ::
  "string \<Rightarrow> string \<Rightarrow> string \<Rightarrow> (hot_decision_kind \<times> bool) result" where
  "HotStableRowHeadRefusal code key detail = Inl (RowVersionError code key detail)"

definition EvaluateHotStableRowHeadDecision ::
  "hot_stable_row_head_proof_input \<Rightarrow> (hot_decision_kind \<times> bool) result" where
  "EvaluateHotStableRowHeadDecision i =
    (let old = old_visible_version i; new = new_version i; snap = hot_visibility_snapshot i in
     if parser_or_reference_authority i then
       HotStableRowHeadRefusal ''SB-MGA-HOT-STABLE-HEAD-PARSER-REFERENCE-REFUSED''
         ''row_version.hot_stable_head.parser_reference_refused'' ''''
     else if \<not> exact_index_keys_unchanged i then Inr (HOT_ordinary_index_rewrite, False)
     else if \<not> IsValidRowTypedUuid (old_version_uuid i) then
       HotStableRowHeadRefusal ''SB-MGA-HOT-STABLE-HEAD-OLD-VERSION-UUID-INVALID''
         ''row_version.hot_stable_head.old_version_uuid_invalid'' ''''
     else if \<not> IsValidRowTypedUuid (new_previous_version_uuid i) then
       HotStableRowHeadRefusal ''SB-MGA-HOT-STABLE-HEAD-PREVIOUS-UUID-INVALID''
         ''row_version.hot_stable_head.previous_uuid_invalid'' ''''
     else case ValidateRowVersionMetadata old of
       Inl d \<Rightarrow> HotStableRowHeadRefusal ''SB-MGA-HOT-STABLE-HEAD-OLD-METADATA-INVALID''
                 ''row_version.hot_stable_head.old_metadata_invalid'' (diagnostic_code d)
     | Inr _ \<Rightarrow> (case ValidateRowVersionMetadata new of
       Inl d \<Rightarrow> HotStableRowHeadRefusal ''SB-MGA-HOT-STABLE-HEAD-NEW-METADATA-INVALID''
                 ''row_version.hot_stable_head.new_metadata_invalid'' (diagnostic_code d)
     | Inr _ \<Rightarrow>
     if version_uuid (version_identity old) \<noteq> uuid_value (old_version_uuid i) \<or>
        version_uuid (version_identity new) = version_uuid (version_identity old) then
       HotStableRowHeadRefusal ''CATALOG.INVALID_INPUT''
         ''row_version.hot_stable_head.version_identity_mismatch'' ''''
     else if version_row (version_identity old) \<noteq> version_row (version_identity new) then
       HotStableRowHeadRefusal ''SB-MGA-HOT-STABLE-HEAD-ROW-UUID-CHANGED''
         ''row_version.hot_stable_head.row_uuid_changed'' ''''
     else if old_version_uuid i \<noteq> new_previous_version_uuid i then
       HotStableRowHeadRefusal ''SB-MGA-HOT-STABLE-HEAD-PREVIOUS-UUID-MISMATCH''
         ''row_version.hot_stable_head.previous_uuid_mismatch'' ''''
     else if previous_version_sequence (chain new) = kInvalidRowVersionSequence then
       HotStableRowHeadRefusal ''SB-MGA-HOT-STABLE-HEAD-PREVIOUS-SEQUENCE-MISSING''
         ''row_version.hot_stable_head.previous_sequence_missing'' ''''
     else if previous_version_sequence (chain new) \<noteq> version_sequence (version_identity old) then
       HotStableRowHeadRefusal ''SB-MGA-HOT-STABLE-HEAD-PREVIOUS-SEQUENCE-MISMATCH''
         ''row_version.hot_stable_head.previous_sequence_mismatch'' ''''
     else if previous_version_uuid (chain new) \<noteq> old_version_uuid i then
       HotStableRowHeadRefusal ''SB-MGA-HOT-STABLE-HEAD-CHAIN-PREVIOUS-UUID-MISMATCH''
         ''row_version.hot_stable_head.chain_previous_uuid_mismatch'' ''''
     else if creator_id new \<noteq> reader_transaction snap then
       HotStableRowHeadRefusal ''SB-MGA-HOT-STABLE-HEAD-CREATOR-NOT-READER''
         ''row_version.hot_stable_head.creator_not_reader'' ''''
     else if creator_transaction_state new \<noteq> TS_active \<or> version_state new \<noteq> RV_uncommitted then
       HotStableRowHeadRefusal ''SB-MGA-HOT-STABLE-HEAD-CREATOR-NOT-ACTIVE''
         ''row_version.hot_stable_head.creator_not_active''
         (TransactionStateName (creator_transaction_state new))
     else if \<not> visibility_ok (EvaluateVisibility old snap) \<or>
             decision (EvaluateVisibility old snap) \<noteq> VD_visible then
       HotStableRowHeadRefusal ''SB-MGA-HOT-STABLE-HEAD-OLD-VISIBILITY-REFUSED''
         ''row_version.hot_stable_head.old_visibility_refused''
         (VisibilityDecisionName (decision (EvaluateVisibility old snap)))
     else if \<not> visibility_ok (EvaluateVisibility new snap) \<or>
             decision (EvaluateVisibility new snap) \<noteq> VD_visible then
       HotStableRowHeadRefusal ''SB-MGA-HOT-STABLE-HEAD-NEW-VISIBILITY-REFUSED''
         ''row_version.hot_stable_head.new_visibility_refused''
         (VisibilityDecisionName (decision (EvaluateVisibility new snap)))
     else Inr (if same_page_budget_available i then HOT_page_local_hot
               else HOT_stable_row_head_indirection, True)))"

section \<open>Lemmas: visibility\<close>

lemma visibility_simps [simp]:
  "visibility_ok (decide d)"
  "\<not> visibility_ok (visibility_warning d c k t)"
  "decision (visibility_warning d c k t) = d"
  "\<not> visibility_ok \<lparr>visibility_diagnostic = Some x, decision = d\<rparr>"
  by (simp_all add: visibility_ok_def visibility_warning_def)

definition is_visible :: "visibility_result \<Rightarrow> bool" where
  "is_visible r \<longleftrightarrow> visibility_ok r \<and> decision r = VD_visible"

text \<open>The reader's own uncommitted work, and what the snapshot admits of a committed creator.\<close>

definition own_uncommitted :: "row_version_metadata \<Rightarrow> visibility_snapshot \<Rightarrow> bool" where
  "own_uncommitted m s \<longleftrightarrow>
    allow_reader_own_uncommitted s \<and> reader_transaction s \<noteq> 0 \<and> creator_id m = reader_transaction s"

definition snapshot_admits :: "visibility_snapshot \<Rightarrow> u64 \<Rightarrow> u64 \<Rightarrow> bool" where
  "snapshot_admits s i cs \<longleftrightarrow>
    (visible_through_local_transaction_id_is_boundary s \<or> visible_through_local_transaction_id s \<noteq> 0 \<longrightarrow>
       i \<le> visible_through_local_transaction_id s) \<and>
    (visible_through_commit_sequence_is_boundary s \<longrightarrow>
       cs \<noteq> 0 \<and> cs \<le> visible_through_commit_sequence s) \<and>
    i \<notin> set (active_excluded_local_transaction_ids s) \<and>
    i \<notin> set (in_doubt_excluded_local_transaction_ids s)"

lemma is_visible_simps [simp]:
  "is_visible (decide d) \<longleftrightarrow> d = VD_visible"
  "\<not> is_visible (visibility_warning d c k t)"
  "\<not> is_visible \<lparr>visibility_diagnostic = Some x, decision = d\<rparr>"
  by (auto simp: is_visible_def)

lemma EvaluateState_visible:
  "is_visible (EvaluateState m s st) \<longleftrightarrow>
    ((st = RV_prepared \<or> st = RV_uncommitted) \<and> own_uncommitted m s) \<or>
    (st = RV_committed \<and> creator_transaction_state m = TS_committed \<and>
     snapshot_admits s (creator_id m) (creator_commit_sequence m))"
  unfolding EvaluateState_def own_uncommitted_def snapshot_admits_def kInvalidLocalTransactionId_def
    local_id_valid_def
  by (cases st) (auto simp: not_less)

lemma EvaluateVisibility_visible:
  "is_visible (EvaluateVisibility m s) \<longleftrightarrow>
    is_ok (ValidateRowVersionMetadata m) \<and>
    (((version_state m = RV_prepared \<or> version_state m = RV_uncommitted) \<and> own_uncommitted m s) \<or>
     (version_state m = RV_committed \<and> creator_transaction_state m = TS_committed \<and>
      snapshot_admits s (creator_id m) (creator_commit_sequence m)))"
  by (auto simp: EvaluateVisibility_def Evaluate_def EvaluateState_visible is_ok_iff split: sum.splits)

lemma effect_other_states:
  "version_state m \<noteq> RV_delete_marker \<Longrightarrow> EvaluateVersionEffectVisibility m s = EvaluateVisibility m s"
  by (simp add: EvaluateVersionEffectVisibility_def EvaluateVisibility_def Evaluate_def)

lemma effect_delete_marker:
  assumes "version_state m = RV_delete_marker"
  shows "is_visible (EvaluateVersionEffectVisibility m s) \<longleftrightarrow>
    is_ok (ValidateRowVersionMetadata m) \<and>
    (if creator_transaction_state m = TS_committed
     then snapshot_admits s (creator_id m) (creator_commit_sequence m)
     else creator_transaction_state m \<in> {TS_prepared, TS_created, TS_active, TS_preparing,
            TS_committing, TS_rolling_back, TS_read_only_active} \<and> own_uncommitted m s)"
  using assms
  by (cases "creator_transaction_state m")
    (auto simp: EvaluateVersionEffectVisibility_def Evaluate_def EvaluateState_visible is_ok_iff
      split: sum.splits)

lemma metadata_links:
  assumes "is_ok (ValidateRowVersionMetadata m)"
  shows "previous_version_sequence (chain m) = 0 \<or>
      previous_version_sequence (chain m) < version_sequence (version_identity m)"
    and "next_version_sequence (chain m) = 0 \<or>
      version_sequence (version_identity m) < next_version_sequence (chain m)"
  using assms
  by (auto simp: ValidateRowVersionMetadata_def is_ok_iff bind_result_eq_Inr has_previous_def has_next_def
      kInvalidRowVersionSequence_def not_le split: if_splits)

lemma hot_refusal_not_Inr [simp]: "HotStableRowHeadRefusal c k d \<noteq> Inr x"
  by (simp add: HotStableRowHeadRefusal_def)

lemma hot_accepted:
  assumes "EvaluateHotStableRowHeadDecision i = Inr (d, True)"
  shows "let old = old_visible_version i; new = new_version i; s = hot_visibility_snapshot i in
    \<not> parser_or_reference_authority i \<and> exact_index_keys_unchanged i \<and>
    is_ok (ValidateRowVersionMetadata old) \<and> is_ok (ValidateRowVersionMetadata new) \<and>
    version_row (version_identity old) = version_row (version_identity new) \<and>
    version_uuid (version_identity old) = uuid_value (previous_version_uuid (chain new)) \<and>
    version_uuid (version_identity new) \<noteq> version_uuid (version_identity old) \<and>
    previous_version_sequence (chain new) = version_sequence (version_identity old) \<and>
    previous_version_sequence (chain new) \<noteq> 0 \<and>
    creator_id new = reader_transaction s \<and> creator_transaction_state new = TS_active \<and>
    version_state new = RV_uncommitted \<and>
    is_visible (EvaluateVisibility old s) \<and> is_visible (EvaluateVisibility new s) \<and>
    d = (if same_page_budget_available i then HOT_page_local_hot else HOT_stable_row_head_indirection)"
  using assms unfolding EvaluateHotStableRowHeadDecision_def Let_def kInvalidRowVersionSequence_def
  by (simp add: is_visible_def is_ok_iff split: if_split_asm sum.split_asm)

section \<open>A sample version\<close>

definition sample_version ::
  "u64 \<Rightarrow> byte \<Rightarrow> byte \<Rightarrow> u64 \<Rightarrow> row_version_state \<Rightarrow> transaction_state \<Rightarrow> u64 \<Rightarrow> row_version_metadata" where
  "sample_version creator cb vb sq st cst cs =
    \<lparr>version_identity =
       \<lparr>version_row = \<lparr>uuid_kind = UK_row, uuid_value = sample_uuid 100\<rparr>,
        creator_transaction = \<lparr>local_id = creator, transaction_uuid = sample_transaction cb,
                               scope = Scope_local_node\<rparr>,
        version_sequence = sq, version_uuid = sample_uuid vb\<rparr>,
     chain = \<lparr>previous_version_uuid = default_typed_uuid, next_version_uuid = default_typed_uuid,
              previous_version_sequence = 0, next_version_sequence = 0\<rparr>,
     successor_transaction_local_id = 0, version_state = st, creator_transaction_state = cst,
     payload_present = True, creator_commit_sequence = cs\<rparr>"

definition sample_snapshot :: visibility_snapshot where
  "sample_snapshot =
    \<lparr>reader_transaction = 3, visible_through_local_transaction_id = 1,
     visible_through_local_transaction_id_is_boundary = True, allow_reader_own_uncommitted = True,
     recovery_context = False, active_excluded_local_transaction_ids = [2, 3],
     in_doubt_excluded_local_transaction_ids = [], visible_through_commit_sequence = 1,
     visible_through_commit_sequence_is_boundary = True\<rparr>"

section \<open>Properties\<close>

text \<open>
  C18. The visibility rule. A version is visible exactly when its metadata is valid and either it is
  the reader's own uncommitted or prepared version, or it is committed by a committed creator that
  the snapshot admits: within both boundaries and in neither exclusion list.
\<close>

theorem visibility_rule:
  "(visibility_ok (EvaluateVisibility m s) \<and> decision (EvaluateVisibility m s) = VD_visible) \<longleftrightarrow>
    is_ok (ValidateRowVersionMetadata m) \<and>
    (((version_state m = RV_prepared \<or> version_state m = RV_uncommitted) \<and> own_uncommitted m s) \<or>
     (version_state m = RV_committed \<and> creator_transaction_state m = TS_committed \<and>
      snapshot_admits s (creator_id m) (creator_commit_sequence m)))"
  using EvaluateVisibility_visible [of m s] by (simp add: is_visible_def)

text \<open>
  Deletion. A delete marker is never visible as a row; its effect is visible exactly when a
  committed version of the same creator would be, or when the reader's own open transaction made it;
  and for every other version the effect is what the row visibility is.
\<close>

lemma delete_marker_effect:
  "(version_state m = RV_delete_marker \<longrightarrow>
      \<not> is_visible (EvaluateVisibility m s) \<and>
      (creator_transaction_state m = TS_committed \<longrightarrow>
         is_visible (EvaluateVersionEffectVisibility m s) =
           (is_ok (ValidateRowVersionMetadata m) \<and>
            snapshot_admits s (creator_id m) (creator_commit_sequence m))) \<and>
      (creator_transaction_state m \<noteq> TS_committed \<longrightarrow>
         is_visible (EvaluateVersionEffectVisibility m s) \<longrightarrow> own_uncommitted m s))
   \<and> (version_state m \<noteq> RV_delete_marker \<longrightarrow>
      EvaluateVersionEffectVisibility m s = EvaluateVisibility m s)"
  by (auto simp: EvaluateVisibility_visible effect_delete_marker effect_other_states split: if_splits)

text \<open>
  What an accepted HOT update proves: same row, no index key changed, the new version is the
  reader's own uncommitted version linked to exactly the old one, the old one is visible to the
  reader, and version sequences strictly grow along the link, so links never form a cycle.
\<close>

lemma hot_acceptance_is_sound:
  assumes "EvaluateHotStableRowHeadDecision i = Inr (d, True)"
  shows "\<not> parser_or_reference_authority i \<and> exact_index_keys_unchanged i \<and>
    version_row (version_identity (old_visible_version i)) = version_row (version_identity (new_version i)) \<and>
    uuid_value (previous_version_uuid (chain (new_version i))) =
      version_uuid (version_identity (old_visible_version i)) \<and>
    previous_version_sequence (chain (new_version i)) =
      version_sequence (version_identity (old_visible_version i)) \<and>
    version_sequence (version_identity (old_visible_version i)) <
      version_sequence (version_identity (new_version i)) \<and>
    creator_id (new_version i) = reader_transaction (hot_visibility_snapshot i) \<and>
    is_visible (EvaluateVisibility (old_visible_version i) (hot_visibility_snapshot i)) \<and>
    (d = HOT_page_local_hot \<longleftrightarrow> same_page_budget_available i)"
  using hot_accepted [OF assms] metadata_links(1) [of "new_version i"] by (auto simp: Let_def)

definition sample_hot_input :: hot_stable_row_head_proof_input where
  "sample_hot_input =
    (let old = sample_version 1 1 50 7 RV_committed TS_committed 1;
         prev = \<lparr>uuid_kind = UK_row, uuid_value = sample_uuid 50\<rparr>;
         new = sample_version 3 3 51 8 RV_uncommitted TS_active 0 in
     \<lparr>old_visible_version = old,
      new_version = new\<lparr>chain := (chain new)\<lparr>previous_version_uuid := prev, previous_version_sequence := 7\<rparr>\<rparr>,
      old_version_uuid = prev, new_previous_version_uuid = prev,
      hot_visibility_snapshot = sample_snapshot, exact_index_keys_unchanged = True,
      same_page_budget_available = True, parser_or_reference_authority = False\<rparr>)"

end
