(* ===== verification/CopyOnWrite.thy ===== *)
theory CopyOnWrite
  imports RowVersion
begin

text \<open>
  Copy-on-write mutations and the assessment of cleanup eligibility:
  \<^verbatim>\<open>transaction/mga/copy_on_write.{hpp,cpp}\<close>. A mutation moves through a fixed graph of phases; every
  call validates the mutation it is given and the one it returns. The enumerations of the model have
  no values beyond the source's enumerators, so the range checks of the code reduce to the test for
  \<^verbatim>\<open>unknown\<close>.
\<close>

section \<open>Data\<close>

datatype cow_mutation_kind =
    CK_insert | CK_update | CK_delete_row | CK_system_catalog_update | CK_unknown

datatype cow_mutation_phase =
    CP_planned | CP_base_version_locked | CP_new_version_allocated | CP_payload_written_unpublished
  | CP_publish_pending_transaction | CP_published | CP_rollback_pending | CP_rollback_complete
  | CP_recovery_required | CP_unknown

datatype cleanup_hold_kind =
    CH_none | CH_oldest_interesting_transaction | CH_oldest_active_transaction
  | CH_oldest_snapshot_transaction | CH_limbo_transaction | CH_recovery_required
  | CH_archive_required | CH_backup_required | CH_management_operation | CH_legal_hold
  | CH_admin_hold | CH_unknown

datatype cleanup_eligibility_decision =
    CE_eligible_requires_authority | CE_eligible_authoritative | CE_blocked_by_horizon
  | CE_blocked_by_limbo | CE_blocked_by_recovery | CE_blocked_by_archive_or_backup | CE_unknown

record cow_mutation_intent =
  cow_kind :: cow_mutation_kind
  cow_transaction :: transaction_identity
  cow_row :: row_identity
  base_version_sequence :: u64
  new_version_sequence :: u64
  has_base_version :: bool
  payload_required :: bool
  system_catalog_mutation :: bool

record cow_mutation_state =
  cow_intent :: cow_mutation_intent
  cow_phase :: cow_mutation_phase
  resulting_row_state :: row_version_state
  cow_evidence_record_required :: bool
  cow_evidence_record_written :: bool

record cleanup_horizon =
  hold_kind :: cleanup_hold_kind
  horizon_transaction :: local_transaction_id
  horizon_authoritative :: bool
  horizon_stable_name :: string

text \<open>
  The result structs keep the mutation or the decision beside the status and the diagnostic, on
  refusals too; \<open>None\<close> is a default constructed diagnostic.
\<close>

record cow_mutation_result =
  cow_status :: status
  cow_mutation :: cow_mutation_state
  cow_diagnostic :: "diagnostic_record option"

record cleanup_eligibility_result =
  eligibility_status :: status
  eligibility_decision :: cleanup_eligibility_decision
  eligibility_blocking_hold :: cleanup_hold_kind
  eligibility_diagnostic :: "diagnostic_record option"

definition cow_ok :: "cow_mutation_result \<Rightarrow> bool" where
  "cow_ok r \<longleftrightarrow> status_ok (cow_status r)"

text \<open>A default constructed mutation state, returned when the transaction is not admitted.\<close>

definition default_cow_mutation :: cow_mutation_state where
  "default_cow_mutation =
    \<lparr>cow_intent =
       \<lparr>cow_kind = CK_unknown,
        cow_transaction = \<lparr>local_id = kInvalidLocalTransactionId, transaction_uuid = default_typed_uuid,
                           scope = Scope_unknown\<rparr>,
        cow_row = default_typed_uuid, base_version_sequence = kInvalidRowVersionSequence,
        new_version_sequence = kInvalidRowVersionSequence, has_base_version = False,
        payload_required = True, system_catalog_mutation = False\<rparr>,
     cow_phase = CP_unknown, resulting_row_state = RV_unknown,
     cow_evidence_record_required = True, cow_evidence_record_written = False\<rparr>"

section \<open>Names and diagnostics\<close>

fun CopyOnWriteMutationKindName :: "cow_mutation_kind \<Rightarrow> string" where
  "CopyOnWriteMutationKindName CK_insert = ''insert''"
| "CopyOnWriteMutationKindName CK_update = ''update''"
| "CopyOnWriteMutationKindName CK_delete_row = ''delete_row''"
| "CopyOnWriteMutationKindName CK_system_catalog_update = ''system_catalog_update''"
| "CopyOnWriteMutationKindName CK_unknown = ''unknown''"

fun CopyOnWriteMutationPhaseName :: "cow_mutation_phase \<Rightarrow> string" where
  "CopyOnWriteMutationPhaseName CP_planned = ''planned''"
| "CopyOnWriteMutationPhaseName CP_base_version_locked = ''base_version_locked''"
| "CopyOnWriteMutationPhaseName CP_new_version_allocated = ''new_version_allocated''"
| "CopyOnWriteMutationPhaseName CP_payload_written_unpublished = ''payload_written_unpublished''"
| "CopyOnWriteMutationPhaseName CP_publish_pending_transaction = ''publish_pending_transaction''"
| "CopyOnWriteMutationPhaseName CP_published = ''published''"
| "CopyOnWriteMutationPhaseName CP_rollback_pending = ''rollback_pending''"
| "CopyOnWriteMutationPhaseName CP_rollback_complete = ''rollback_complete''"
| "CopyOnWriteMutationPhaseName CP_recovery_required = ''recovery_required''"
| "CopyOnWriteMutationPhaseName CP_unknown = ''unknown''"

fun CleanupHoldKindName :: "cleanup_hold_kind \<Rightarrow> string" where
  "CleanupHoldKindName CH_none = ''none''"
| "CleanupHoldKindName CH_oldest_interesting_transaction = ''oldest_interesting_transaction''"
| "CleanupHoldKindName CH_oldest_active_transaction = ''oldest_active_transaction''"
| "CleanupHoldKindName CH_oldest_snapshot_transaction = ''oldest_snapshot_transaction''"
| "CleanupHoldKindName CH_limbo_transaction = ''limbo_transaction''"
| "CleanupHoldKindName CH_recovery_required = ''recovery_required''"
| "CleanupHoldKindName CH_archive_required = ''archive_required''"
| "CleanupHoldKindName CH_backup_required = ''backup_required''"
| "CleanupHoldKindName CH_management_operation = ''management_operation''"
| "CleanupHoldKindName CH_legal_hold = ''legal_hold''"
| "CleanupHoldKindName CH_admin_hold = ''admin_hold''"
| "CleanupHoldKindName CH_unknown = ''unknown''"

fun CleanupEligibilityDecisionName :: "cleanup_eligibility_decision \<Rightarrow> string" where
  "CleanupEligibilityDecisionName CE_eligible_requires_authority = ''eligible_requires_authority''"
| "CleanupEligibilityDecisionName CE_eligible_authoritative = ''eligible_authoritative''"
| "CleanupEligibilityDecisionName CE_blocked_by_horizon = ''blocked_by_horizon''"
| "CleanupEligibilityDecisionName CE_blocked_by_limbo = ''blocked_by_limbo''"
| "CleanupEligibilityDecisionName CE_blocked_by_recovery = ''blocked_by_recovery''"
| "CleanupEligibilityDecisionName CE_blocked_by_archive_or_backup = ''blocked_by_archive_or_backup''"
| "CleanupEligibilityDecisionName CE_unknown = ''unknown''"

datatype cow_condition =
    Cow_invalid_kind | Cow_invalid_transaction_identity | Cow_invalid_row_identity
  | Cow_insert_has_base | Cow_base_required | Cow_invalid_base_sequence | Cow_invalid_new_sequence
  | Cow_nonincreasing_sequence | Cow_invalid_phase | Cow_invalid_row_state | Cow_evidence_required
  | Cow_illegal_transition | Cow_transaction_not_writable | Cow_invalid_row_metadata
  | Cow_read_only_transaction | Cow_cleanup_held | Cow_cleanup_authority_required

text \<open>The table \<^verbatim>\<open>kCowDiagnostics\<close>, indexed by the condition.\<close>

fun kCowDiagnostics :: "cow_condition \<Rightarrow> status_code \<times> string \<times> string" where
  "kCowDiagnostics Cow_invalid_kind =
    (SC_mga_cow_invalid_kind, ''MGA.COW.INVALID_KIND'', ''copy_on_write.invalid_kind'')"
| "kCowDiagnostics Cow_invalid_transaction_identity =
    (SC_mga_cow_invalid_transaction_identity, ''MGA.COW.INVALID_TRANSACTION_IDENTITY'',
     ''copy_on_write.invalid_transaction_identity'')"
| "kCowDiagnostics Cow_invalid_row_identity =
    (SC_mga_cow_invalid_row_identity, ''MGA.COW.INVALID_ROW_IDENTITY'', ''copy_on_write.invalid_row_identity'')"
| "kCowDiagnostics Cow_insert_has_base =
    (SC_mga_cow_insert_has_base, ''MGA.COW.INSERT_HAS_BASE'', ''copy_on_write.insert_has_base'')"
| "kCowDiagnostics Cow_base_required =
    (SC_mga_cow_base_required, ''MGA.COW.BASE_REQUIRED'', ''copy_on_write.base_required'')"
| "kCowDiagnostics Cow_invalid_base_sequence =
    (SC_mga_cow_invalid_base_sequence, ''MGA.COW.INVALID_BASE_SEQUENCE'', ''copy_on_write.invalid_base_sequence'')"
| "kCowDiagnostics Cow_invalid_new_sequence =
    (SC_mga_cow_invalid_new_sequence, ''MGA.COW.INVALID_NEW_SEQUENCE'', ''copy_on_write.invalid_new_sequence'')"
| "kCowDiagnostics Cow_nonincreasing_sequence =
    (SC_mga_cow_nonincreasing_sequence, ''MGA.COW.NONINCREASING_SEQUENCE'', ''copy_on_write.nonincreasing_sequence'')"
| "kCowDiagnostics Cow_invalid_phase =
    (SC_mga_cow_invalid_phase, ''MGA.COW.INVALID_PHASE'', ''copy_on_write.invalid_phase'')"
| "kCowDiagnostics Cow_invalid_row_state =
    (SC_mga_cow_invalid_row_state, ''MGA.COW.INVALID_ROW_STATE'', ''copy_on_write.invalid_row_state'')"
| "kCowDiagnostics Cow_evidence_required =
    (SC_mga_cow_evidence_required, ''MGA.COW.EVIDENCE_REQUIRED'', ''copy_on_write.evidence_required'')"
| "kCowDiagnostics Cow_illegal_transition =
    (SC_mga_cow_illegal_transition, ''MGA.COW.ILLEGAL_TRANSITION'', ''copy_on_write.illegal_transition'')"
| "kCowDiagnostics Cow_transaction_not_writable =
    (SC_mga_cow_transaction_not_writable, ''MGA.COW.TRANSACTION_NOT_WRITABLE'',
     ''copy_on_write.transaction_not_writable'')"
| "kCowDiagnostics Cow_invalid_row_metadata =
    (SC_mga_cow_invalid_row_metadata, ''MGA.COW.INVALID_ROW_METADATA'', ''copy_on_write.invalid_row_metadata'')"
| "kCowDiagnostics Cow_read_only_transaction =
    (SC_mga_cow_read_only_transaction, ''MGA.COW.READ_ONLY_TRANSACTION'', ''copy_on_write.read_only_transaction'')"
| "kCowDiagnostics Cow_cleanup_held = (SC_ok, ''MGA.COW.CLEANUP_HELD'', ''copy_on_write.cleanup_held'')"
| "kCowDiagnostics Cow_cleanup_authority_required =
    (SC_ok, ''MGA.COW.CLEANUP_AUTHORITY_REQUIRED'', ''copy_on_write.cleanup_authority_required'')"

text \<open>The status and the diagnostic that \<^verbatim>\<open>SetCowDiagnostic\<close> stores.\<close>

definition cow_condition_status :: "cow_condition \<Rightarrow> status" where
  "cow_condition_status c =
    (let code = fst (kCowDiagnostics c) in
     \<lparr>status_code = code, status_severity = (if code = SC_ok then Sev_info else Sev_error),
      status_subsystem = Sub_transaction_mga\<rparr>)"

definition cow_condition_diagnostic :: "cow_condition \<Rightarrow> string \<Rightarrow> diagnostic_record" where
  "cow_condition_diagnostic c detail =
    component_diagnostic ''transaction.mga.copy_on_write'' (cow_condition_status c)
      (fst (snd (kCowDiagnostics c))) (snd (snd (kCowDiagnostics c))) detail"

definition SetCowDiagnostic :: "cow_mutation_result \<Rightarrow> cow_condition \<Rightarrow> string \<Rightarrow> cow_mutation_result" where
  "SetCowDiagnostic r c detail =
    r\<lparr>cow_diagnostic := Some (cow_condition_diagnostic c detail), cow_status := cow_condition_status c\<rparr>"

section \<open>Mutations\<close>

fun IsLegalPhaseTransition :: "cow_mutation_phase \<Rightarrow> cow_mutation_phase \<Rightarrow> bool" where
  "IsLegalPhaseTransition CP_planned to \<longleftrightarrow>
    to = CP_base_version_locked \<or> to = CP_new_version_allocated \<or> to = CP_rollback_pending"
| "IsLegalPhaseTransition CP_base_version_locked to \<longleftrightarrow>
    to = CP_new_version_allocated \<or> to = CP_rollback_pending \<or> to = CP_recovery_required"
| "IsLegalPhaseTransition CP_new_version_allocated to \<longleftrightarrow>
    to = CP_payload_written_unpublished \<or> to = CP_rollback_pending \<or> to = CP_recovery_required"
| "IsLegalPhaseTransition CP_payload_written_unpublished to \<longleftrightarrow>
    to = CP_publish_pending_transaction \<or> to = CP_rollback_pending \<or> to = CP_recovery_required"
| "IsLegalPhaseTransition CP_publish_pending_transaction to \<longleftrightarrow>
    to = CP_published \<or> to = CP_rollback_pending \<or> to = CP_recovery_required"
| "IsLegalPhaseTransition CP_rollback_pending to \<longleftrightarrow> to = CP_rollback_complete \<or> to = CP_recovery_required"
| "IsLegalPhaseTransition CP_published to \<longleftrightarrow> False"
| "IsLegalPhaseTransition CP_rollback_complete to \<longleftrightarrow> False"
| "IsLegalPhaseTransition CP_recovery_required to \<longleftrightarrow> False"
| "IsLegalPhaseTransition CP_unknown to \<longleftrightarrow> False"

fun ResultingStateForMutation :: "cow_mutation_kind \<Rightarrow> row_version_state" where
  "ResultingStateForMutation CK_insert = RV_uncommitted"
| "ResultingStateForMutation CK_update = RV_uncommitted"
| "ResultingStateForMutation CK_system_catalog_update = RV_uncommitted"
| "ResultingStateForMutation CK_delete_row = RV_delete_marker"
| "ResultingStateForMutation CK_unknown = RV_unknown"

definition ValidateCopyOnWriteMutationState :: "cow_mutation_state \<Rightarrow> cow_mutation_result" where
  "ValidateCopyOnWriteMutationState m =
    (let i = cow_intent m;
         ok = \<lparr>cow_status = TransactionOkStatus, cow_mutation = m, cow_diagnostic = None\<rparr> in
     if cow_kind i = CK_unknown then SetCowDiagnostic ok Cow_invalid_kind ''''
     else if \<not> is_ok (ValidateTransactionIdentity (cow_transaction i)) \<or>
             (scope (cow_transaction i) \<noteq> Scope_local_node \<and> scope (cow_transaction i) \<noteq> Scope_cluster_global) then
       SetCowDiagnostic ok Cow_invalid_transaction_identity ''''
     else if \<not> is_ok (ValidateRowIdentity (cow_row i)) then SetCowDiagnostic ok Cow_invalid_row_identity ''''
     else if cow_kind i = CK_insert \<and> has_base_version i then SetCowDiagnostic ok Cow_insert_has_base ''''
     else if cow_kind i \<noteq> CK_insert \<and> \<not> has_base_version i then
       SetCowDiagnostic ok Cow_base_required (CopyOnWriteMutationKindName (cow_kind i))
     else if has_base_version i \<and> base_version_sequence i = kInvalidRowVersionSequence then
       SetCowDiagnostic ok Cow_invalid_base_sequence ''''
     else if new_version_sequence i = kInvalidRowVersionSequence then
       SetCowDiagnostic ok Cow_invalid_new_sequence ''''
     else if has_base_version i \<and> new_version_sequence i \<le> base_version_sequence i then
       SetCowDiagnostic ok Cow_nonincreasing_sequence ''''
     else if cow_phase m = CP_unknown then SetCowDiagnostic ok Cow_invalid_phase ''''
     else if resulting_row_state m = RV_unknown then SetCowDiagnostic ok Cow_invalid_row_state ''''
     else if cow_evidence_record_required m \<and> cow_phase m = CP_published \<and> \<not> cow_evidence_record_written m then
       SetCowDiagnostic ok Cow_evidence_required ''''
     else ok)"

definition PlanCopyOnWriteMutation :: "cow_mutation_intent \<Rightarrow> cow_mutation_result" where
  "PlanCopyOnWriteMutation i =
    ValidateCopyOnWriteMutationState
      \<lparr>cow_intent = i, cow_phase = CP_planned, resulting_row_state = ResultingStateForMutation (cow_kind i),
       cow_evidence_record_required = True, cow_evidence_record_written = False\<rparr>"

text \<open>The left injection is the refusal, with the condition's diagnostic.\<close>

definition ValidateCopyOnWriteTransactionState :: "transaction_inventory_entry \<Rightarrow> unit result" where
  "ValidateCopyOnWriteTransactionState e =
    (if entry_state e = TS_read_only_active then
       Inl (cow_condition_diagnostic Cow_read_only_transaction '''')
     else if entry_state e \<noteq> TS_active \<or> rollback_only e then
       Inl (cow_condition_diagnostic Cow_transaction_not_writable (TransactionStateName (entry_state e)))
     else Inr ())"

definition PlanLocalCopyOnWriteMutationForTransaction ::
  "transaction_inventory_entry \<Rightarrow> row_identity \<Rightarrow> cow_mutation_kind \<Rightarrow> u64 \<Rightarrow> u64 \<Rightarrow> cow_mutation_result" where
  "PlanLocalCopyOnWriteMutationForTransaction e row kind base new =
    (case ValidateCopyOnWriteTransactionState e of
       Inl d \<Rightarrow> \<lparr>cow_status = diag_status d, cow_mutation = default_cow_mutation, cow_diagnostic = Some d\<rparr>
     | Inr _ \<Rightarrow> PlanCopyOnWriteMutation
         \<lparr>cow_kind = kind, cow_transaction = identity e, cow_row = row, base_version_sequence = base,
          new_version_sequence = new, has_base_version = (kind \<noteq> CK_insert),
          payload_required = (kind \<noteq> CK_delete_row),
          system_catalog_mutation = (kind = CK_system_catalog_update)\<rparr>)"

definition AdvanceCopyOnWriteMutationPhase ::
  "cow_mutation_state \<Rightarrow> cow_mutation_phase \<Rightarrow> cow_mutation_result" where
  "AdvanceCopyOnWriteMutationPhase m next_phase =
    (let validation = ValidateCopyOnWriteMutationState m in
     if \<not> cow_ok validation then validation
     else if \<not> IsLegalPhaseTransition (cow_phase m) next_phase then
       SetCowDiagnostic validation Cow_illegal_transition
         (CopyOnWriteMutationPhaseName (cow_phase m) @ ''->'' @ CopyOnWriteMutationPhaseName next_phase)
     else
       let advanced = ValidateCopyOnWriteMutationState (m\<lparr>cow_phase := next_phase\<rparr>) in
       if \<not> cow_ok advanced then
         validation\<lparr>cow_status := cow_status advanced, cow_diagnostic := cow_diagnostic advanced\<rparr>
       else advanced)"

section \<open>Cleanup eligibility\<close>

definition BlockedCleanup ::
  "cleanup_eligibility_decision \<Rightarrow> cleanup_hold_kind \<Rightarrow> string \<Rightarrow> cleanup_eligibility_result" where
  "BlockedCleanup d k detail =
    \<lparr>eligibility_status = cow_condition_status Cow_cleanup_held, eligibility_decision = d,
     eligibility_blocking_hold = k,
     eligibility_diagnostic = Some (cow_condition_diagnostic Cow_cleanup_held detail)\<rparr>"

text \<open>The switch on the kind of a hold that covers the version.\<close>

fun hold_decision :: "cleanup_hold_kind \<Rightarrow> cleanup_eligibility_decision" where
  "hold_decision CH_limbo_transaction = CE_blocked_by_limbo"
| "hold_decision CH_recovery_required = CE_blocked_by_recovery"
| "hold_decision CH_archive_required = CE_blocked_by_archive_or_backup"
| "hold_decision CH_backup_required = CE_blocked_by_archive_or_backup"
| "hold_decision CH_legal_hold = CE_blocked_by_horizon"
| "hold_decision CH_admin_hold = CE_blocked_by_horizon"
| "hold_decision CH_none = CE_blocked_by_horizon"
| "hold_decision CH_oldest_interesting_transaction = CE_blocked_by_horizon"
| "hold_decision CH_oldest_active_transaction = CE_blocked_by_horizon"
| "hold_decision CH_oldest_snapshot_transaction = CE_blocked_by_horizon"
| "hold_decision CH_management_operation = CE_blocked_by_horizon"
| "hold_decision CH_unknown = CE_blocked_by_horizon"

text \<open>The loop over the horizons: the first one that blocks.\<close>

fun first_block :: "row_version_metadata \<Rightarrow> cleanup_horizon list \<Rightarrow> cleanup_eligibility_result option" where
  "first_block m [] = None"
| "first_block m (h # hs) =
    (if hold_kind h = CH_unknown then Some (BlockedCleanup CE_blocked_by_horizon CH_unknown ''unknown_hold_kind'')
     else if \<not> horizon_authoritative h then
       Some (BlockedCleanup CE_blocked_by_horizon (hold_kind h) ''non_authoritative_horizon'')
     else if \<not> local_id_valid (horizon_transaction h) then
       Some (BlockedCleanup CE_blocked_by_horizon (hold_kind h) ''invalid_horizon'')
     else if horizon_transaction h \<le> creator_id m then
       Some (BlockedCleanup (hold_decision (hold_kind h)) (hold_kind h) (CleanupHoldKindName (hold_kind h)))
     else first_block m hs)"

definition EvaluateCleanupEligibility ::
  "row_version_metadata \<Rightarrow> cleanup_horizon list \<Rightarrow> cleanup_eligibility_result" where
  "EvaluateCleanupEligibility m hs =
    (if \<not> is_ok (ValidateRowVersionMetadata m) \<or>
        (scope (creator_transaction (version_identity m)) \<noteq> Scope_local_node \<and>
         scope (creator_transaction (version_identity m)) \<noteq> Scope_cluster_global) then
       \<lparr>eligibility_status = cow_condition_status Cow_invalid_row_metadata, eligibility_decision = CE_unknown,
        eligibility_blocking_hold = CH_unknown,
        eligibility_diagnostic = Some (cow_condition_diagnostic Cow_invalid_row_metadata '''')\<rparr>
     else if version_state m = RV_limbo then
       BlockedCleanup CE_blocked_by_limbo CH_limbo_transaction (RowVersionStateName (version_state m))
     else if version_state m = RV_recovery_required then
       BlockedCleanup CE_blocked_by_recovery CH_recovery_required (RowVersionStateName (version_state m))
     else case first_block m hs of
       Some r \<Rightarrow> r
     | None \<Rightarrow>
         \<lparr>eligibility_status = cow_condition_status Cow_cleanup_authority_required,
          eligibility_decision = CE_eligible_requires_authority, eligibility_blocking_hold = CH_none,
          eligibility_diagnostic = Some (cow_condition_diagnostic Cow_cleanup_authority_required '''')\<rparr>)"

section \<open>Lemmas\<close>

lemma cow_condition_fails:
  "status_ok (cow_condition_status c) \<longleftrightarrow> c = Cow_cleanup_held \<or> c = Cow_cleanup_authority_required"
  by (cases c) (simp_all add: cow_condition_status_def status_ok_def Let_def)

lemma SetCowDiagnostic_fields [simp]:
  "cow_ok (SetCowDiagnostic r c d) \<longleftrightarrow> c = Cow_cleanup_held \<or> c = Cow_cleanup_authority_required"
  "cow_mutation (SetCowDiagnostic r c d) = cow_mutation r"
  by (simp_all add: SetCowDiagnostic_def cow_ok_def cow_condition_fails)

text \<open>The operands of a mutation, as the validation accepts them.\<close>

definition cow_intent_ok :: "cow_mutation_intent \<Rightarrow> bool" where
  "cow_intent_ok i \<longleftrightarrow> cow_kind i \<noteq> CK_unknown \<and> is_ok (ValidateTransactionIdentity (cow_transaction i)) \<and>
    scope (cow_transaction i) \<noteq> Scope_unknown \<and> is_ok (ValidateRowIdentity (cow_row i)) \<and>
    (has_base_version i \<longleftrightarrow> cow_kind i \<noteq> CK_insert) \<and> new_version_sequence i \<noteq> 0 \<and>
    (has_base_version i \<longrightarrow> base_version_sequence i \<noteq> 0 \<and> base_version_sequence i < new_version_sequence i)"

definition cow_state_ok :: "cow_mutation_state \<Rightarrow> bool" where
  "cow_state_ok m \<longleftrightarrow> cow_intent_ok (cow_intent m) \<and> cow_phase m \<noteq> CP_unknown \<and>
    resulting_row_state m \<noteq> RV_unknown \<and>
    (cow_evidence_record_required m \<and> cow_phase m = CP_published \<longrightarrow> cow_evidence_record_written m)"

lemma Validate_mutation [simp]: "cow_mutation (ValidateCopyOnWriteMutationState m) = m"
  by (simp add: ValidateCopyOnWriteMutationState_def Let_def)

lemma scope_unknown_iff:
  "s \<noteq> Scope_local_node \<and> s \<noteq> Scope_cluster_global \<longleftrightarrow> s = Scope_unknown"
  by (cases s) auto

lemma Validate_cow_ok: "cow_ok (ValidateCopyOnWriteMutationState m) \<longleftrightarrow> cow_state_ok m"
proof -
  have *: "cow_ok (if c then SetCowDiagnostic r x d else y) \<longleftrightarrow> \<not> c \<and> cow_ok y"
    if "x \<noteq> Cow_cleanup_held" "x \<noteq> Cow_cleanup_authority_required" for c r x d y
    using that by simp
  have "cow_ok \<lparr>cow_status = TransactionOkStatus, cow_mutation = m, cow_diagnostic = None\<rparr>"
    by (simp add: cow_ok_def TransactionOkStatus_def status_ok_def)
  then show ?thesis
    unfolding ValidateCopyOnWriteMutationState_def Let_def
    by (simp add: * scope_unknown_iff cow_state_ok_def cow_intent_ok_def kInvalidRowVersionSequence_def
        not_le del: SetCowDiagnostic_fields) argo
qed

lemma Advance_ok:
  "cow_ok (AdvanceCopyOnWriteMutationPhase m p) \<longleftrightarrow>
    cow_state_ok m \<and> IsLegalPhaseTransition (cow_phase m) p \<and> cow_state_ok (m\<lparr>cow_phase := p\<rparr>)"
proof (cases "cow_ok (ValidateCopyOnWriteMutationState (m\<lparr>cow_phase := p\<rparr>))")
  case True
  then show ?thesis
    by (auto simp: AdvanceCopyOnWriteMutationPhase_def Let_def Validate_cow_ok)
next
  case False
  then have "\<not> cow_ok (r\<lparr>cow_status := cow_status (ValidateCopyOnWriteMutationState (m\<lparr>cow_phase := p\<rparr>)),
      cow_diagnostic := d\<rparr>)" for r d
    by (simp add: cow_ok_def)
  with False show ?thesis
    by (auto simp: AdvanceCopyOnWriteMutationPhase_def Let_def Validate_cow_ok)
qed

lemma Advance_mutation:
  "cow_mutation (AdvanceCopyOnWriteMutationPhase m p) =
    (if cow_ok (AdvanceCopyOnWriteMutationPhase m p) then m\<lparr>cow_phase := p\<rparr> else m)"
proof (cases "cow_state_ok m \<and> IsLegalPhaseTransition (cow_phase m) p \<and> cow_state_ok (m\<lparr>cow_phase := p\<rparr>)")
  case True
  then show ?thesis by (simp add: Advance_ok) (simp add: AdvanceCopyOnWriteMutationPhase_def Let_def Validate_cow_ok)
next
  case False
  then show ?thesis by (auto simp: Advance_ok) (auto simp: AdvanceCopyOnWriteMutationPhase_def Let_def Validate_cow_ok)
qed

text \<open>
  The life of a mutation: planned, then advanced phase by phase, its evidence record written at any
  point by the owner of the mutation. The list holds the phases in the order they were entered.
\<close>

inductive cow_history :: "cow_mutation_intent \<Rightarrow> cow_mutation_phase list \<Rightarrow> cow_mutation_state \<Rightarrow> bool"
  for i :: cow_mutation_intent where
  history_plan: "PlanCopyOnWriteMutation i = r \<Longrightarrow> cow_ok r \<Longrightarrow> cow_history i [CP_planned] (cow_mutation r)"
| history_advance: "cow_history i ps m \<Longrightarrow> AdvanceCopyOnWriteMutationPhase m p = r \<Longrightarrow> cow_ok r \<Longrightarrow>
    cow_history i (ps @ [p]) (cow_mutation r)"
| history_evidence: "cow_history i ps m \<Longrightarrow> cow_history i ps (m\<lparr>cow_evidence_record_written := True\<rparr>)"

text \<open>The ways to reach a phase on the path to publication.\<close>

definition allocated_histories :: "cow_mutation_phase list list" where
  "allocated_histories =
    [[CP_planned, CP_new_version_allocated], [CP_planned, CP_base_version_locked, CP_new_version_allocated]]"

fun forward_history :: "cow_mutation_phase \<Rightarrow> cow_mutation_phase list \<Rightarrow> bool" where
  "forward_history CP_planned ps \<longleftrightarrow> ps = [CP_planned]"
| "forward_history CP_base_version_locked ps \<longleftrightarrow> ps = [CP_planned, CP_base_version_locked]"
| "forward_history CP_new_version_allocated ps \<longleftrightarrow> ps \<in> set allocated_histories"
| "forward_history CP_payload_written_unpublished ps \<longleftrightarrow>
    (\<exists>qs \<in> set allocated_histories. ps = qs @ [CP_payload_written_unpublished])"
| "forward_history CP_publish_pending_transaction ps \<longleftrightarrow>
    (\<exists>qs \<in> set allocated_histories. ps = qs @ [CP_payload_written_unpublished, CP_publish_pending_transaction])"
| "forward_history CP_published ps \<longleftrightarrow>
    (\<exists>qs \<in> set allocated_histories.
       ps = qs @ [CP_payload_written_unpublished, CP_publish_pending_transaction, CP_published])"
| "forward_history _ ps \<longleftrightarrow> True"

lemma forward_history_step:
  "forward_history p ps \<Longrightarrow> IsLegalPhaseTransition p q \<Longrightarrow> forward_history q (ps @ [q])"
  by (cases p) (auto simp: allocated_histories_def)

lemma cow_history_inv:
  assumes "cow_history i ps m"
  shows "cow_state_ok m \<and> cow_intent m = i \<and> cow_evidence_record_required m \<and>
    resulting_row_state m = ResultingStateForMutation (cow_kind i) \<and> forward_history (cow_phase m) ps"
  using assms
proof induction
  case (history_plan r)
  then show ?case by (auto simp: PlanCopyOnWriteMutation_def Validate_cow_ok)
next
  case (history_advance ps m p r)
  then have "cow_state_ok (m\<lparr>cow_phase := p\<rparr>)" "IsLegalPhaseTransition (cow_phase m) p"
    "cow_mutation r = m\<lparr>cow_phase := p\<rparr>" by (auto simp: Advance_ok Advance_mutation)
  with history_advance.IH forward_history_step show ?case by auto
next
  case (history_evidence ps m)
  then show ?case by (auto simp: cow_state_ok_def)
qed

lemma BlockedCleanup_decision [simp]: "eligibility_decision (BlockedCleanup d k s) = d"
  by (simp add: BlockedCleanup_def)

lemma hold_decision_blocks: "hold_decision k \<noteq> CE_eligible_requires_authority" "hold_decision k \<noteq> CE_eligible_authoritative"
  by (cases k; simp)+

lemma first_block_None:
  "first_block m hs = None \<longleftrightarrow>
    (\<forall>h \<in> set hs. hold_kind h \<noteq> CH_unknown \<and> horizon_authoritative h \<and> creator_id m < horizon_transaction h)"
  by (induction hs) (auto simp: local_id_valid_def kInvalidLocalTransactionId_def not_le)

lemma first_block_Some:
  "first_block m hs = Some r \<Longrightarrow> eligibility_decision r \<noteq> CE_eligible_requires_authority \<and>
    eligibility_decision r \<noteq> CE_eligible_authoritative"
  by (induction hs) (auto simp: hold_decision_blocks split: if_splits)

section \<open>Sample data\<close>

definition sample_cow_intent :: cow_mutation_intent where
  "sample_cow_intent =
    \<lparr>cow_kind = CK_update, cow_transaction = identity (sample_entry 3 3 TS_active 1 0),
     cow_row = \<lparr>uuid_kind = UK_row, uuid_value = sample_uuid 100\<rparr>, base_version_sequence = 7,
     new_version_sequence = 8, has_base_version = True, payload_required = True,
     system_catalog_mutation = False\<rparr>"

text \<open>A sequence of calls of \<^verbatim>\<open>AdvanceCopyOnWriteMutationPhase\<close> that all succeed.\<close>

fun advance_all :: "cow_mutation_phase list \<Rightarrow> cow_mutation_state \<Rightarrow> cow_mutation_state option" where
  "advance_all [] m = Some m"
| "advance_all (p # ps) m =
    (let r = AdvanceCopyOnWriteMutationPhase m p in if cow_ok r then advance_all ps (cow_mutation r) else None)"

lemma history_advance_all:
  "advance_all qs m = Some m' \<Longrightarrow> cow_history i ps m \<Longrightarrow> cow_history i (ps @ qs) m'"
proof (induction qs arbitrary: m ps)
  case (Cons q qs)
  from Cons.prems have "cow_ok (AdvanceCopyOnWriteMutationPhase m q)"
    and "advance_all qs (cow_mutation (AdvanceCopyOnWriteMutationPhase m q)) = Some m'"
    by (auto simp: Let_def split: if_splits)
  from Cons.IH [OF this(2) history_advance [OF Cons.prems(2) refl this(1)]] show ?case by simp
qed simp

section \<open>Properties\<close>

text \<open>
  C30. How a mutation gets published. Whatever calls a caller makes, a mutation that reached the
  published phase was planned, took the base version or not, allocated its new version, wrote the
  payload and waited for the transaction, in this order and with nothing in between; its evidence
  record is written, its operands are the planned ones, and an update has a base version with a
  smaller sequence number.
\<close>

theorem publication_history:
  assumes "cow_history i ps m" "cow_phase m = CP_published"
  shows "(ps = [CP_planned, CP_new_version_allocated, CP_payload_written_unpublished,
             CP_publish_pending_transaction, CP_published] \<or>
     ps = [CP_planned, CP_base_version_locked, CP_new_version_allocated, CP_payload_written_unpublished,
             CP_publish_pending_transaction, CP_published]) \<and>
    cow_evidence_record_written m \<and> cow_intent m = i \<and>
    resulting_row_state m = ResultingStateForMutation (cow_kind i) \<and>
    (cow_kind i \<noteq> CK_insert \<longrightarrow> base_version_sequence i < new_version_sequence i)"
proof -
  note inv = cow_history_inv [OF assms(1)]
  then have "forward_history CP_published ps" using assms(2) by metis
  then have "ps = [CP_planned, CP_new_version_allocated, CP_payload_written_unpublished,
        CP_publish_pending_transaction, CP_published] \<or>
      ps = [CP_planned, CP_base_version_locked, CP_new_version_allocated, CP_payload_written_unpublished,
        CP_publish_pending_transaction, CP_published]"
    by (simp add: allocated_histories_def)
  moreover have "cow_evidence_record_written m" "cow_kind i \<noteq> CK_insert \<longrightarrow> base_version_sequence i < new_version_sequence i"
    using inv assms(2) by (auto simp: cow_state_ok_def cow_intent_ok_def)
  ultimately show ?thesis using inv by blast
qed

theorem publication_history_witness:
  "\<exists>m ps. cow_history sample_cow_intent ps m \<and> cow_phase m = CP_published \<and>
     ps = [CP_planned, CP_base_version_locked, CP_new_version_allocated, CP_payload_written_unpublished,
           CP_publish_pending_transaction, CP_published] \<and> cow_evidence_record_written m"
proof -
  define m0 where "m0 = (cow_mutation (PlanCopyOnWriteMutation sample_cow_intent))\<lparr>cow_evidence_record_written := True\<rparr>"
  define qs where "qs = [CP_base_version_locked, CP_new_version_allocated, CP_payload_written_unpublished,
    CP_publish_pending_transaction, CP_published]"
  have "cow_ok (PlanCopyOnWriteMutation sample_cow_intent)" by code_simp
  then have h0: "cow_history sample_cow_intent [CP_planned] m0"
    unfolding m0_def by (intro history_evidence history_plan) simp_all
  have "map_option cow_phase (advance_all qs m0) = Some CP_published" unfolding m0_def qs_def by code_simp
  then obtain m where m: "advance_all qs m0 = Some m" and p: "cow_phase m = CP_published" by auto
  have h: "cow_history sample_cow_intent (CP_planned # qs) m" using history_advance_all [OF m h0] by simp
  from publication_history [OF h p] h p show ?thesis by (auto simp: qs_def)
qed

text \<open>
  The cleanup assessment. It answers eligible exactly when the metadata is valid, the version is
  neither in limbo nor in recovery, and every horizon of the list is of a known kind, authoritative
  and above the creator; the answer is only ever eligible subject to authority, never permission.
\<close>

lemma cleanup_eligibility_rule:
  "(eligibility_decision (EvaluateCleanupEligibility m hs) = CE_eligible_requires_authority \<longleftrightarrow>
     is_ok (ValidateRowVersionMetadata m) \<and> scope (creator_transaction (version_identity m)) \<noteq> Scope_unknown \<and>
     version_state m \<noteq> RV_limbo \<and> version_state m \<noteq> RV_recovery_required \<and>
     list_all (\<lambda>h. hold_kind h \<noteq> CH_unknown \<and> horizon_authoritative h \<and> creator_id m < horizon_transaction h) hs) \<and>
   eligibility_decision (EvaluateCleanupEligibility m hs) \<noteq> CE_eligible_authoritative"
proof (cases "first_block m hs")
  case None
  with first_block_None [of m hs] show ?thesis
    by (simp add: EvaluateCleanupEligibility_def scope_unknown_iff list_all_iff)
next
  case (Some r)
  with first_block_None [of m hs] first_block_Some [OF Some] show ?thesis
    by (simp add: EvaluateCleanupEligibility_def scope_unknown_iff list_all_iff)
qed

end
