(* ===== verification/InventoryEvolution.thy ===== *)
theory InventoryEvolution
  imports TransactionInventory
begin

text \<open>
  The successor check of \<^verbatim>\<open>transaction_inventory_validation.hpp\<close>: an inventory may replace another
  only if identities, begin facts, evidence and outcomes survive and every state change follows the
  transition table. The lemmas show that the closure the code computes is reachability in the
  table, and that the check accepts the result of every inventory operation.
\<close>

section \<open>The closure of the transition table\<close>

text \<open>
  The code's array of arrays of \<^verbatim>\<open>bool\<close>, as a function of the two states; the three nested loops
  update it in place.
\<close>

type_synonym state_paths = "transaction_state \<Rightarrow> transaction_state \<Rightarrow> bool"

definition all_states :: "transaction_state list" where
  "all_states = [TS_none, TS_created, TS_active, TS_preparing, TS_prepared, TS_committing,
    TS_committed, TS_rolling_back, TS_rolled_back, TS_limbo, TS_recovering, TS_failed_terminal,
    TS_archived, TS_read_only_active]"

definition set_path :: "transaction_state \<Rightarrow> transaction_state \<Rightarrow> bool \<Rightarrow> state_paths \<Rightarrow> state_paths" where
  "set_path i j b p = p(i := (p i)(j := b))"

definition direct_paths :: state_paths where
  "direct_paths =
    fold (\<lambda>t. set_path (tr_from t) (tr_to t) True) BuiltinTransactionStateTransitionView
      (fold (\<lambda>i. set_path i i True) all_states (\<lambda>_ _. False))"

definition relax :: "transaction_state \<Rightarrow> transaction_state \<Rightarrow> transaction_state \<Rightarrow> state_paths \<Rightarrow> state_paths" where
  "relax k i j p = set_path i j (p i j \<or> (p i k \<and> p k j)) p"

definition reachable :: state_paths where
  "reachable =
    fold (\<lambda>k. fold (\<lambda>i. fold (\<lambda>j. relax k i j) all_states) all_states) all_states direct_paths"

section \<open>The check\<close>

text \<open>
  The loop of \<^verbatim>\<open>detail::ValidateInventoryEvolutionValues\<close> over the entries of the successor.
  \<open>olds\<close> is the code's map \<^verbatim>\<open>old_entries\<close> from local numbers to the predecessor's entries, from which
  each retained entry is erased; what is left at the end was removed.
\<close>

definition begin_changed :: "transaction_inventory_entry \<Rightarrow> transaction_inventory_entry \<Rightarrow> bool" where
  "begin_changed old e \<longleftrightarrow>
    begin_unix_epoch_millis old \<noteq> begin_unix_epoch_millis e \<or>
    begin_visible_through_local_transaction_id old \<noteq> begin_visible_through_local_transaction_id e \<or>
    begin_visible_through_commit_sequence old \<noteq> begin_visible_through_commit_sequence e \<or>
    stable_snapshot old \<noteq> stable_snapshot e"

definition unresolved :: "transaction_inventory_entry \<Rightarrow> bool" where
  "unresolved e \<longleftrightarrow> InventoryVisibilityState e \<noteq> TS_committed \<and> InventoryVisibilityState e \<noteq> TS_rolled_back"

fun ValidateInventoryEvolutionEntries ::
  "local_transaction_inventory \<Rightarrow> transaction_inventory_entry list \<Rightarrow> transaction_inventory_entry list \<Rightarrow> string" where
  "ValidateInventoryEvolutionEntries before olds [] =
    (if list_ex unresolved olds then ''unresolved_transaction_removed'' else '''')"
| "ValidateInventoryEvolutionEntries before olds (e # es) =
    (case find (\<lambda>o'. entry_id o' = entry_id e) olds of
       None \<Rightarrow>
         if entry_id e < next_local_transaction_id before then ''local_number_reused''
         else if list_ex (\<lambda>o'. entry_uuid o' = entry_uuid e) (entries before) then ''transaction_uuid_reused''
         else if HasCommittedInventoryOutcome e \<and> commit_sequence e < next_commit_sequence before
           then ''commit_sequence_reused''
         else ValidateInventoryEvolutionEntries before olds es
     | Some old \<Rightarrow>
         if entry_uuid old \<noteq> entry_uuid e \<or> scope (identity old) \<noteq> scope (identity e)
           then ''transaction_identity_changed''
         else if begin_changed old e then ''transaction_begin_changed''
         else if (evidence_record_required old \<and> \<not> evidence_record_required e) \<or>
                 (evidence_record_written old \<and> \<not> evidence_record_written e)
           then ''transaction_evidence_regressed''
         else if IsTerminalTransactionState (InventoryVisibilityState old) \<and>
                 (InventoryVisibilityState old \<noteq> InventoryVisibilityState e \<or>
                  final_unix_epoch_millis old \<noteq> final_unix_epoch_millis e \<or>
                  commit_sequence old \<noteq> commit_sequence e)
           then ''transaction_finality_changed''
         else if \<not> reachable (entry_state old) (entry_state e) \<or>
                 (entry_state e = TS_archived \<and> entry_state old \<noteq> TS_archived \<and>
                  \<not> reachable (entry_state old) (InventoryVisibilityState e))
           then ''transaction_state_regressed''
         else if \<not> HasCommittedInventoryOutcome old \<and> HasCommittedInventoryOutcome e \<and>
                 commit_sequence e < next_commit_sequence before
           then ''commit_sequence_reused''
         else ValidateInventoryEvolutionEntries before
                (filter (\<lambda>o'. entry_id o' \<noteq> entry_id old) olds) es)"

definition ValidateInventoryEvolutionValues ::
  "local_transaction_inventory \<Rightarrow> local_transaction_inventory \<Rightarrow> string" where
  "ValidateInventoryEvolutionValues before after =
    (if next_local_transaction_id after < next_local_transaction_id before \<or>
        next_commit_sequence after < next_commit_sequence before then ''counter_regression''
     else ValidateInventoryEvolutionEntries before (entries before) (entries after))"

definition ValidateLocalTransactionInventoryEvolution ::
  "local_transaction_inventory \<Rightarrow> local_transaction_inventory \<Rightarrow> string" where
  "ValidateLocalTransactionInventoryEvolution before after =
    (if ValidateLocalTransactionInventoryStructure before \<noteq> ''''
       then ValidateLocalTransactionInventoryStructure before
     else if ValidateLocalTransactionInventoryStructure after \<noteq> ''''
       then ValidateLocalTransactionInventoryStructure after
     else if next_local_transaction_id after < next_local_transaction_id before \<or>
             next_commit_sequence after < next_commit_sequence before then ''counter_regression''
     else ValidateInventoryEvolutionValues before after)"

section \<open>The closure is reachability\<close>

lemma set_path_apply: "set_path i j b p x y = (if x = i \<and> y = j then b else p x y)"
  by (simp add: set_path_def)

lemma set_all_states: "set all_states = UNIV"
proof -
  have "s \<in> set all_states" for s by (cases s) (simp_all add: all_states_def)
  then show ?thesis by auto
qed

lemma relax_row:
  "fold (\<lambda>j. relax k i j) js p x y \<longleftrightarrow> p x y \<or> (x = i \<and> y \<in> set js \<and> p i k \<and> p k y)"
proof (induction js arbitrary: p)
  case Nil
  show ?case by simp
next
  case (Cons j js)
  have "relax k i j p x y \<longleftrightarrow> p x y \<or> (x = i \<and> y = j \<and> p i k \<and> p k j)" for x y
    by (auto simp: relax_def set_path_apply)
  then show ?case by (auto simp: Cons.IH)
qed

lemma relax_block:
  "fold (\<lambda>i. fold (\<lambda>j. relax k i j) js) is p x y \<longleftrightarrow>
    p x y \<or> (x \<in> set is \<and> y \<in> set js \<and> p x k \<and> p k y)"
proof (induction "is" arbitrary: p)
  case Nil
  show ?case by simp
next
  case (Cons i "is")
  have "fold (\<lambda>i. fold (\<lambda>j. relax k i j) js) (i # is) p x y \<longleftrightarrow>
      (let q = fold (\<lambda>j. relax k i j) js p in q x y \<or> (x \<in> set is \<and> y \<in> set js \<and> q x k \<and> q k y))"
    unfolding fold.simps o_apply Cons.IH Let_def ..
  also have "\<dots> \<longleftrightarrow> p x y \<or> (x \<in> set (i # is) \<and> y \<in> set js \<and> p x k \<and> p k y)"
    by (auto simp: Let_def relax_row)
  finally show ?case .
qed

lemma closure_round:
  "fold (\<lambda>i. fold (\<lambda>j. relax k i j) all_states) all_states p x y \<longleftrightarrow> p x y \<or> (p x k \<and> p k y)"
  by (simp add: relax_block set_all_states)

abbreviation closure_rounds :: "transaction_state list \<Rightarrow> state_paths \<Rightarrow> state_paths" where
  "closure_rounds ks \<equiv> fold (\<lambda>k. fold (\<lambda>i. fold (\<lambda>j. relax k i j) all_states) all_states) ks"

lemma closure_rounds_mono: "p x y \<Longrightarrow> closure_rounds ks p x y"
  by (induction ks arbitrary: p) (auto simp: closure_round)

lemma closure_rounds_sound:
  "closure_rounds ks p x y \<Longrightarrow> (\<And>x y. p x y \<Longrightarrow> r\<^sup>*\<^sup>* x y) \<Longrightarrow> r\<^sup>*\<^sup>* x y"
proof (induction ks arbitrary: p x y)
  case Nil
  then show ?case by simp
next
  case (Cons k ks)
  show ?case
  proof (rule Cons.IH)
    show "closure_rounds ks (fold (\<lambda>i. fold (\<lambda>j. relax k i j) all_states) all_states p) x y"
      using Cons.prems(1) by simp
    fix u v
    assume "fold (\<lambda>i. fold (\<lambda>j. relax k i j) all_states) all_states p u v"
    then show "r\<^sup>*\<^sup>* u v"
      using Cons.prems(2) by (auto simp: closure_round intro: rtranclp_trans)
  qed
qed

lemma closure_rounds_trans:
  assumes "\<And>k x y. k \<in> K \<Longrightarrow> p x k \<Longrightarrow> p k y \<Longrightarrow> p x y"
  shows "k \<in> K \<union> set ks \<Longrightarrow> closure_rounds ks p x k \<Longrightarrow> closure_rounds ks p k y \<Longrightarrow> closure_rounds ks p x y"
  using assms
proof (induction ks arbitrary: p K k x y)
  case Nil
  then show ?case by auto
next
  case (Cons a ks)
  let ?q = "fold (\<lambda>i. fold (\<lambda>j. relax a i j) all_states) all_states p"
  have "?q x y" if "k \<in> insert a K" "?q x k" "?q k y" for k x y
    using that Cons.prems(4) unfolding closure_round by blast
  from Cons.IH [of k "insert a K" ?q x y, OF _ _ _ this] Cons.prems(1-3)
  show ?case by simp
qed

lemma direct_paths_iff: "direct_paths s t \<longleftrightarrow> s = t \<or> edge True s t"
proof -
  have rows: "fold (\<lambda>t. set_path (tr_from t) (tr_to t) True) ts p s t \<longleftrightarrow>
      p s t \<or> (\<exists>r \<in> set ts. tr_from r = s \<and> tr_to r = t)" for ts p
    by (induction ts arbitrary: p) (auto simp: set_path_apply)
  have diag: "fold (\<lambda>i. set_path i i True) ss p s t \<longleftrightarrow> p s t \<or> (s = t \<and> s \<in> set ss)" for ss p
    by (induction ss arbitrary: p) (auto simp: set_path_apply)
  have "edge True s t \<longleftrightarrow> (\<exists>r \<in> set BuiltinTransactionStateTransitionView. tr_from r = s \<and> tr_to r = t)"
    by (auto simp: edge_def CheckTransactionStateTransition_def is_ok_def find_None_all
        dest!: find_Some_mem split: option.splits)
  then show ?thesis by (auto simp: direct_paths_def rows diag set_all_states)
qed

lemma reachable_iff: "reachable s t \<longleftrightarrow> (edge True)\<^sup>*\<^sup>* s t"
proof
  assume "reachable s t"
  then show "(edge True)\<^sup>*\<^sup>* s t"
    unfolding reachable_def
    by (rule closure_rounds_sound) (auto simp: direct_paths_iff)
next
  have tr: "reachable x y \<Longrightarrow> reachable y z \<Longrightarrow> reachable x z" for x y z
    unfolding reachable_def
    by (rule closure_rounds_trans [of "{}" direct_paths y all_states x z]) (simp_all add: set_all_states)
  have base: "reachable x y" if "x = y \<or> edge True x y" for x y
    unfolding reachable_def by (rule closure_rounds_mono) (use that in \<open>simp add: direct_paths_iff\<close>)
  assume "(edge True)\<^sup>*\<^sup>* s t"
  then show "reachable s t"
    by (induction rule: rtranclp_induct) (auto intro: base tr)
qed

section \<open>What the check accepts\<close>

text \<open>The conditions on a new entry and on a retained one, as the code's early returns negate them.\<close>

definition fresh_ok :: "local_transaction_inventory \<Rightarrow> transaction_inventory_entry \<Rightarrow> bool" where
  "fresh_ok before e \<longleftrightarrow>
    next_local_transaction_id before \<le> entry_id e \<and>
    entry_uuid e \<notin> entry_uuid ` set (entries before) \<and>
    (HasCommittedInventoryOutcome e \<longrightarrow> next_commit_sequence before \<le> commit_sequence e)"

definition retained_ok ::
  "local_transaction_inventory \<Rightarrow> transaction_inventory_entry \<Rightarrow> transaction_inventory_entry \<Rightarrow> bool" where
  "retained_ok before old e \<longleftrightarrow>
    entry_uuid old = entry_uuid e \<and> scope (identity old) = scope (identity e) \<and>
    \<not> begin_changed old e \<and>
    (evidence_record_required old \<longrightarrow> evidence_record_required e) \<and>
    (evidence_record_written old \<longrightarrow> evidence_record_written e) \<and>
    (IsTerminalTransactionState (InventoryVisibilityState old) \<longrightarrow>
       InventoryVisibilityState old = InventoryVisibilityState e \<and>
       final_unix_epoch_millis old = final_unix_epoch_millis e \<and>
       commit_sequence old = commit_sequence e) \<and>
    (edge True)\<^sup>*\<^sup>* (entry_state old) (entry_state e) \<and>
    (entry_state e = TS_archived \<longrightarrow> entry_state old \<noteq> TS_archived \<longrightarrow>
       (edge True)\<^sup>*\<^sup>* (entry_state old) (InventoryVisibilityState e)) \<and>
    (HasCommittedInventoryOutcome e \<longrightarrow> \<not> HasCommittedInventoryOutcome old \<longrightarrow>
       next_commit_sequence before \<le> commit_sequence e)"

definition entry_evolves ::
  "local_transaction_inventory \<Rightarrow> transaction_inventory_entry list \<Rightarrow> transaction_inventory_entry \<Rightarrow> bool" where
  "entry_evolves before olds e \<longleftrightarrow>
    (case find (\<lambda>o'. entry_id o' = entry_id e) olds of
       None \<Rightarrow> fresh_ok before e | Some old \<Rightarrow> retained_ok before old e)"

lemma list_ex_image: "list_ex (\<lambda>x. f x = k) xs \<longleftrightarrow> k \<in> f ` set xs"
  by (induction xs) auto

lemma evolution_entries_Cons:
  "ValidateInventoryEvolutionEntries before olds (e # es) = [] \<longleftrightarrow>
    entry_evolves before olds e \<and>
    ValidateInventoryEvolutionEntries before (filter (\<lambda>o'. entry_id o' \<noteq> entry_id e) olds) es = []"
proof (cases "find (\<lambda>o'. entry_id o' = entry_id e) olds")
  case None
  then have "filter (\<lambda>o'. entry_id o' \<noteq> entry_id e) olds = olds"
    by (auto simp: filter_id_conv find_None_all)
  with None show ?thesis
    by (simp add: entry_evolves_def fresh_ok_def reason_if not_less list_ex_image)
next
  case (Some old)
  then have "entry_id old = entry_id e" by (auto dest: find_Some_mem)
  with Some show ?thesis
    by (simp add: entry_evolves_def retained_ok_def reason_if not_less reachable_iff) argo
qed

lemma find_filter_other:
  "entry_id e \<noteq> i \<Longrightarrow>
   find (\<lambda>o'. entry_id o' = entry_id e) (filter (\<lambda>o'. entry_id o' \<noteq> i) olds) =
   find (\<lambda>o'. entry_id o' = entry_id e) olds"
  by (induction olds) auto

lemma evolution_entries_iff:
  "distinct (map entry_id es) \<Longrightarrow>
   ValidateInventoryEvolutionEntries before olds es = [] \<longleftrightarrow>
    (\<forall>e \<in> set es. entry_evolves before olds e) \<and>
    (\<forall>old \<in> set olds. unresolved old \<longrightarrow> entry_id old \<in> entry_id ` set es)"
proof (induction es arbitrary: olds)
  case Nil
  show ?case by (auto simp: list_ex_iff)
next
  case (Cons e es)
  let ?rest = "filter (\<lambda>o'. entry_id o' \<noteq> entry_id e) olds"
  have "entry_evolves before ?rest e' = entry_evolves before olds e'" if "e' \<in> set es" for e'
  proof -
    have "entry_id e' \<in> entry_id ` set es" using that by (rule imageI)
    then have "entry_id e' \<noteq> entry_id e" using Cons.prems by auto
    then show ?thesis unfolding entry_evolves_def by (simp add: find_filter_other)
  qed
  then have all: "(\<forall>e' \<in> set es. entry_evolves before ?rest e') \<longleftrightarrow>
      (\<forall>e' \<in> set es. entry_evolves before olds e')" by blast
  have d: "distinct (map entry_id es)" using Cons.prems by simp
  show ?case unfolding evolution_entries_Cons Cons.IH [OF d] all by auto
qed

lemma evolution_iff:
  "ValidateLocalTransactionInventoryEvolution before after = [] \<longleftrightarrow>
    valid_inventory before \<and> valid_inventory after \<and>
    next_local_transaction_id before \<le> next_local_transaction_id after \<and>
    next_commit_sequence before \<le> next_commit_sequence after \<and>
    (\<forall>e \<in> set (entries after). entry_evolves before (entries before) e) \<and>
    (\<forall>old \<in> set (entries before). unresolved old \<longrightarrow> entry_id old \<in> entry_id ` set (entries after))"
proof (cases "valid_inventory before \<and> valid_inventory after")
  case True
  then have "distinct (map entry_id (entries after))" by (simp add: valid_ids)
  note evolution_entries_iff [OF this]
  with True show ?thesis
    by (auto simp: ValidateLocalTransactionInventoryEvolution_def ValidateInventoryEvolutionValues_def
        structure_valid_iff not_less)
next
  case False
  then show ?thesis
    by (auto simp: ValidateLocalTransactionInventoryEvolution_def structure_valid_iff)
qed

lemma retained_refl: "retained_ok before e e"
  by (simp add: retained_ok_def begin_changed_def)

lemma entry_evolves_mem:
  "valid_inventory before \<Longrightarrow> old \<in> set (entries before) \<Longrightarrow> entry_id e = entry_id old \<Longrightarrow>
   entry_evolves before (entries before) e \<longleftrightarrow> retained_ok before old e"
  using FindEntry_mem [of before old] by (simp add: entry_evolves_def FindEntry_def)

lemma entry_evolves_new:
  "valid_inventory before \<Longrightarrow> next_local_transaction_id before \<le> entry_id e \<Longrightarrow>
   entry_evolves before (entries before) e \<longleftrightarrow> fresh_ok before e"
  by (simp add: entry_evolves_def ivt_items.find_unallocated)

lemma store_evolves:
  assumes v: "valid_inventory before" and f: "FindEntry before i = Some old"
    and r: "retained_ok before old e" "entry_id e = entry_id old"
    and v': "valid_inventory (StoreEntry mid i e)" and m: "entries mid = entries before"
      "next_local_transaction_id mid = next_local_transaction_id before"
      "next_commit_sequence before \<le> next_commit_sequence mid"
  shows "ValidateLocalTransactionInventoryEvolution before (StoreEntry mid i e) = []"
proof -
  let ?p = "\<lambda>e'. entry_id e' = i"
  from f have mem: "old \<in> set (entries before)" and f': "find ?p (entries before) = Some old"
    by (simp_all add: FindEntry_Some) (simp add: FindEntry_def)
  have "entry_evolves before (entries before) z" if "z \<in> set (replace_first ?p e (entries before))" for z
    using that set_replace_first [of ?p e "entries before"] retained_refl r
      entry_evolves_mem [OF v mem r(2)] entry_evolves_mem [OF v] by auto
  moreover have "entry_id ` set (replace_first ?p e (entries before)) = entry_id ` set (entries before)"
    using arg_cong [where f = set, OF map_replace_first [OF f', of "\<lambda>e. entry_id e" e]] r(2) by simp
  ultimately show ?thesis using v v' m by (auto simp: evolution_iff)
qed

lemma edge_path: "edge True a b \<Longrightarrow> (edge True)\<^sup>*\<^sup>* b c \<Longrightarrow> (edge True)\<^sup>*\<^sup>* a c"
  by (rule converse_rtranclp_into_rtranclp)

lemma table_paths:
  "(edge True)\<^sup>*\<^sup>* TS_active TS_prepared"
  "s \<in> {TS_active, TS_prepared, TS_read_only_active} \<Longrightarrow> (edge True)\<^sup>*\<^sup>* s TS_committed"
  "s \<in> {TS_created, TS_active, TS_read_only_active, TS_preparing, TS_prepared} \<Longrightarrow>
     (edge True)\<^sup>*\<^sup>* s TS_rolled_back"
  "s \<in> {TS_committed, TS_rolled_back, TS_failed_terminal} \<Longrightarrow> (edge True)\<^sup>*\<^sup>* s TS_archived"
proof -
  have e: "edge True TS_active TS_preparing" "edge True TS_preparing TS_prepared"
    "edge True TS_prepared TS_committing" "edge True TS_committing TS_committed"
    "edge True TS_read_only_active TS_committing" "edge True TS_rolling_back TS_rolled_back"
    "s \<in> {TS_created, TS_active, TS_read_only_active, TS_preparing, TS_prepared} \<Longrightarrow> edge True s TS_rolling_back"
    "s \<in> {TS_committed, TS_rolled_back, TS_failed_terminal} \<Longrightarrow> edge True s TS_archived" for s
    by (auto simp: enum_simps)
  show a: "(edge True)\<^sup>*\<^sup>* TS_active TS_prepared"
    by (intro edge_path [OF e(1)] edge_path [OF e(2)] rtranclp.rtrancl_refl)
  have c: "(edge True)\<^sup>*\<^sup>* TS_committing TS_committed" using e(4) by blast
  then have p: "(edge True)\<^sup>*\<^sup>* TS_prepared TS_committed" by (rule edge_path [OF e(3)])
  show "(edge True)\<^sup>*\<^sup>* s TS_committed" if "s \<in> {TS_active, TS_prepared, TS_read_only_active}"
    using that rtranclp_trans [OF a p] p edge_path [OF e(5) c] by blast
  show "(edge True)\<^sup>*\<^sup>* s TS_rolled_back"
    if "s \<in> {TS_created, TS_active, TS_read_only_active, TS_preparing, TS_prepared}"
    by (intro edge_path [OF e(7) [OF that]] r_into_rtranclp [of "edge True", OF e(6)])
  show "(edge True)\<^sup>*\<^sup>* s TS_archived" if "s \<in> {TS_committed, TS_rolled_back, TS_failed_terminal}"
    by (rule r_into_rtranclp [of "edge True", OF e(8) [OF that]])
qed

section \<open>Every operation passes the check\<close>

text \<open>What the operations on one transaction do to its entry.\<close>

inductive entry_step ::
  "local_transaction_inventory \<Rightarrow> transaction_inventory_entry \<Rightarrow> transaction_inventory_entry \<Rightarrow> bool"
  for ivt where
  entry_prepare: "entry_state old = TS_active \<Longrightarrow> entry_step ivt old (old\<lparr>entry_state := TS_prepared\<rparr>)"
| entry_commit: "committable old \<Longrightarrow>
    entry_step ivt old (committed_entry (next_commit_sequence ivt) millis old)"
| entry_rollback:
    "entry_state old \<in> {TS_created, TS_active, TS_read_only_active, TS_preparing, TS_prepared} \<Longrightarrow>
     entry_step ivt old (old\<lparr>entry_state := TS_rolled_back, final_unix_epoch_millis := millis,
                             evidence_record_written := True\<rparr>)"
| entry_mark: "entry_state old \<noteq> TS_committed \<Longrightarrow> entry_state old \<noteq> TS_archived \<Longrightarrow>
    entry_step ivt old (old\<lparr>rollback_only := True\<rparr>)"
| entry_archive: "entry_state old \<in> {TS_committed, TS_rolled_back, TS_failed_terminal} \<Longrightarrow>
    entry_step ivt old (old\<lparr>entry_state := TS_archived, archived_from_state := entry_state old\<rparr>)"

lemma inventory_step_cases [consumes 1, case_names begun stored compacted]:
  assumes "inventory_step ivt ivt'"
  obtains
    (begun) uuid millis st where
      "st = TS_active \<or> st = TS_read_only_active" "next_local_transaction_id ivt \<noteq> u64_max"
      "\<forall>e \<in> set (entries ivt). entry_uuid e \<noteq> uuid_value uuid"
      "ivt' = ivt\<lparr>next_local_transaction_id := next_local_transaction_id ivt + 1,
                  entries := entries ivt @ [begun_entry ivt uuid millis st]\<rparr>"
  | (stored) mid i old e where
      "FindEntry ivt i = Some old" "entry_step ivt old e" "ivt' = StoreEntry mid i e"
      "entries mid = entries ivt" "next_local_transaction_id mid = next_local_transaction_id ivt"
      "next_commit_sequence ivt \<le> next_commit_sequence mid"
  | (compacted) rq where
      "ivt' = ivt\<lparr>entries := filter (\<lambda>e. \<not> can_drop rq e) (entries ivt)\<rparr>"
  using assms
proof (cases rule: inventory_step.cases)
  case (step_begin uuid millis e)
  then show ?thesis using begun [of TS_active uuid millis]
    by (simp add: BeginLocalTransaction_def Begin_Inr)
next
  case (step_begin_read_only uuid millis e)
  then show ?thesis using begun [of TS_read_only_active uuid millis]
    by (simp add: BeginLocalReadOnlyTransaction_def Begin_Inr)
next
  case (step_prepare i e)
  then show ?thesis using stored [of i _ _ ivt] by (auto simp: Prepare_Inr intro: entry_step.intros)
next
  case (step_commit i millis e)
  then have "next_commit_sequence ivt \<le> next_commit_sequence ivt + 1"
    by (auto simp: Commit_Inr dest: u64_less_inc)
  with step_commit show ?thesis
    using stored [of i _ _ "ivt\<lparr>next_commit_sequence := next_commit_sequence ivt + 1\<rparr>"]
    by (auto simp: Commit_Inr intro: entry_step.intros)
next
  case (step_rollback i millis e)
  then obtain old where "FindEntry ivt i = Some old" "ivt' = StoreEntry ivt i e"
    "entry_state old \<in> {TS_created, TS_active, TS_read_only_active, TS_preparing, TS_prepared}"
    "e = old\<lparr>entry_state := TS_rolled_back, final_unix_epoch_millis := millis, evidence_record_written := True\<rparr>"
    by (auto simp: Rollback_Inr)
  then show ?thesis using stored [of i old e ivt] entry_rollback [of old ivt millis] by simp
next
  case (step_abort i millis e)
  then obtain old where "FindEntry ivt i = Some old" "ivt' = StoreEntry ivt i e"
    "entry_state old \<in> {TS_created, TS_active, TS_read_only_active, TS_preparing, TS_prepared}"
    "e = old\<lparr>entry_state := TS_rolled_back, final_unix_epoch_millis := millis, evidence_record_written := True\<rparr>"
    by (auto simp: AbortLocalTransaction_def Rollback_Inr)
  then show ?thesis using stored [of i old e ivt] entry_rollback [of old ivt millis] by simp
next
  case (step_mark i e)
  then show ?thesis using stored [of i _ _ ivt] by (auto simp: MarkRollbackOnly_Inr intro: entry_step.intros)
next
  case (step_archive i e)
  then obtain old where "FindEntry ivt i = Some old" "ivt' = StoreEntry ivt i e"
    "entry_state old \<in> {TS_committed, TS_rolled_back, TS_failed_terminal}"
    "e = old\<lparr>entry_state := TS_archived, archived_from_state := entry_state old\<rparr>"
    by (auto simp: Archive_Inr)
  then show ?thesis using stored [of i old e ivt] entry_archive [of old ivt] by simp
next
  case (step_compact rq n)
  then show ?thesis using compacted [of rq] by (simp add: Compact_Inr)
qed

lemma entry_step_keys: "entry_step ivt old e \<Longrightarrow> identity e = identity old"
  by (auto elim!: entry_step.cases simp: committed_entry_def)

lemma entry_step_retained:
  assumes st: "entry_step ivt old e" and v: "valid_inventory ivt" and f: "FindEntry ivt i = Some old"
  shows "retained_ok ivt old e"
  using st
proof (cases rule: entry_step.cases)
  case entry_prepare
  with found_visible [OF v f] show ?thesis
    using table_paths(1)
    by (simp add: retained_ok_def begin_changed_def InventoryVisibilityState_def
        HasCommittedInventoryOutcome_def IsTerminalTransactionState_def)
next
  case (entry_commit millis)
  with found_visible [OF v f] table_paths(2) [of "entry_state old"] show ?thesis
    by (auto simp: retained_ok_def begin_changed_def committed_entry_def committable_def
        IsTerminalTransactionState_def)
next
  case (entry_rollback millis)
  with found_visible [OF v f] table_paths(3) [of "entry_state old"] show ?thesis
    by (auto simp: retained_ok_def begin_changed_def IsTerminalTransactionState_def committed_state)
next
  case entry_mark
  then show ?thesis
    by (simp add: retained_ok_def begin_changed_def InventoryVisibilityState_def
        HasCommittedInventoryOutcome_def)
next
  case entry_archive
  with found_visible [OF v f] table_paths(4) [of "entry_state old"] show ?thesis
    by (auto simp: retained_ok_def begin_changed_def IsTerminalTransactionState_def
        InventoryVisibilityState_def HasCommittedInventoryOutcome_def)
qed

lemma can_drop_resolved:
  "can_drop rq e \<Longrightarrow> entry_ok nid ncs e \<Longrightarrow> \<not> unresolved e"
  by (auto simp: can_drop_def unresolved_def InventoryVisibilityState_def entry_ok_def)

lemma inventory_step_evolution:
  assumes st: "inventory_step ivt ivt'" and v: "valid_inventory ivt"
  shows "ValidateLocalTransactionInventoryEvolution ivt ivt' = []"
proof -
  from step_valid [OF st v] have v': "valid_inventory ivt'" .
  have same: "entry_evolves ivt (entries ivt) e" if "e \<in> set (entries ivt)" for e
    using entry_evolves_mem [OF v that] retained_refl by simp
  from st show ?thesis
  proof (cases rule: inventory_step_cases)
    case (begun uuid millis st)
    let ?e = "begun_entry ivt uuid millis st"
    have "fresh_ok ivt ?e" using begun(1,3) by (auto simp: fresh_ok_def committed_state)
    then have "entry_evolves ivt (entries ivt) ?e" using entry_evolves_new [OF v, of ?e] by simp
    moreover have "next_local_transaction_id ivt \<le> next_local_transaction_id ivt + 1"
      using u64_less_inc [OF begun(2)] by simp
    ultimately show ?thesis using v v' same by (auto simp: evolution_iff begun(4))
  next
    case (stored mid i old e)
    then show ?thesis using v v' entry_step_retained [OF stored(2) v stored(1)]
        entry_step_keys [OF stored(2)] by (simp add: store_evolves)
  next
    case (compacted rq)
    have "\<not> can_drop rq e" if "e \<in> set (entries ivt)" "unresolved e" for e
      using can_drop_resolved valid_entry [OF v] that by blast
    then show ?thesis using v v' same by (auto simp: evolution_iff compacted)
  qed
qed

section \<open>History of an entry along a run\<close>

definition keeps_history :: "transaction_inventory_entry \<Rightarrow> transaction_inventory_entry \<Rightarrow> bool" where
  "keeps_history old e \<longleftrightarrow>
    identity e = identity old \<and> \<not> begin_changed old e \<and>
    (rollback_only old \<longrightarrow> rollback_only e) \<and>
    (HasCommittedInventoryOutcome e \<longrightarrow> HasCommittedInventoryOutcome old \<or> \<not> rollback_only old) \<and>
    (IsTerminalTransactionState (InventoryVisibilityState old) \<longrightarrow>
       InventoryVisibilityState e = InventoryVisibilityState old \<and>
       final_unix_epoch_millis e = final_unix_epoch_millis old \<and>
       commit_sequence e = commit_sequence old)"

lemma keeps_history_refl: "keeps_history e e"
  by (simp add: keeps_history_def begin_changed_def)

lemma keeps_history_id: "keeps_history old e \<Longrightarrow> entry_id e = entry_id old"
  by (simp add: keeps_history_def)

lemma keeps_history_trans: "keeps_history a b \<Longrightarrow> keeps_history b c \<Longrightarrow> keeps_history a c"
  by (auto simp: keeps_history_def begin_changed_def HasCommittedInventoryOutcome_def)

lemma entry_step_history:
  assumes st: "entry_step ivt old e" and v: "valid_inventory ivt" and f: "FindEntry ivt i = Some old"
  shows "keeps_history old e"
proof -
  have "rollback_only old \<longrightarrow> rollback_only e"
    using st by (auto elim!: entry_step.cases simp: committed_entry_def)
  moreover have "HasCommittedInventoryOutcome e \<longrightarrow> HasCommittedInventoryOutcome old \<or> \<not> rollback_only old"
    using st found_visible [OF v f]
    by (auto elim!: entry_step.cases simp: committed_state committable_def)
  ultimately show ?thesis
    using entry_step_retained [OF assms] entry_step_keys [OF st]
    by (auto simp: keeps_history_def retained_ok_def)
qed

lemma step_history:
  assumes st: "inventory_step ivt ivt'" and v: "valid_inventory ivt" and mem: "e \<in> set (entries ivt')"
  shows "(\<exists>old \<in> set (entries ivt). keeps_history old e) \<or> next_local_transaction_id ivt \<le> entry_id e"
  using st
proof (cases rule: inventory_step_cases)
  case (begun uuid millis st)
  with mem keeps_history_refl show ?thesis by auto
next
  case (stored mid i old e0)
  have "old \<in> set (entries ivt)" using stored(1) by (simp add: FindEntry_Some)
  with mem stored keeps_history_refl entry_step_history [OF stored(2) v stored(1)]
    set_replace_first [of "\<lambda>e'. entry_id e' = i" e0 "entries ivt"]
  show ?thesis by auto
next
  case (compacted rq)
  with mem keeps_history_refl show ?thesis by auto
qed

lemma step_next_mono:
  "inventory_step ivt ivt' \<Longrightarrow> valid_inventory ivt \<Longrightarrow>
   next_local_transaction_id ivt \<le> next_local_transaction_id ivt' \<and>
   next_commit_sequence ivt \<le> next_commit_sequence ivt'"
  using inventory_step_evolution [of ivt ivt'] by (simp add: evolution_iff)

text \<open>
  What a later inventory keeps of an earlier one: an entry under a number that was allocated then
  stands in a given relation to the entry it was.
\<close>

definition tracked ::
  "(transaction_inventory_entry \<Rightarrow> transaction_inventory_entry \<Rightarrow> bool) \<Rightarrow>
   local_transaction_inventory \<Rightarrow> local_transaction_inventory \<Rightarrow> bool" where
  "tracked r ivt ivt' \<longleftrightarrow>
    next_local_transaction_id ivt \<le> next_local_transaction_id ivt' \<and>
    (\<forall>e \<in> set (entries ivt'). entry_id e < next_local_transaction_id ivt \<longrightarrow>
       (\<exists>old \<in> set (entries ivt). r old e))"

lemma tracked_refl: "(\<And>e. r e e) \<Longrightarrow> tracked r ivt ivt"
  by (auto simp: tracked_def)

lemma tracked_trans:
  assumes ab: "tracked r a b" and bc: "tracked r b c"
    and r: "\<And>x y. r x y \<Longrightarrow> entry_id y = entry_id x" "\<And>x y z. r x y \<Longrightarrow> r y z \<Longrightarrow> r x z"
  shows "tracked r a c"
proof -
  have "\<exists>old \<in> set (entries a). r old e"
    if e: "e \<in> set (entries c)" "entry_id e < next_local_transaction_id a" for e
  proof -
    have "entry_id e < next_local_transaction_id b" using e(2) ab by (auto simp: tracked_def)
    then obtain m where m: "m \<in> set (entries b)" "r m e" using bc e(1) by (auto simp: tracked_def)
    then have "entry_id m < next_local_transaction_id a" using e(2) r(1) [of m e] by simp
    then obtain old where "old \<in> set (entries a)" "r old m" using ab m(1) by (auto simp: tracked_def)
    with r(2) m(2) show ?thesis by blast
  qed
  with ab bc show ?thesis by (auto simp: tracked_def intro: order_trans)
qed

interpretation ivt_history: history_system inventory_step valid_inventory "tracked keeps_history"
proof
  show "tracked keeps_history s s" for s by (intro tracked_refl keeps_history_refl)
  show "tracked keeps_history a b \<Longrightarrow> tracked keeps_history b c \<Longrightarrow> tracked keeps_history a c" for a b c
    by (erule tracked_trans) (blast intro: keeps_history_id keeps_history_trans)+
  show "inventory_step s s' \<Longrightarrow> valid_inventory s \<Longrightarrow> tracked keeps_history s s'" for s s'
    using step_next_mono [of s s'] step_history [of s s'] by (force simp: tracked_def)
qed

lemmas run_history = ivt_history.run_since [unfolded tracked_def]

section \<open>The commit order of a run\<close>

text \<open>
  A transaction whose commit sequence was assigned before a point of a run had committed at that
  point, with the same sequence.
\<close>

definition commits_since :: "local_transaction_inventory \<Rightarrow> local_transaction_inventory \<Rightarrow> bool" where
  "commits_since ivt ivt' \<longleftrightarrow> next_commit_sequence ivt \<le> next_commit_sequence ivt' \<and>
    (\<forall>e \<in> set (entries ivt'). HasCommittedInventoryOutcome e \<and> commit_sequence e < next_commit_sequence ivt \<longrightarrow>
      (\<exists>e0 \<in> set (entries ivt). entry_id e0 = entry_id e \<and> HasCommittedInventoryOutcome e0 \<and>
        commit_sequence e0 = commit_sequence e))"

lemma commits_since_trans: "commits_since a b \<Longrightarrow> commits_since b c \<Longrightarrow> commits_since a c"
  unfolding commits_since_def by (metis (no_types, lifting) order_trans order_less_le_trans)

lemma step_commits_since:
  assumes "inventory_step ivt ivt'" "valid_inventory ivt"
  shows "commits_since ivt ivt'"
proof -
  from inventory_step_evolution [OF assms] have
    n: "next_commit_sequence ivt \<le> next_commit_sequence ivt'" and
    ev: "\<forall>e \<in> set (entries ivt'). entry_evolves ivt (entries ivt) e" by (simp_all add: evolution_iff)
  have "\<exists>e0 \<in> set (entries ivt). entry_id e0 = entry_id e \<and> HasCommittedInventoryOutcome e0 \<and>
      commit_sequence e0 = commit_sequence e"
    if e: "e \<in> set (entries ivt')" "HasCommittedInventoryOutcome e" "commit_sequence e < next_commit_sequence ivt" for e
  proof (cases "find (\<lambda>o'. entry_id o' = entry_id e) (entries ivt)")
    case None
    with ev e have "fresh_ok ivt e" by (auto simp: entry_evolves_def)
    with e show ?thesis by (auto simp: fresh_ok_def)
  next
    case (Some old)
    with ev e have r: "retained_ok ivt old e" by (auto simp: entry_evolves_def)
    with e have c: "HasCommittedInventoryOutcome old" by (auto simp: retained_ok_def)
    with r have "commit_sequence old = commit_sequence e"
      by (auto simp: retained_ok_def HasCommittedInventoryOutcome_def IsTerminalTransactionState_def)
    with c find_Some_mem [OF Some] show ?thesis by blast
  qed
  with n show ?thesis by (auto simp: commits_since_def)
qed


interpretation commit_order: history_system inventory_step valid_inventory commits_since
proof
  show "inventory_step s s' \<Longrightarrow> valid_inventory s \<Longrightarrow> commits_since s s'" for s s'
    by (rule step_commits_since)
  show "commits_since a b \<Longrightarrow> commits_since b c \<Longrightarrow> commits_since a c" for a b c
    by (rule commits_since_trans)
  show "commits_since s s" for s by (auto simp: commits_since_def)
qed

section \<open>Chains of accepted successors\<close>

definition keeps_outcome :: "transaction_inventory_entry \<Rightarrow> transaction_inventory_entry \<Rightarrow> bool" where
  "keeps_outcome old e \<longleftrightarrow>
    entry_id e = entry_id old \<and> entry_uuid e = entry_uuid old \<and> \<not> begin_changed old e \<and>
    (IsTerminalTransactionState (InventoryVisibilityState old) \<longrightarrow>
       InventoryVisibilityState e = InventoryVisibilityState old \<and>
       final_unix_epoch_millis e = final_unix_epoch_millis old \<and>
       commit_sequence e = commit_sequence old)"

lemma keeps_outcome_refl: "keeps_outcome e e"
  by (simp add: keeps_outcome_def begin_changed_def)

lemma keeps_outcome_id: "keeps_outcome old e \<Longrightarrow> entry_id e = entry_id old"
  by (simp add: keeps_outcome_def)

lemma keeps_outcome_trans: "keeps_outcome a b \<Longrightarrow> keeps_outcome b c \<Longrightarrow> keeps_outcome a c"
  by (auto simp: keeps_outcome_def begin_changed_def)

abbreviation accepted :: "local_transaction_inventory \<Rightarrow> local_transaction_inventory \<Rightarrow> bool" where
  "accepted before after \<equiv> ValidateLocalTransactionInventoryEvolution before after = ''''"

lemma accepted_entry:
  assumes "accepted a b" "e \<in> set (entries b)" "entry_id e < next_local_transaction_id a"
  shows "\<exists>old \<in> set (entries a). keeps_outcome old e"
proof (cases "find (\<lambda>o'. entry_id o' = entry_id e) (entries a)")
  case None
  moreover have "entry_evolves a (entries a) e" using assms by (simp add: evolution_iff)
  ultimately have "fresh_ok a e" by (simp add: entry_evolves_def)
  with assms(3) show ?thesis by (auto simp: fresh_ok_def)
next
  case (Some old)
  moreover have "entry_evolves a (entries a) e" using assms by (simp add: evolution_iff)
  ultimately have "retained_ok a old e" by (simp add: entry_evolves_def)
  moreover from Some have "old \<in> set (entries a)" "entry_id old = entry_id e"
    by (auto dest: find_Some_mem)
  ultimately show ?thesis by (auto simp: keeps_outcome_def retained_ok_def intro!: bexI [of _ old])
qed

interpretation accepted_history: history_system accepted "\<lambda>_. True" "tracked keeps_outcome"
proof
  show "tracked keeps_outcome s s" for s by (intro tracked_refl keeps_outcome_refl)
  show "tracked keeps_outcome a b \<Longrightarrow> tracked keeps_outcome b c \<Longrightarrow> tracked keeps_outcome a c" for a b c
    by (erule tracked_trans) (blast intro: keeps_outcome_id keeps_outcome_trans)+
  show "accepted s s' \<Longrightarrow> True \<Longrightarrow> tracked keeps_outcome s s'" for s s'
    using accepted_entry [of s s'] by (auto simp: tracked_def evolution_iff)
qed simp

section \<open>Properties\<close>

text \<open>
  C6. The table closure that the successor check computes with three nested in-place loops is
  reachability: a pair is set exactly when a chain of transitions, each allowed by the transition
  check in a recovery context, leads from the first state to the second.
\<close>

theorem closure_is_reachability:
  "reachable s t \<longleftrightarrow> (\<lambda>a b. is_ok (CheckTransactionStateTransition a b True))\<^sup>*\<^sup>* s t"
  using reachable_iff [of s t] by (simp add: edge_def [abs_def])

text \<open>
  C7. The successor check accepts what the operations do: every successful operation on a well
  formed inventory yields an inventory that the check admits as its successor, so publication never
  refuses the result of an operation.
\<close>

theorem operations_pass_evolution_check:
  assumes "inventory_step ivt ivt'" and "ValidateLocalTransactionInventoryStructure ivt = ''''"
  shows "ValidateLocalTransactionInventoryEvolution ivt ivt' = ''''"
  using inventory_step_evolution [OF assms(1)] assms(2) by (simp add: structure_valid_iff)

theorem operations_pass_evolution_check_witness:
  "\<exists>ivt'. inventory_step sample_inventory ivt' \<and> ivt' \<noteq> sample_inventory \<and>
     ValidateLocalTransactionInventoryEvolution sample_inventory ivt' = ''''"
proof -
  have "is_ok (CommitLocalTransaction sample_inventory 2 50)" by code_simp
  then obtain ivt' e' where r: "CommitLocalTransaction sample_inventory 2 50 = Inr (ivt', e')"
    by (auto simp: is_ok_iff)
  then have "next_commit_sequence ivt' = 3" by (auto simp: Commit_Inr sample_inventory_def)
  then have ne: "ivt' \<noteq> sample_inventory" by (auto simp: sample_inventory_def)
  have s: "inventory_step sample_inventory ivt'" using r by (rule step_commit)
  have "ValidateLocalTransactionInventoryStructure sample_inventory = ''''"
    using sample_valid by (simp add: structure_valid_iff)
  from operations_pass_evolution_check [OF s this] s ne show ?thesis by blast
qed

text \<open>
  C8. Outcomes survive publication. Along any chain of inventories each accepted as the successor
  of the one before, whatever produced them, an entry whose number was already allocated at the
  start is an entry of the start with the same UUID and begin facts; if that transaction was
  finished, its outcome, final time and commit sequence are unchanged.
\<close>

theorem accepted_successors_keep_outcomes:
  assumes "accepted\<^sup>*\<^sup>* ivt ivt'" and "e \<in> set (entries ivt')"
    and "entry_id e < next_local_transaction_id ivt"
  shows "\<exists>old \<in> set (entries ivt).
    entry_id old = entry_id e \<and> entry_uuid old = entry_uuid e \<and>
    begin_visible_through_commit_sequence old = begin_visible_through_commit_sequence e \<and>
    (IsTerminalTransactionState (InventoryVisibilityState old) \<longrightarrow>
       InventoryVisibilityState e = InventoryVisibilityState old \<and>
       final_unix_epoch_millis e = final_unix_epoch_millis old \<and>
       commit_sequence e = commit_sequence old)"
  using accepted_history.run_since [OF assms(1) TrueI, unfolded tracked_def] assms(2,3)
  by (force simp: keeps_outcome_def begin_changed_def)

theorem accepted_successors_keep_outcomes_witness:
  "\<exists>ivt' e. accepted\<^sup>*\<^sup>* sample_inventory ivt' \<and> e \<in> set (entries ivt') \<and> entry_id e = 1 \<and>
     ivt' \<noteq> sample_inventory \<and> HasCommittedInventoryOutcome e \<and> commit_sequence e = 1"
proof -
  let ?e = "sample_entry 1 1 TS_committed 0 1"
  let ?a = "sample_inventory\<lparr>entries := [?e\<lparr>entry_state := TS_archived,
    archived_from_state := TS_committed\<rparr>, sample_entry 2 2 TS_active 0 0, sample_entry 3 3 TS_active 1 0]\<rparr>"
  let ?z = "?e\<lparr>entry_state := TS_archived, archived_from_state := TS_committed\<rparr>"
  have v: "valid_inventory ?a" unfolding structure_valid_iff [symmetric] by code_simp
  have "accepted sample_inventory ?a"
  proof -
    have r: "retained_ok sample_inventory ?e ?z"
      using table_paths(4) [of TS_committed]
      by (auto simp: retained_ok_def begin_changed_def sample_entry_def InventoryVisibilityState_def
          HasCommittedInventoryOutcome_def)
    have "ValidateLocalTransactionInventoryEvolution sample_inventory (StoreEntry sample_inventory 1 ?z) = ''''"
      by (rule store_evolves [OF sample_valid _ r])
        (use v in \<open>simp_all add: FindEntry_def StoreEntry_def sample_inventory_def sample_entry_def\<close>)
    moreover have "StoreEntry sample_inventory 1 ?z = ?a"
      by (simp add: StoreEntry_def sample_inventory_def sample_entry_def)
    ultimately show ?thesis by simp
  qed
  then have c: "accepted\<^sup>*\<^sup>* sample_inventory ?a" by (rule r_into_rtranclp)
  have m: "?z \<in> set (entries ?a)" and i: "entry_id ?z < next_local_transaction_id sample_inventory"
    by (simp_all add: sample_inventory_def sample_entry_def)
  obtain old where o': "old \<in> set (entries sample_inventory)" "entry_id old = 1"
    "IsTerminalTransactionState (InventoryVisibilityState old) \<longrightarrow>
       InventoryVisibilityState ?z = InventoryVisibilityState old \<and>
       commit_sequence ?z = commit_sequence old"
    using accepted_successors_keep_outcomes [OF c m i] by (auto simp: sample_entry_def)
  then have "old = ?e" by (auto simp: sample_inventory_def sample_entry_def)
  with o' have "InventoryVisibilityState ?z = TS_committed" "commit_sequence ?z = 1"
    by (simp_all add: sample_entry_def InventoryVisibilityState_def IsTerminalTransactionState_def)
  then show ?thesis using c m
    by (intro exI [of _ ?a] exI [of _ ?z])
      (auto simp: HasCommittedInventoryOutcome_def sample_inventory_def sample_entry_def)
qed

text \<open>
  A rollback-only transaction never commits: once it is marked, no sequence of operations leads
  to an inventory in which that transaction has a committed outcome.
\<close>

lemma rollback_only_never_commits:
  assumes "valid_inventory ivt" and "MarkLocalTransactionRollbackOnly ivt i = Inr (ivt1, e1)"
    and "inventory_step\<^sup>*\<^sup>* ivt1 ivt2" and "LookupLocalTransaction ivt2 i = Inr e2"
  shows "rollback_only e2 \<and> \<not> HasCommittedInventoryOutcome e2"
proof -
  from assms(2) obtain e where f: "FindEntry ivt i = Some e" and e1: "e1 = e\<lparr>rollback_only := True\<rparr>"
    and s: "entry_state e \<noteq> TS_committed" "entry_state e \<noteq> TS_archived" and ivt1: "ivt1 = StoreEntry ivt i e1"
    by (auto simp: MarkRollbackOnly_Inr)
  have v1: "valid_inventory ivt1" using assms(1,2) by (rule MarkRollbackOnly_valid)
  have id: "entry_id e1 = i" "e \<in> set (entries ivt)" using FindEntry_Some [OF f] by (simp_all add: e1)
  then have f1: "FindEntry ivt1 i = Some e1"
    unfolding ivt1 using FindEntry_StoreEntry [OF f, of ivt e1 i] by simp
  have e2: "e2 \<in> set (entries ivt2)" "entry_id e2 = i"
    using assms(4) FindEntry_Some [of ivt2 i e2] by (auto simp: Lookup_Inr)
  have "i < next_local_transaction_id ivt1"
    using valid_id_less [OF assms(1) id(2)] id by (simp add: ivt1 e1)
  then obtain old where old: "old \<in> set (entries ivt1)" "keeps_history old e2"
    using run_history [OF assms(3) v1] e2 by auto
  then have "FindEntry ivt1 i = Some old"
    using FindEntry_mem [OF v1 old(1)] e2(2) by (simp add: keeps_history_def)
  with f1 have "old = e1" by simp
  moreover have "\<not> HasCommittedInventoryOutcome e1" using s by (simp add: committed_state e1)
  ultimately show ?thesis using old(2) by (auto simp: keeps_history_def e1)
qed

text \<open>
  Local numbers are never reused: after any sequence of operations, compaction included, an
  entry under a number that was allocated before is the same transaction, with the same identity
  and begin boundary, as it was then.
\<close>

lemma local_numbers_never_reused:
  assumes "valid_inventory ivt" and "inventory_step\<^sup>*\<^sup>* ivt ivt'"
    and "LookupLocalTransaction ivt' i = Inr e'" and "i < next_local_transaction_id ivt"
  shows "\<exists>e. LookupLocalTransaction ivt i = Inr e \<and> identity e' = identity e \<and>
    begin_visible_through_commit_sequence e' = begin_visible_through_commit_sequence e"
proof -
  have e': "e' \<in> set (entries ivt')" "entry_id e' = i" and i: "i \<noteq> 0"
    using assms(3) FindEntry_Some [of ivt' i e'] by (auto simp: Lookup_Inr)
  then obtain e where e: "e \<in> set (entries ivt)" "keeps_history e e'"
    using run_history [OF assms(2,1)] assms(4) by auto
  then have "FindEntry ivt i = Some e"
    using FindEntry_mem [OF assms(1) e(1)] e'(2) by (simp add: keeps_history_def)
  then show ?thesis using e(2) i by (auto simp: Lookup_Inr keeps_history_def begin_changed_def)
qed

end
