(* ===== verification/TransactionHorizon.thy ===== *)
theory TransactionHorizon
  imports InventoryEvolution
begin

text \<open>
  Transaction horizons: \<^verbatim>\<open>transaction_horizon.{hpp,cpp}\<close> and \<^verbatim>\<open>transaction_horizon_projection.hpp\<close>. The
  oldest interesting transaction (OIT), the oldest active one (OAT) and the oldest one a snapshot
  still needs (OST) are minima over the inventory. The lemmas show what lies below each horizon and
  that the OIT never moves back.
\<close>

section \<open>Projection\<close>

record local_transaction_horizons =
  oldest_interesting_transaction :: local_transaction_id
  oldest_active_transaction :: local_transaction_id
  oldest_snapshot_transaction :: local_transaction_id
  next_transaction_id :: local_transaction_id

definition IsInteresting :: "transaction_state \<Rightarrow> bool" where
  "IsInteresting s \<longleftrightarrow> s = TS_created \<or> s = TS_active \<or> s = TS_read_only_active \<or>
    s = TS_preparing \<or> s = TS_prepared \<or> s = TS_committing \<or> s = TS_rolling_back \<or>
    s = TS_limbo \<or> s = TS_recovering \<or> s = TS_failed_terminal"

definition IsActiveForOat :: "transaction_state \<Rightarrow> bool" where
  "IsActiveForOat s \<longleftrightarrow> s = TS_active \<or> s = TS_read_only_active"

text \<open>The running minimum of the loops: a fold that takes the minimum at the entries that qualify.\<close>

definition min_where ::
  "('a \<Rightarrow> bool) \<Rightarrow> ('a \<Rightarrow> u64) \<Rightarrow> 'a list \<Rightarrow> u64 \<Rightarrow> u64" where
  "min_where p f xs init = fold (\<lambda>x m. if p x then min m (f x) else m) xs init"

text \<open>
  The loop over the snapshot horizons with its two early returns; the left injection is the message
  key of the refusal.
\<close>

fun ApplySnapshotHorizons :: "u64 \<Rightarrow> local_transaction_id list \<Rightarrow> u64 \<Rightarrow> string + u64" where
  "ApplySnapshotHorizons nid [] ost = Inr ost"
| "ApplySnapshotHorizons nid (h # hs) ost =
    (if \<not> local_id_valid h then Inl ''transaction.horizon.invalid_snapshot_horizon''
     else if nid < h then Inl ''transaction.horizon.future_snapshot_horizon''
     else ApplySnapshotHorizons nid hs (min ost h))"

definition StableCommitBoundary :: "local_transaction_inventory \<Rightarrow> u64" where
  "StableCommitBoundary ivt =
    min_where (\<lambda>e. stable_snapshot e \<and> IsActiveForOat (entry_state e))
      begin_visible_through_commit_sequence (entries ivt) (next_commit_sequence ivt)"

definition ProjectValidatedLocalHorizons ::
  "local_transaction_inventory \<Rightarrow> local_transaction_id list \<Rightarrow> string + local_transaction_horizons" where
  "ProjectValidatedLocalHorizons ivt snapshot_horizons =
    (let nid = next_local_transaction_id ivt;
         oit = min_where (\<lambda>e. IsInteresting (InventoryVisibilityState e)) entry_id (entries ivt) nid;
         oat = min_where (\<lambda>e. IsActiveForOat (entry_state e)) entry_id (entries ivt) nid
     in case ApplySnapshotHorizons nid snapshot_horizons (if snapshot_horizons = [] then oat else nid) of
          Inl key \<Rightarrow> Inl key
        | Inr ost \<Rightarrow>
            Inr \<lparr>oldest_interesting_transaction = oit, oldest_active_transaction = oat,
                 oldest_snapshot_transaction =
                   (if StableCommitBoundary ivt \<noteq> next_commit_sequence ivt
                    then min_where (\<lambda>e. HasCommittedInventoryOutcome e \<and>
                             StableCommitBoundary ivt < commit_sequence e)
                           entry_id (entries ivt) (min ost oit)
                    else ost),
                 next_transaction_id = nid\<rparr>)"

definition HorizonErrorStatus :: status where
  "HorizonErrorStatus = TransactionErrorStatus"

definition MakeTransactionHorizonDiagnostic ::
  "status \<Rightarrow> string \<Rightarrow> string \<Rightarrow> string \<Rightarrow> diagnostic_record" where
  "MakeTransactionHorizonDiagnostic = component_diagnostic ''transaction.mga.horizon''"

definition CalculateLocalHorizons ::
  "local_transaction_inventory \<Rightarrow> local_transaction_id list \<Rightarrow> local_transaction_horizons result" where
  "CalculateLocalHorizons ivt snapshot_horizons =
    (if ValidateLocalTransactionInventoryStructure ivt \<noteq> '''' then
       Inl (MakeTransactionHorizonDiagnostic HorizonErrorStatus ''SB-TXN-HORIZON-INVALID''
              ''transaction.horizon.inventory_invalid'' (ValidateLocalTransactionInventoryStructure ivt))
     else case ProjectValidatedLocalHorizons ivt snapshot_horizons of
       Inl key \<Rightarrow> Inl (MakeTransactionHorizonDiagnostic HorizonErrorStatus ''SB-TXN-HORIZON-INVALID'' key '''')
     | Inr h \<Rightarrow> Inr h)"

text \<open>The two overloads of \<^verbatim>\<open>ComputeLocalTransactionHorizons\<close>.\<close>

definition ComputeLocalTransactionHorizons ::
  "local_transaction_inventory \<Rightarrow> local_transaction_horizons result" where
  "ComputeLocalTransactionHorizons ivt = CalculateLocalHorizons ivt []"

definition ComputeLocalTransactionHorizonsWithSnapshots ::
  "local_transaction_inventory \<Rightarrow> local_transaction_id list \<Rightarrow> local_transaction_horizons result" where
  "ComputeLocalTransactionHorizonsWithSnapshots ivt snapshot_horizons =
    CalculateLocalHorizons ivt snapshot_horizons"

section \<open>Metrics\<close>

definition OldestActiveBeginMillis :: "local_transaction_inventory \<Rightarrow> u64" where
  "OldestActiveBeginMillis ivt =
    fold (\<lambda>e oldest.
        if \<not> IsActiveForOat (entry_state e) \<or> begin_unix_epoch_millis e = 0 then oldest
        else if oldest = 0 \<or> begin_unix_epoch_millis e < oldest then begin_unix_epoch_millis e
        else oldest) (entries ivt) 0"

text \<open>
  The value \<^verbatim>\<open>PublishTransactionHorizonMetrics\<close> hands to the gauge, in microseconds before the
  conversion to \<^verbatim>\<open>double\<close>, with the reason label; \<open>None\<close> when it publishes nothing.
\<close>

definition PublishTransactionHorizonMetrics ::
  "local_transaction_inventory \<Rightarrow> bool \<Rightarrow> u64 \<Rightarrow> (string \<times> u64) option" where
  "PublishTransactionHorizonMetrics ivt horizons_valid now =
    (if \<not> horizons_valid \<or> now = 0 then None
     else let oldest = OldestActiveBeginMillis ivt in
       if oldest = 0 \<or> now < oldest then Some (''no_active_snapshot'', 0)
       else Some (''oldest_active_begin'', (now - oldest) * 1000))"

section \<open>Lemmas\<close>

lemma min_where_Nil [simp]: "min_where p f [] i = i"
  by (simp add: min_where_def)

lemma min_where_Cons [simp]: "min_where p f (x # xs) i = min_where p f xs (if p x then min i (f x) else i)"
  by (simp add: min_where_def)

lemma le_min_where: "k \<le> min_where p f xs i \<longleftrightarrow> k \<le> i \<and> (\<forall>x \<in> set xs. p x \<longrightarrow> k \<le> f x)"
  by (induction xs arbitrary: i) auto

lemma less_min_where: "k < min_where p f xs i \<longleftrightarrow> k < i \<and> (\<forall>x \<in> set xs. p x \<longrightarrow> k < f x)"
  by (induction xs arbitrary: i) auto

lemma min_where_le_init: "min_where p f xs i \<le> i"
  using le_min_where [of "min_where p f xs i" p f xs i] by simp

lemma min_where_le: "x \<in> set xs \<Longrightarrow> p x \<Longrightarrow> min_where p f xs i \<le> f x"
  using le_min_where [of "min_where p f xs i" p f xs i] by simp

lemma min_where_attained: "min_where p f xs i = i \<or> (\<exists>x \<in> set xs. p x \<and> min_where p f xs i = f x)"
proof (induction xs arbitrary: i)
  case Nil
  show ?case by simp
next
  case (Cons x xs)
  from Cons.IH [of "if p x then min i (f x) else i"] show ?case
    by (auto simp: min_def split: if_splits)
qed

lemma ApplySnapshotHorizons_Inr:
  "ApplySnapshotHorizons nid hs i = Inr ost \<longleftrightarrow>
    (\<forall>h \<in> set hs. h \<noteq> 0 \<and> h \<le> nid) \<and> ost = min_where (\<lambda>_. True) (\<lambda>h. h) hs i"
  by (induction hs arbitrary: i)
    (auto simp: local_id_valid_def kInvalidLocalTransactionId_def not_less)

lemma resolved_or_interesting:
  assumes "entry_ok nid ncs e"
  shows "IsInteresting (InventoryVisibilityState e) \<longleftrightarrow> unresolved e"
  using assms
  by (cases "entry_state e")
    (auto simp: IsInteresting_def unresolved_def InventoryVisibilityState_def entry_ok_def)

lemma Calculate_Inr:
  "CalculateLocalHorizons ivt hs = Inr h \<longleftrightarrow>
    valid_inventory ivt \<and> ProjectValidatedLocalHorizons ivt hs = Inr h"
  by (auto simp: CalculateLocalHorizons_def structure_valid_iff split: sum.splits)

text \<open>The horizons of a valid inventory, as the minima they are.\<close>

definition oit_of :: "local_transaction_inventory \<Rightarrow> u64" where
  "oit_of ivt = min_where (\<lambda>e. IsInteresting (InventoryVisibilityState e)) entry_id (entries ivt)
    (next_local_transaction_id ivt)"

definition oat_of :: "local_transaction_inventory \<Rightarrow> u64" where
  "oat_of ivt = min_where (\<lambda>e. IsActiveForOat (entry_state e)) entry_id (entries ivt)
    (next_local_transaction_id ivt)"

lemma Project_Inr:
  assumes "ProjectValidatedLocalHorizons ivt hs = Inr h"
  shows "oldest_interesting_transaction h = oit_of ivt \<and> oldest_active_transaction h = oat_of ivt \<and>
    next_transaction_id h = next_local_transaction_id ivt \<and>
    (\<forall>k \<in> set hs. k \<noteq> 0 \<and> k \<le> next_local_transaction_id ivt) \<and>
    oldest_snapshot_transaction h =
      (let ost = min_where (\<lambda>_. True) (\<lambda>h. h) hs (if hs = [] then oat_of ivt else next_local_transaction_id ivt)
       in if StableCommitBoundary ivt \<noteq> next_commit_sequence ivt
          then min_where (\<lambda>e. HasCommittedInventoryOutcome e \<and> StableCommitBoundary ivt < commit_sequence e)
                 entry_id (entries ivt) (min ost (oit_of ivt))
          else ost)"
  using assms unfolding ProjectValidatedLocalHorizons_def Let_def oit_of_def oat_of_def
  by (auto simp: ApplySnapshotHorizons_Inr split: sum.splits)

lemma active_interesting:
  assumes "valid_inventory ivt" "e \<in> set (entries ivt)" "IsActiveForOat (entry_state e)"
  shows "IsInteresting (InventoryVisibilityState e)"
  using valid_entry [OF assms(1,2)] assms(3)
  by (auto simp: IsActiveForOat_def IsInteresting_def InventoryVisibilityState_def entry_ok_def)

lemma oit_le_oat: "valid_inventory ivt \<Longrightarrow> oit_of ivt \<le> oat_of ivt"
  unfolding oat_of_def le_min_where
  by (auto simp: oit_of_def intro!: min_where_le_init min_where_le [where f = "\<lambda>e. entry_id e"] active_interesting)

lemma oit_le_next: "oit_of ivt \<le> next_local_transaction_id ivt"
  by (simp add: oit_of_def min_where_le_init)

lemma entry_id_pos: "valid_inventory ivt \<Longrightarrow> e \<in> set (entries ivt) \<Longrightarrow> entry_id e \<noteq> 0"
  using valid_entry entry_ok_pos by blast

lemma oit_pos: "valid_inventory ivt \<Longrightarrow> oit_of ivt \<noteq> 0"
  using min_where_attained [of "\<lambda>e. IsInteresting (InventoryVisibilityState e)" "\<lambda>e. entry_id e" "entries ivt"
      "next_local_transaction_id ivt"]
  by (auto simp: oit_of_def valid_next dest: entry_id_pos)

lemma below_oit_resolved:
  assumes "valid_inventory ivt" "e \<in> set (entries ivt)" "entry_id e < oit_of ivt"
  shows "\<not> unresolved e"
proof
  assume "unresolved e"
  then have "IsInteresting (InventoryVisibilityState e)"
    using resolved_or_interesting [OF valid_entry [OF assms(1,2)]] by simp
  then have "oit_of ivt \<le> entry_id e" unfolding oit_of_def by (intro min_where_le [where f = "\<lambda>e. entry_id e"] assms(2))
  with assms(3) show False by simp
qed

lemma oit_step_mono:
  assumes st: "inventory_step ivt ivt'" and v: "valid_inventory ivt"
  shows "oit_of ivt \<le> oit_of ivt'"
proof -
  have v': "valid_inventory ivt'" using step_valid [OF st v] .
  have "oit_of ivt \<le> entry_id e"
    if e: "e \<in> set (entries ivt')" "IsInteresting (InventoryVisibilityState e)" for e
  proof (cases "next_local_transaction_id ivt \<le> entry_id e")
    case True
    then show ?thesis using oit_le_next order_trans by blast
  next
    case False
    then obtain old where old: "old \<in> set (entries ivt)" "keeps_history old e"
      using step_history [OF st v e(1)] by blast
    have "unresolved e" using resolved_or_interesting [OF valid_entry [OF v' e(1)]] e(2) by simp
    then have "unresolved old"
      using old(2) by (auto simp: unresolved_def keeps_history_def IsTerminalTransactionState_def)
    then have "\<not> entry_id old < oit_of ivt" using below_oit_resolved [OF v old(1)] by blast
    then show ?thesis using old(2) by (simp add: keeps_history_def)
  qed
  moreover have "oit_of ivt \<le> next_local_transaction_id ivt'"
    using oit_le_next step_next_mono [OF st v] order_trans by blast
  ultimately show ?thesis unfolding oit_of_def [of ivt'] le_min_where by blast
qed

interpretation oit_history: history_system inventory_step valid_inventory "\<lambda>a b. oit_of a \<le> oit_of b"
  by unfold_locales (auto intro: oit_step_mono)

lemma stable_boundary:
  assumes "valid_inventory ivt" "r \<in> set (entries ivt)" "stable_snapshot r" "IsActiveForOat (entry_state r)"
  shows "StableCommitBoundary ivt \<le> begin_visible_through_commit_sequence r"
    "StableCommitBoundary ivt \<noteq> next_commit_sequence ivt"
proof -
  show le: "StableCommitBoundary ivt \<le> begin_visible_through_commit_sequence r"
    unfolding StableCommitBoundary_def using assms(2-4) by (intro min_where_le) auto
  have "begin_visible_through_commit_sequence r < next_commit_sequence ivt"
    using valid_entry [OF assms(1,2)] by (simp add: entry_ok_def)
  with le show "StableCommitBoundary ivt \<noteq> next_commit_sequence ivt" by auto
qed

lemma ost_bounds:
  assumes "ProjectValidatedLocalHorizons ivt hs = Inr h"
  shows "oldest_snapshot_transaction h \<le>
      min_where (\<lambda>_. True) (\<lambda>h. h) hs (if hs = [] then oat_of ivt else next_local_transaction_id ivt)"
  using Project_Inr [OF assms]
  by (auto simp: Let_def intro: order_trans [OF min_where_le_init])

lemma ost_stable_bounds:
  assumes "ProjectValidatedLocalHorizons ivt hs = Inr h" and "StableCommitBoundary ivt \<noteq> next_commit_sequence ivt"
  shows "oldest_snapshot_transaction h \<le> oit_of ivt"
    and "e \<in> set (entries ivt) \<Longrightarrow> HasCommittedInventoryOutcome e \<Longrightarrow>
      StableCommitBoundary ivt < commit_sequence e \<Longrightarrow> oldest_snapshot_transaction h \<le> entry_id e"
proof -
  obtain i where "oldest_snapshot_transaction h =
      min_where (\<lambda>e. HasCommittedInventoryOutcome e \<and> StableCommitBoundary ivt < commit_sequence e)
        (\<lambda>e. entry_id e) (entries ivt) (min i (oit_of ivt))"
    using Project_Inr [OF assms(1)] assms(2) by (simp add: Let_def)
  then show "oldest_snapshot_transaction h \<le> oit_of ivt"
    and "e \<in> set (entries ivt) \<Longrightarrow> HasCommittedInventoryOutcome e \<Longrightarrow>
      StableCommitBoundary ivt < commit_sequence e \<Longrightarrow> oldest_snapshot_transaction h \<le> entry_id e"
    by (auto intro: order_trans [OF min_where_le_init] min_where_le [where f = "\<lambda>e. entry_id e"])
qed

lemma ost_le_snapshots:
  assumes "ComputeLocalTransactionHorizonsWithSnapshots ivt snaps = Inr h" and "s \<in> set snaps"
  shows "oldest_snapshot_transaction h \<le> s"
proof -
  have p: "ProjectValidatedLocalHorizons ivt snaps = Inr h"
    using assms(1) by (simp add: ComputeLocalTransactionHorizonsWithSnapshots_def Calculate_Inr)
  show ?thesis
    using ost_bounds [OF p] min_where_le [of s snaps "\<lambda>_. True" "\<lambda>h. h"] assms(2) by (auto intro: order_trans)
qed

lemma stable_boundary_unset:
  assumes "\<And>e. e \<in> set (entries ivt) \<Longrightarrow> stable_snapshot e \<Longrightarrow> \<not> IsActiveForOat (entry_state e)"
  shows "StableCommitBoundary ivt = next_commit_sequence ivt"
  using min_where_attained [of "\<lambda>e. stable_snapshot e \<and> IsActiveForOat (entry_state e)"
      "\<lambda>e. begin_visible_through_commit_sequence e" "entries ivt" "next_commit_sequence ivt"] assms
  by (auto simp: StableCommitBoundary_def)

text \<open>Without an active stable reader the horizons lie above every number below the open transactions and the given horizons.\<close>

lemma below_open_below_horizons:
  assumes h: "ComputeLocalTransactionHorizonsWithSnapshots ivt snaps = Inr h"
    and k: "k < next_local_transaction_id ivt" "\<And>e. e \<in> set (entries ivt) \<Longrightarrow> unresolved e \<Longrightarrow> k < entry_id e"
      "\<And>x. x \<in> set snaps \<Longrightarrow> k < x"
    and st: "\<And>e. e \<in> set (entries ivt) \<Longrightarrow> stable_snapshot e \<Longrightarrow> \<not> IsActiveForOat (entry_state e)"
  shows "k < oldest_interesting_transaction h \<and> k < oldest_active_transaction h \<and> k < oldest_snapshot_transaction h"
proof -
  have v: "valid_inventory ivt" and p: "ProjectValidatedLocalHorizons ivt snaps = Inr h"
    using h by (simp_all add: ComputeLocalTransactionHorizonsWithSnapshots_def Calculate_Inr)
  have oit: "k < oit_of ivt"
    using k(1,2) resolved_or_interesting [OF valid_entry [OF v]] by (auto simp: oit_of_def less_min_where)
  then have oat: "k < oat_of ivt" using oit_le_oat [OF v] by (rule less_le_trans)
  show ?thesis
    using Project_Inr [OF p] oit oat k(1,3) by (auto simp: Let_def stable_boundary_unset [OF st] less_min_where)
qed

text \<open>
  The snapshot horizon protects stable readers: while a stable reader is active, every transaction
  below the OST is resolved and, if it committed, committed within what that reader saw at its begin.
\<close>

lemma snapshot_horizon_protects_stable_readers:
  assumes "ComputeLocalTransactionHorizonsWithSnapshots ivt snaps = Inr h"
    and "r \<in> set (entries ivt)" and "stable_snapshot r"
    and "entry_state r = TS_active \<or> entry_state r = TS_read_only_active"
    and "e \<in> set (entries ivt)" and "entry_id e < oldest_snapshot_transaction h"
  shows "InventoryVisibilityState e = TS_rolled_back \<or>
    (InventoryVisibilityState e = TS_committed \<and>
     commit_sequence e \<le> begin_visible_through_commit_sequence r)"
proof -
  have v: "valid_inventory ivt" and p: "ProjectValidatedLocalHorizons ivt snaps = Inr h"
    using assms(1) by (simp_all add: ComputeLocalTransactionHorizonsWithSnapshots_def Calculate_Inr)
  have "IsActiveForOat (entry_state r)" using assms(4) by (simp add: IsActiveForOat_def)
  note sb = stable_boundary [OF v assms(2,3) this]
  have "entry_id e < oit_of ivt" using ost_stable_bounds(1) [OF p sb(2)] assms(6) by simp
  then have "\<not> unresolved e" by (rule below_oit_resolved [OF v assms(5)])
  moreover have "\<not> StableCommitBoundary ivt < commit_sequence e" if "HasCommittedInventoryOutcome e"
    using ost_stable_bounds(2) [OF p sb(2) assms(5) that] assms(6) by auto
  ultimately show ?thesis
    using sb(1) by (auto simp: unresolved_def HasCommittedInventoryOutcome_def)
qed

section \<open>Properties\<close>

text \<open>
  C17. Horizon order and meaning. The horizons are ordered, OIT below OAT below the next number,
  and OST is at most every snapshot horizon the caller supplied; every transaction below the OIT is
  committed or rolled back; and no active transaction is below the OAT.
\<close>

theorem horizons_bound_open_transactions:
  assumes "ComputeLocalTransactionHorizonsWithSnapshots ivt snaps = Inr h"
  shows "0 < oldest_interesting_transaction h \<and>
    oldest_interesting_transaction h \<le> oldest_active_transaction h \<and>
    oldest_active_transaction h \<le> next_transaction_id h \<and>
    oldest_snapshot_transaction h \<le> next_transaction_id h \<and>
    (\<forall>s \<in> set snaps. oldest_snapshot_transaction h \<le> s) \<and>
    (\<forall>e \<in> set (entries ivt).
       (entry_id e < oldest_interesting_transaction h \<longrightarrow>
          InventoryVisibilityState e = TS_committed \<or> InventoryVisibilityState e = TS_rolled_back) \<and>
       (entry_id e < oldest_active_transaction h \<longrightarrow>
          entry_state e \<noteq> TS_active \<and> entry_state e \<noteq> TS_read_only_active))"
proof -
  have v: "valid_inventory ivt" and p: "ProjectValidatedLocalHorizons ivt snaps = Inr h"
    using assms by (simp_all add: ComputeLocalTransactionHorizonsWithSnapshots_def Calculate_Inr)
  note h = Project_Inr [OF p]
  let ?m = "min_where (\<lambda>_. True) (\<lambda>h. h) snaps (if snaps = [] then oat_of ivt else next_local_transaction_id ivt)"
  have oat: "oat_of ivt \<le> next_local_transaction_id ivt" by (simp add: oat_of_def min_where_le_init)
  then have "?m \<le> next_local_transaction_id ivt"
    using min_where_le_init [of "\<lambda>_. True" "\<lambda>h. h" snaps] by (auto intro: order_trans)
  then have ost: "oldest_snapshot_transaction h \<le> next_local_transaction_id ivt"
    using ost_bounds [OF p] by (rule order_trans [rotated])
  note snaps = ost_le_snapshots [OF assms]
  have act: "\<not> IsActiveForOat (entry_state e)" if "e \<in> set (entries ivt)" "entry_id e < oat_of ivt" for e
    using min_where_le [of e "entries ivt" "\<lambda>e. IsActiveForOat (entry_state e)" "\<lambda>e. entry_id e"
        "next_local_transaction_id ivt"] that by (auto simp: oat_of_def)
  have res: "InventoryVisibilityState e = TS_committed \<or> InventoryVisibilityState e = TS_rolled_back"
    if "e \<in> set (entries ivt)" "entry_id e < oit_of ivt" for e
    using below_oit_resolved [OF v that] by (auto simp: unresolved_def)
  show ?thesis
    using h oit_pos [OF v] oit_le_oat [OF v] oat ost snaps act res
    by (auto simp: IsActiveForOat_def word_gt_0)
qed

theorem horizons_bound_open_transactions_witness:
  "\<exists>h. ComputeLocalTransactionHorizonsWithSnapshots sample_inventory [2] = Inr h \<and>
     oldest_snapshot_transaction h \<le> 2 \<and>
     oldest_interesting_transaction h \<le> oldest_active_transaction h"
proof -
  have "is_ok (ComputeLocalTransactionHorizonsWithSnapshots sample_inventory [2])" by code_simp
  then obtain h where h: "ComputeLocalTransactionHorizonsWithSnapshots sample_inventory [2] = Inr h"
    by (auto simp: is_ok_iff)
  from horizons_bound_open_transactions [OF h] h show ?thesis by auto
qed

text \<open>
  The oldest interesting transaction never moves back: along any sequence of operations the OIT
  of a later inventory is at least that of an earlier one, so what was below it stays below it.
\<close>

lemma oldest_interesting_never_moves_back:
  assumes "inventory_step\<^sup>*\<^sup>* ivt ivt'"
    and "ComputeLocalTransactionHorizons ivt = Inr h" and "ComputeLocalTransactionHorizons ivt' = Inr h'"
  shows "oldest_interesting_transaction h \<le> oldest_interesting_transaction h'"
proof -
  have v: "valid_inventory ivt" and p: "ProjectValidatedLocalHorizons ivt [] = Inr h"
    and p': "ProjectValidatedLocalHorizons ivt' [] = Inr h'"
    using assms(2,3) by (simp_all add: ComputeLocalTransactionHorizons_def Calculate_Inr)
  from oit_history.run_since [OF assms(1) v] Project_Inr [OF p] Project_Inr [OF p'] show ?thesis by simp
qed

end
