(* ===== verification/UuidCodec.thy ===== *)
theory UuidCodec
  imports UuidModel
begin

unbundle bit_operations_syntax

text \<open>
  The rest of \<^verbatim>\<open>core/uuid/uuid.cpp\<close>: text form, comparison, typed identities and the generators.
  Random bytes come from the cryptographic backend and are an argument of the generators that use
  them: \<open>None\<close> when the backend fails. The lemmas show that printing and parsing are inverse, that
  the index comparator agrees with the byte order, and what the version 7 generator guarantees.
\<close>

section \<open>Status and kinds\<close>

definition UuidErrorStatus :: status where
  "UuidErrorStatus =
    \<lparr>status_code = SC_uuid_invalid, status_severity = Sev_error, status_subsystem = Sub_uuid\<rparr>"

definition MakeUuidDiagnostic :: "status \<Rightarrow> string \<Rightarrow> string \<Rightarrow> string \<Rightarrow> diagnostic_record" where
  "MakeUuidDiagnostic = component_diagnostic ''core.uuid''"

definition UuidError :: "string \<Rightarrow> string \<Rightarrow> string \<Rightarrow> 'a result" where
  "UuidError code key detail = Inl (MakeUuidDiagnostic UuidErrorStatus code key detail)"

fun UuidKindName :: "uuid_kind \<Rightarrow> string" where
  "UuidKindName UK_database = ''database''"
| "UuidKindName UK_cluster = ''cluster''"
| "UuidKindName UK_filespace = ''filespace''"
| "UuidKindName UK_schema = ''schema''"
| "UuidKindName UK_object = ''object''"
| "UuidKindName UK_row = ''row''"
| "UuidKindName UK_page = ''page''"
| "UuidKindName UK_transaction = ''transaction''"
| "UuidKindName UK_session = ''session''"
| "UuidKindName UK_principal = ''principal''"
| "UuidKindName UK_unknown = ''unknown''"

definition UuidVersionName :: "u8 \<Rightarrow> string" where
  "UuidVersionName v =
    (if v = 1 then ''time_node_v1'' else if v = 2 then ''dce_security_v2''
     else if v = 3 then ''name_md5_v3'' else if v = 4 then ''random_v4''
     else if v = 5 then ''name_sha1_v5'' else if v = 6 then ''reordered_time_v6''
     else if v = 7 then ''unix_time_v7'' else ''unknown'')"

definition UuidKindAllowsDurableIdentity :: "uuid_kind \<Rightarrow> bool" where
  "UuidKindAllowsDurableIdentity k \<longleftrightarrow> k \<noteq> UK_session \<and> k \<noteq> UK_unknown"

definition IsEngineIdentityKind :: "uuid_kind \<Rightarrow> bool" where
  "IsEngineIdentityKind k \<longleftrightarrow> UuidKindAllowsDurableIdentity k \<or> k = UK_session"

record uuid_version_policy =
  allow_v1 :: bool
  allow_v2 :: bool
  allow_v3 :: bool
  allow_v4 :: bool
  allow_v5 :: bool
  allow_v6 :: bool
  allow_v7 :: bool

definition UuidVersionAllowed :: "uuid \<Rightarrow> uuid_version_policy \<Rightarrow> bool" where
  "UuidVersionAllowed u p =
    (let v = UuidVersion u in
     if v = 1 then allow_v1 p else if v = 2 then allow_v2 p else if v = 3 then allow_v3 p
     else if v = 4 then allow_v4 p else if v = 5 then allow_v5 p else if v = 6 then allow_v6 p
     else if v = 7 then allow_v7 p else False)"

section \<open>Comparison\<close>

text \<open>\<^verbatim>\<open>memcmp\<close> on unsigned bytes, already reduced to its sign.\<close>

fun memcmp :: "byte list \<Rightarrow> byte list \<Rightarrow> int" where
  "memcmp (a # as) (b # bs) = (if a < b then -1 else if b < a then 1 else memcmp as bs)"
| "memcmp _ _ = 0"

definition CompareUuid128 :: "uuid \<Rightarrow> uuid \<Rightarrow> int" where
  "CompareUuid128 l r = memcmp (take 16 (uuid_bytes l)) (take 16 (uuid_bytes r))"

text \<open>The result is the reason of a refusal, or the milliseconds.\<close>

definition ExtractUuidV7TimePrefix :: "uuid \<Rightarrow> string + u64" where
  "ExtractUuidV7TimePrefix u =
    (if is_nil u then Inl ''nil_uuid''
     else if \<not> IsValidUuidVariant u then Inl ''invalid_variant''
     else if UuidVersion u \<noteq> 7 then Inl ''not_uuid_v7''
     else let b = (\<lambda>i. ucast (uuid_bytes u ! i) :: u64) in
       Inr (push_bit 40 (b 0) OR push_bit 32 (b 1) OR push_bit 24 (b 2) OR push_bit 16 (b 3) OR
            push_bit 8 (b 4) OR b 5))"

text \<open>The fields of \<^verbatim>\<open>UuidV7IndexCompareResult\<close>; the fallback flag is the negation of the first one.\<close>

record uuid_v7_index_compare_result =
  specialized_comparator_used :: bool
  comparison :: int
  compare_refusal_reason :: string

definition CompareUuidV7ForIndex ::
  "typed_uuid \<Rightarrow> typed_uuid \<Rightarrow> uuid_kind \<Rightarrow> uuid_v7_index_compare_result" where
  "CompareUuidV7ForIndex left right expected_kind =
    (let full = CompareUuid128 (uuid_value left) (uuid_value right);
         refuse = (\<lambda>why. \<lparr>specialized_comparator_used = False, comparison = full,
                          compare_refusal_reason = why\<rparr>) in
     if \<not> IsEngineIdentityKind expected_kind then refuse ''unsupported_kind''
     else if uuid_kind left \<noteq> expected_kind \<or> uuid_kind right \<noteq> expected_kind
       then refuse ''kind_mismatch''
     else case (ExtractUuidV7TimePrefix (uuid_value left), ExtractUuidV7TimePrefix (uuid_value right)) of
       (Inl why, _) \<Rightarrow> refuse why
     | (_, Inl why) \<Rightarrow> refuse why
     | (Inr l, Inr r) \<Rightarrow>
         \<lparr>specialized_comparator_used = True,
          comparison = (if l < r then -1 else if r < l then 1 else full),
          compare_refusal_reason = ''''\<rparr>)"

section \<open>Text form\<close>

definition kHex :: string where
  "kHex = ''0123456789abcdef''"

definition HexValue :: "char \<Rightarrow> int" where
  "HexValue c =
    (let n = of_char c in
     if 48 \<le> n \<and> n \<le> 57 then n - 48
     else if 97 \<le> n \<and> n \<le> 102 then 10 + (n - 97)
     else if 65 \<le> n \<and> n \<le> 70 then 10 + (n - 65)
     else -1)"

definition hex_byte :: "byte \<Rightarrow> string" where
  "hex_byte b = [kHex ! unat (drop_bit 4 b AND 15), kHex ! unat (b AND 15)]"

definition UuidToString :: "uuid \<Rightarrow> string" where
  "UuidToString u =
    concat (map (\<lambda>(i, b). (if i = 4 \<or> i = 6 \<or> i = 8 \<or> i = 10 then ''-'' else '''') @ hex_byte b)
      (enumerate 0 (uuid_bytes u)))"

definition StripUuidDashes :: "string \<Rightarrow> string" where
  "StripUuidDashes text = filter (\<lambda>c. c \<noteq> CHR ''-'') text"

definition HasCanonicalDashPositions :: "string \<Rightarrow> bool" where
  "HasCanonicalDashPositions text \<longleftrightarrow>
    (if length text = 32 then True
     else if length text \<noteq> 36 then False
     else text ! 8 = CHR ''-'' \<and> text ! 13 = CHR ''-'' \<and> text ! 18 = CHR ''-'' \<and> text ! 23 = CHR ''-'')"

text \<open>The loop over the digit pairs; \<open>None\<close> is the early return on a character that is no hex digit.\<close>

fun ParseHexPairs :: "string \<Rightarrow> byte list option" where
  "ParseHexPairs (h # l # rest) =
    (if HexValue h < 0 \<or> HexValue l < 0 then None
     else case ParseHexPairs rest of
       None \<Rightarrow> None
     | Some bs \<Rightarrow> Some (word_of_int (push_bit 4 (HexValue h) OR HexValue l) # bs))"
| "ParseHexPairs _ = Some []"

definition ParseUuid :: "string \<Rightarrow> uuid result" where
  "ParseUuid text =
    (if \<not> HasCanonicalDashPositions text then
       UuidError ''SB-UUID-PARSE-SHAPE'' ''uuid.parse.invalid_shape'' text
     else let stripped = StripUuidDashes text in
     if length stripped \<noteq> 32 then
       UuidError ''SB-UUID-PARSE-LENGTH'' ''uuid.parse.invalid_length'' text
     else case ParseHexPairs stripped of
       None \<Rightarrow> UuidError ''SB-UUID-PARSE-HEX'' ''uuid.parse.invalid_hex'' text
     | Some bs \<Rightarrow>
         if is_nil (Uuid bs) then
           UuidError ''SB-UUID-PARSE-NIL'' ''uuid.parse.nil_not_allowed'' text
         else if \<not> IsValidUuidVariant (Uuid bs) then
           UuidError ''SB-UUID-PARSE-VARIANT'' ''uuid.parse.invalid_variant'' text
         else Inr (Uuid bs))"

section \<open>Typed identities\<close>

definition MakeTypedUuid :: "uuid_kind \<Rightarrow> uuid \<Rightarrow> typed_uuid result" where
  "MakeTypedUuid k u =
    (if \<not> IsEngineIdentityKind k then
       UuidError ''SB-UUID-TYPED-UNKNOWN-KIND'' ''uuid.typed.unknown_kind'' ''''
     else if is_nil u then
       UuidError ''SB-UUID-TYPED-NIL'' ''uuid.typed.nil_not_allowed'' (UuidKindName k)
     else if \<not> IsValidUuidVariant u then
       UuidError ''SB-UUID-TYPED-VARIANT'' ''uuid.typed.invalid_variant'' (UuidKindName k)
     else if UuidVersion u \<noteq> 7 then
       UuidError ''SB-UUID-TYPED-ENGINE-IDENTITY-NOT-V7'' ''uuid.typed.engine_identity_requires_v7''
         (UuidKindName k)
     else Inr \<lparr>uuid_kind = k, uuid_value = u\<rparr>)"

definition ParseTypedUuid :: "uuid_kind \<Rightarrow> string \<Rightarrow> typed_uuid result" where
  "ParseTypedUuid k text = bind_result (ParseUuid text) (MakeTypedUuid k)"

definition MakeDurableEngineIdentityUuid :: "uuid_kind \<Rightarrow> uuid \<Rightarrow> typed_uuid result" where
  "MakeDurableEngineIdentityUuid k u =
    (if \<not> UuidKindAllowsDurableIdentity k then
       UuidError ''SB-UUID-DURABLE-IDENTITY-KIND'' ''uuid.durable_identity.kind_not_allowed''
         (UuidKindName k)
     else MakeTypedUuid k u)"

definition ParseDurableEngineIdentityUuid :: "uuid_kind \<Rightarrow> string \<Rightarrow> typed_uuid result" where
  "ParseDurableEngineIdentityUuid k text =
    bind_result (ParseUuid text) (MakeDurableEngineIdentityUuid k)"

section \<open>Generators\<close>

definition kUuid60BitMask :: u64 where
  "kUuid60BitMask = 0x0fffffffffffffff"

definition StoreBe16 :: "byte list \<Rightarrow> nat \<Rightarrow> u16 \<Rightarrow> byte list" where
  "StoreBe16 bs off v = bs[off := ucast (drop_bit 8 v), off + 1 := ucast v]"

definition StoreBe32 :: "byte list \<Rightarrow> nat \<Rightarrow> u32 \<Rightarrow> byte list" where
  "StoreBe32 bs off v =
    bs[off := ucast (drop_bit 24 v), off + 1 := ucast (drop_bit 16 v),
       off + 2 := ucast (drop_bit 8 v), off + 3 := ucast v]"

definition SetVariantAndClockSequence :: "byte list \<Rightarrow> u16 \<Rightarrow> byte list" where
  "SetVariantAndClockSequence bs clock_sequence =
    (let cs = clock_sequence AND 0x3fff in
     bs[8 := 0x80 OR (ucast (drop_bit 8 cs) AND 0x3f), 9 := ucast cs])"

definition SetVersion :: "byte list \<Rightarrow> u8 \<Rightarrow> byte list" where
  "SetVersion bs version =
    bs[6 := (bs ! 6 AND 0x0f) OR push_bit 4 (version AND 0x0f), 8 := (bs ! 8 AND 0x3f) OR 0x80]"

definition MakeV1Layout :: "u8 \<Rightarrow> u64 \<Rightarrow> u16 \<Rightarrow> byte list \<Rightarrow> byte list" where
  "MakeV1Layout version gregorian_100ns_timestamp clock_sequence node =
    (let timestamp = gregorian_100ns_timestamp AND kUuid60BitMask;
         b0 = StoreBe32 (replicate 16 0) 0 (ucast timestamp);
         b4 = StoreBe16 b0 4 (ucast (drop_bit 32 timestamp));
         b6 = StoreBe16 b4 6 (push_bit 12 (ucast (version AND 0x0f)) OR
                              (ucast (drop_bit 48 timestamp) AND 0x0fff));
         b8 = SetVariantAndClockSequence b6 clock_sequence
     in take 10 b8 @ node)"

definition MakeCompatibilityUuidResult :: "uuid \<Rightarrow> u8 \<Rightarrow> uuid result" where
  "MakeCompatibilityUuidResult u expected_version =
    (if is_nil u then
       UuidError ''SB-UUID-COMPATIBILITY-NIL'' ''uuid.compatibility.nil_not_allowed'' ''''
     else if \<not> IsValidUuidVariant u then
       UuidError ''SB-UUID-COMPATIBILITY-VARIANT'' ''uuid.compatibility.invalid_variant'' ''''
     else if UuidVersion u \<noteq> expected_version then
       UuidError ''SB-UUID-COMPATIBILITY-VERSION'' ''uuid.compatibility.invalid_version''
         (UuidVersionName (UuidVersion u))
     else Inr u)"

definition GenerateTimeNodeV1 :: "uuid_kind \<Rightarrow> u64 \<Rightarrow> u16 \<Rightarrow> byte list \<Rightarrow> typed_uuid result" where
  "GenerateTimeNodeV1 k ts cs node = MakeTypedUuid k (Uuid (MakeV1Layout 1 ts cs node))"

definition GenerateCompatibilityTimeNodeV1 :: "u64 \<Rightarrow> u16 \<Rightarrow> byte list \<Rightarrow> uuid result" where
  "GenerateCompatibilityTimeNodeV1 ts cs node =
    MakeCompatibilityUuidResult (Uuid (MakeV1Layout 1 ts cs node)) 1"

definition GenerateCompatibilityDceSecurityV2 ::
  "u64 \<Rightarrow> u16 \<Rightarrow> byte list \<Rightarrow> u8 \<Rightarrow> u32 \<Rightarrow> uuid result" where
  "GenerateCompatibilityDceSecurityV2 ts cs node local_domain local_identifier =
    MakeCompatibilityUuidResult
      (Uuid ((StoreBe32 (MakeV1Layout 2 ts cs node) 0 local_identifier)[9 := local_domain])) 2"

definition GenerateCompatibilityRandomV4 :: "byte list option \<Rightarrow> uuid result" where
  "GenerateCompatibilityRandomV4 random_bytes =
    (case random_bytes of
       None \<Rightarrow> UuidError ''TIME.UUID_RANDOMNESS_UNAVAILABLE'' ''uuid.randomness.unavailable'' ''''
     | Some bs \<Rightarrow> MakeCompatibilityUuidResult (Uuid (SetVersion bs 4)) 4)"

definition GenerateCompatibilityReorderedTimeV6 :: "u64 \<Rightarrow> u16 \<Rightarrow> byte list \<Rightarrow> uuid result" where
  "GenerateCompatibilityReorderedTimeV6 ts cs node =
    (let timestamp = ts AND kUuid60BitMask;
         bs = [ucast (drop_bit 52 timestamp), ucast (drop_bit 44 timestamp),
               ucast (drop_bit 36 timestamp), ucast (drop_bit 28 timestamp),
               ucast (drop_bit 20 timestamp), ucast (drop_bit 12 timestamp),
               0x60 OR (ucast (drop_bit 8 timestamp) AND 0x0f), ucast timestamp] @ replicate 8 0
     in MakeCompatibilityUuidResult (Uuid (take 10 (SetVariantAndClockSequence bs cs) @ node)) 6)"

definition GenerateCompatibilityUnixTimeV7 :: "u64 \<Rightarrow> byte list option \<Rightarrow> uuid result" where
  "GenerateCompatibilityUnixTimeV7 ms random_bytes =
    (if 0x0000ffffffffffff < ms then
       UuidError ''TIME.UUID_TIMESTAMP_OUT_OF_RANGE'' ''uuid.timestamp.out_of_range'' ''''
     else case random_bytes of
       None \<Rightarrow> UuidError ''TIME.UUID_RANDOMNESS_UNAVAILABLE'' ''uuid.randomness.unavailable'' ''''
     | Some bs \<Rightarrow>
         MakeCompatibilityUuidResult
           (Uuid (SetVersion (bs[0 := ucast (drop_bit 40 ms), 1 := ucast (drop_bit 32 ms),
              2 := ucast (drop_bit 24 ms), 3 := ucast (drop_bit 16 ms),
              4 := ucast (drop_bit 8 ms), 5 := ucast ms]) 7)) 7)"

definition GenerateDurableEngineIdentityV7 :: "uuid_kind \<Rightarrow> u64 \<Rightarrow> byte list option \<Rightarrow> typed_uuid result" where
  "GenerateDurableEngineIdentityV7 k ms random_bytes =
    bind_result (GenerateCompatibilityUnixTimeV7 ms random_bytes) (MakeDurableEngineIdentityUuid k)"

section \<open>Lemmas: big-endian values and the byte order\<close>

definition be_value :: "byte list \<Rightarrow> nat" where
  "be_value bs = foldl (\<lambda>a b. a * 256 + unat b) 0 bs"

lemma be_value_snoc: "be_value (bs @ [b]) = be_value bs * 256 + unat b"
  by (simp add: be_value_def)

lemma be_value_Nil [simp]: "be_value [] = 0"
  by (simp add: be_value_def)

lemma unat_byte_less: "unat (b :: byte) < 256"
  using unsigned_less [of b] by simp

lemma be_value_Cons: "be_value (b # bs) = unat b * 256 ^ length bs + be_value bs"
proof (induction bs rule: rev_induct)
  case Nil
  show ?case by (simp add: be_value_def)
next
  case (snoc c cs)
  have "be_value (b # cs @ [c]) = be_value (b # cs) * 256 + unat c"
    using be_value_snoc [of "b # cs" c] by simp
  with snoc show ?case by (simp add: be_value_snoc algebra_simps)
qed

lemma be_value_less: "be_value bs < 256 ^ length bs"
proof (induction bs rule: rev_induct)
  case Nil
  show ?case by simp
next
  case (snoc c cs)
  then show ?case using unat_byte_less [of c] by (simp add: be_value_snoc)
qed

lemma memcmp_values: "memcmp as bs \<in> {-1, 0, 1}"
  by (induction as bs rule: memcmp.induct) auto

lemma memcmp_be_value:
  "length as = length bs \<Longrightarrow>
   memcmp as bs = (if be_value as < be_value bs then -1 else if be_value bs < be_value as then 1 else 0)"
proof (induction as bs rule: memcmp.induct)
  case (1 a as b bs)
  let ?p = "256 ^ length as :: nat"
  have len: "length as = length bs" using 1 by simp
  have step: "be_value (x # xs) < be_value (y # ys)"
    if "unat x < unat y" "length xs = length ys" for x y :: byte and xs ys
  proof -
    have "be_value (x # xs) < (unat x + 1) * 256 ^ length xs"
      using be_value_less [of xs] by (simp add: be_value_Cons)
    also have "\<dots> \<le> unat y * 256 ^ length xs" using that(1) by (intro mult_le_mono1) simp
    also have "\<dots> \<le> be_value (y # ys)" using that(2) by (simp add: be_value_Cons)
    finally show ?thesis .
  qed
  show ?case
  proof (cases a b rule: linorder_cases)
    case less
    then show ?thesis using step [of a b as bs] len by (simp add: word_less_nat_alt)
  next
    case equal
    then show ?thesis using 1 len by (simp add: be_value_Cons)
  next
    case greater
    then show ?thesis using step [of b a bs as] len by (simp add: word_less_nat_alt)
  qed
qed auto

lemma memcmp_append:
  "length as = length bs \<Longrightarrow>
   memcmp (as @ as') (bs @ bs') = (if memcmp as bs = 0 then memcmp as' bs' else memcmp as bs)"
  by (induction as bs rule: memcmp.induct) auto

lemma memcmp_eq_0: "length as = length bs \<Longrightarrow> memcmp as bs = 0 \<longleftrightarrow> as = bs"
  by (induction as bs rule: memcmp.induct) auto

text \<open>Appending one byte to a big-endian accumulator is a multiplication and an addition.\<close>

lemma push_byte:
  fixes x :: u64
  assumes "unat x < 2 ^ 56"
  shows "unat (push_bit 8 x OR ucast (b :: byte)) = unat x * 256 + unat b"
proof -
  have "push_bit 8 x OR (ucast b :: u64) = push_bit 8 x + ucast b"
    by (rule disjunctive_add [symmetric])
      (auto simp: bit_simps dest: bit_imp_le_length)
  moreover have "unat (push_bit 8 x) = unat x * 256"
    using assms by (simp add: push_bit_eq_mult unat_mult_lem [THEN iffD1])
  moreover have "unat (ucast b :: u64) = unat b" by (simp add: unsigned_ucast_eq take_bit_nat_eq_self less_trans [OF unat_byte_less])
  ultimately show ?thesis
    using assms unat_byte_less [of b] by (simp add: unat_plus_if')
qed

lemma list16_cases:
  assumes "length xs = 16"
  obtains a b c d e f g h i j k l m n p q where "xs = [a,b,c,d,e,f,g,h,i,j,k,l,m,n,p,q]"
  using assms by (auto simp: numeral_eq_Suc length_Suc_conv)

lemma be_prefix:
  fixes a b c d e f :: byte
  defines "w \<equiv> \<lambda>x :: byte. ucast x :: u64"
  shows "unat (push_bit 40 (w a) OR push_bit 32 (w b) OR push_bit 24 (w c) OR push_bit 16 (w d) OR
      push_bit 8 (w e) OR w f) = be_value [a, b, c, d, e, f]"
proof -
  define h where "h = (\<lambda>(x :: u64) y. push_bit 8 x OR w y)"
  have h: "unat (h x y) = unat x * 256 + unat y" if "unat x < 256 ^ 7" for x y
    using push_byte [of x y] that by (simp add: h_def w_def)
  have v: "unat (foldl h 0 bs) = be_value bs" if "length bs \<le> 8" for bs
    using that
  proof (induction bs rule: rev_induct)
    case Nil
    show ?case by simp
  next
    case (snoc y ys)
    have "be_value ys < 256 ^ 7"
      by (rule less_le_trans [OF be_value_less]) (use snoc.prems power_increasing [of "length ys" 7 "256 :: nat"] in simp)
    with snoc show ?case by (simp add: h be_value_snoc)
  qed
  have "push_bit 40 (w a) OR push_bit 32 (w b) OR push_bit 24 (w c) OR push_bit 16 (w d) OR
      push_bit 8 (w e) OR w f = foldl h 0 [a, b, c, d, e, f]"
    by (simp add: h_def push_bit_or push_bit_push_bit or.assoc)
  with v [of "[a, b, c, d, e, f]"] show ?thesis by simp
qed

lemma time_prefix_value:
  assumes "wf_uuid u" "ExtractUuidV7TimePrefix u = Inr t"
  shows "unat t = be_value (take 6 (uuid_bytes u))"
proof -
  obtain a b c d e f g h i j k l m n p q where u: "uuid_bytes u = [a,b,c,d,e,f,g,h,i,j,k,l,m,n,p,q]"
    using assms(1) list16_cases [of "uuid_bytes u"] unfolding wf_uuid_def by metis
  show ?thesis
    using assms(2) be_prefix [of a b c d e f]
    by (auto simp: ExtractUuidV7TimePrefix_def u Let_def split: if_splits)
qed

lemma CompareUuid128_prefix:
  assumes "wf_uuid u" "wf_uuid v"
    and "be_value (take 6 (uuid_bytes u)) < be_value (take 6 (uuid_bytes v))"
  shows "CompareUuid128 u v = -1 \<and> CompareUuid128 v u = 1"
proof -
  let ?a = "take 6 (uuid_bytes u)" and ?b = "take 6 (uuid_bytes v)"
  have len: "length ?a = length ?b" using assms by (simp add: wf_uuid_def)
  have "memcmp ?a ?b = -1" "memcmp ?b ?a = 1"
    using memcmp_be_value [OF len] memcmp_be_value [OF len [symmetric]] assms(3) by simp_all
  then show ?thesis
    using memcmp_append [OF len, of "drop 6 (uuid_bytes u)" "drop 6 (uuid_bytes v)"]
      memcmp_append [OF len [symmetric], of "drop 6 (uuid_bytes v)" "drop 6 (uuid_bytes u)"] assms
    by (simp add: CompareUuid128_def wf_uuid_def)
qed

lemma index_comparison_eq:
  assumes "wf_uuid (uuid_value l)" "wf_uuid (uuid_value r)"
  shows "comparison (CompareUuidV7ForIndex l r k) = CompareUuid128 (uuid_value l) (uuid_value r)"
proof -
  have less: "CompareUuid128 (uuid_value x) (uuid_value y) = -1 \<and>
      CompareUuid128 (uuid_value y) (uuid_value x) = 1"
    if "wf_uuid (uuid_value x)" "wf_uuid (uuid_value y)" "ExtractUuidV7TimePrefix (uuid_value x) = Inr s"
      "ExtractUuidV7TimePrefix (uuid_value y) = Inr t" "s < t" for x y :: typed_uuid and s t
    using that CompareUuid128_prefix [of "uuid_value x" "uuid_value y"]
    by (simp add: time_prefix_value [symmetric] word_less_nat_alt)
  show ?thesis
    using less [of l r] less [of r l] assms
    by (auto simp: CompareUuidV7ForIndex_def Let_def split: sum.splits)
qed

section \<open>Lemmas: the version 7 generator\<close>

lemma less_8_cases: "n < 8 \<Longrightarrow> n = 0 \<or> n = 1 \<or> n = 2 \<or> n = 3 \<or> n = 4 \<or> n = 5 \<or> n = 6 \<or> n = (7 :: nat)"
  by auto

lemma variant_set: "((b AND 0x3f) OR 0x80) AND 0xc0 = (0x80 :: byte)"
  by (rule bit_eqI) (auto simp: bit_simps dest!: less_8_cases)

lemma version_set: "drop_bit 4 ((b AND 0x0f) OR push_bit 4 (v AND 0x0f)) AND 0x0f = (v AND 0x0f :: byte)"
  by (rule bit_eqI) (auto simp: bit_simps dest!: less_8_cases)

lemma UuidError_not_Inr [simp]: "UuidError c k d \<noteq> Inr x" "Inr x \<noteq> UuidError c k d"
  by (simp_all add: UuidError_def)

lemma unat_byte_of: "unat (ucast (drop_bit k (w :: u64)) :: byte) = unat w div 2 ^ k mod 256"
proof -
  have "unat (drop_bit k w) = unat w div 2 ^ k"
    using take_bit_nat_eq_self [of "unat w" 64] unsigned_less [of w, where ?'a = nat]
    by (simp only: unsigned_drop_bit_eq) (simp add: drop_bit_eq_div)
  then show ?thesis by (simp add: unsigned_ucast_eq take_bit_eq_mod)
qed

lemma be_value_millis:
  assumes "unat (ms :: u64) < 2 ^ 48"
  shows "be_value [ucast (drop_bit 40 ms), ucast (drop_bit 32 ms), ucast (drop_bit 24 ms),
    ucast (drop_bit 16 ms), ucast (drop_bit 8 ms), ucast ms] = unat ms"
proof -
  have b0: "unat (ucast ms :: byte) = unat ms mod 256" using unat_byte_of [of 0 ms] by simp
  define m where "m = unat ms"
  have step: "x div (2 ^ (k + 8)) * 256 + x div 2 ^ k mod 256 = x div 2 ^ k" for x k :: nat
    by (simp add: power_add div_mult2_eq)
  have top: "m div 2 ^ 40 mod 256 = m div 2 ^ 40" using assms by (simp add: m_def div_less_iff_less_mult)
  show ?thesis
    using step [of m 32] step [of m 24] step [of m 16] step [of m 8] step [of m 0] top
    by (simp add: be_value_def b0 unat_byte_of m_def)
qed

definition v7_bytes :: "u64 \<Rightarrow> byte list \<Rightarrow> byte list" where
  "v7_bytes ms bs = SetVersion (bs[0 := ucast (drop_bit 40 ms), 1 := ucast (drop_bit 32 ms),
     2 := ucast (drop_bit 24 ms), 3 := ucast (drop_bit 16 ms), 4 := ucast (drop_bit 8 ms),
     5 := ucast ms]) 7"

lemma v7_bytes_facts:
  assumes "length bs = 16" and ms: "ms \<le> 0x0000ffffffffffff"
  shows "wf_uuid (Uuid (v7_bytes ms bs))" "IsEngineIdentityUuid (Uuid (v7_bytes ms bs))"
    "ExtractUuidV7TimePrefix (Uuid (v7_bytes ms bs)) = Inr ms"
proof -
  let ?u = "Uuid (v7_bytes ms bs)"
  obtain a b c d e f g h i j k l m n p q where bs: "bs = [a,b,c,d,e,f,g,h,i,j,k,l,m,n,p,q]"
    using assms(1) list16_cases [of bs] by metis
  have m48: "unat ms < 2 ^ 48" using ms by (simp add: word_le_nat_alt)
  show wf: "wf_uuid ?u" by (simp add: wf_uuid_def v7_bytes_def SetVersion_def bs)
  have var: "IsValidUuidVariant ?u"
    by (simp add: IsValidUuidVariant_def v7_bytes_def SetVersion_def bs variant_set)
  have ver: "UuidVersion ?u = 7"
    using version_set [of g 7] by (simp add: UuidVersion_def v7_bytes_def SetVersion_def bs)
  have "\<not> is_nil ?u"
  proof
    assume "is_nil ?u"
    then have "(i AND 0x3f) OR 0x80 = 0"
      by (simp add: is_nil_def v7_bytes_def SetVersion_def bs)
    with variant_set [of i] show False by simp
  qed
  with var ver show eng: "IsEngineIdentityUuid ?u" by (simp add: IsEngineIdentityUuid_def)
  have "ExtractUuidV7TimePrefix ?u \<noteq> Inl w" for w
    using eng by (simp add: ExtractUuidV7TimePrefix_def IsEngineIdentityUuid_def)
  then obtain t where t: "ExtractUuidV7TimePrefix ?u = Inr t"
    by (cases "ExtractUuidV7TimePrefix ?u") auto
  have "unat t = unat ms"
    using time_prefix_value [OF wf t] be_value_millis [OF m48]
    by (simp add: v7_bytes_def SetVersion_def bs)
  with t show "ExtractUuidV7TimePrefix ?u = Inr ms" by (simp add: unsigned_word_eqI)
qed

lemma GenerateV7_Inr:
  assumes "length bs = 16" "ms \<le> 0x0000ffffffffffff" "UuidKindAllowsDurableIdentity k"
  shows "GenerateDurableEngineIdentityV7 k ms (Some bs) =
    Inr \<lparr>uuid_kind = k, uuid_value = Uuid (v7_bytes ms bs)\<rparr>"
proof -
  have "\<not> is_nil (Uuid (v7_bytes ms bs))" "IsValidUuidVariant (Uuid (v7_bytes ms bs))"
    "UuidVersion (Uuid (v7_bytes ms bs)) = 7"
    using v7_bytes_facts(2) [OF assms(1,2)] by (simp_all add: IsEngineIdentityUuid_def)
  moreover have "\<not> 0x0000ffffffffffff < ms" using assms(2) by (rule leD)
  ultimately show ?thesis using assms(3)
    by (simp add: GenerateDurableEngineIdentityV7_def GenerateCompatibilityUnixTimeV7_def
        MakeCompatibilityUuidResult_def MakeDurableEngineIdentityUuid_def MakeTypedUuid_def
        IsEngineIdentityKind_def bind_result_def v7_bytes_def)
qed

lemma MakeTypedUuid_Inr:
  "MakeTypedUuid k u = Inr t \<longleftrightarrow>
    k \<noteq> UK_unknown \<and> IsEngineIdentityUuid u \<and> t = \<lparr>uuid_kind = k, uuid_value = u\<rparr>"
  by (auto simp: MakeTypedUuid_def IsEngineIdentityKind_def UuidKindAllowsDurableIdentity_def
      IsEngineIdentityUuid_def)

section \<open>Lemmas: the text form\<close>

lemma kHex_digit: "n < 16 \<Longrightarrow> HexValue (kHex ! n) = int n \<and> kHex ! n \<noteq> CHR ''-''"
proof -
  assume "n < 16"
  then have "n \<in> set [0..<16]" by simp
  moreover have "\<forall>n \<in> set [0..<16]. HexValue (kHex ! n) = int n \<and> kHex ! n \<noteq> CHR ''-''"
    by code_simp
  ultimately show ?thesis by blast
qed

lemma nibble: "b AND 15 = take_bit 4 (b :: byte)"
  by (simp add: take_bit_eq_mask mask_eq_exp_minus_1)

lemma nibble_less: "unat (b AND 15 :: byte) < 16"
  using take_bit_nat_less_exp [of 4 "unat b"] by (simp add: nibble unsigned_take_bit_eq)

lemma HexValue_hex_byte:
  "HexValue (kHex ! unat (b AND 15)) = uint (b AND 15 :: byte)"
  "kHex ! unat (b AND 15) \<noteq> CHR ''-''"
  using kHex_digit [OF nibble_less [of b]] by simp_all

lemma byte_of_nibbles:
  "word_of_int (push_bit 4 (uint (drop_bit 4 b AND 15)) OR uint (b AND 15)) = (b :: byte)"
  by (rule bit_eqI) (auto simp: bit_simps dest!: less_8_cases)

lemma ParseHexPairs_hex_byte:
  "ParseHexPairs (hex_byte b @ rest) = map_option ((#) b) (ParseHexPairs rest)"
  by (simp add: hex_byte_def HexValue_hex_byte byte_of_nibbles split: option.splits)

lemma ParseHexPairs_concat: "ParseHexPairs (concat (map hex_byte bs)) = Some bs"
  by (induction bs) (simp_all add: ParseHexPairs_hex_byte)

lemma hex_byte_no_dash: "filter (\<lambda>c. c \<noteq> CHR ''-'') (hex_byte b) = hex_byte b"
  by (simp add: hex_byte_def HexValue_hex_byte)

lemma StripUuidDashes_UuidToString:
  "StripUuidDashes (UuidToString u) = concat (map hex_byte (uuid_bytes u))"
proof -
  have dash: "filter (\<lambda>c. c \<noteq> CHR ''-'') ((if p then ''-'' else '''') @ hex_byte b) = hex_byte b" for p b
    by (simp add: hex_byte_no_dash)
  have "StripUuidDashes (UuidToString u) = concat (map (\<lambda>x. hex_byte (snd x)) (enumerate 0 (uuid_bytes u)))"
    unfolding StripUuidDashes_def UuidToString_def filter_concat map_map comp_def split_beta dash ..
  also have "map (\<lambda>x. hex_byte (snd x)) (enumerate 0 (uuid_bytes u)) = map hex_byte (uuid_bytes u)"
    using map_snd_enumerate [of 0 "uuid_bytes u"] by (metis (no_types, lifting) comp_def list.map_comp map_eq_conv)
  finally show ?thesis .
qed

lemma UuidToString_shape: "wf_uuid u \<Longrightarrow> HasCanonicalDashPositions (UuidToString u)"
  unfolding wf_uuid_def
  by (erule list16_cases) (simp add: HasCanonicalDashPositions_def UuidToString_def hex_byte_def)

lemma parse_print:
  assumes "wf_uuid u" "\<not> is_nil u" "IsValidUuidVariant u"
  shows "ParseUuid (UuidToString u) = Inr u"
proof -
  have "length (concat (map hex_byte (uuid_bytes u))) = 32"
    using assms(1) by (simp add: wf_uuid_def length_concat hex_byte_def comp_def sum_list_triv)
  then show ?thesis
    using assms UuidToString_shape [OF assms(1)]
    by (simp add: ParseUuid_def StripUuidDashes_UuidToString ParseHexPairs_concat Let_def)
qed

lemma ParseHexPairs_length: "ParseHexPairs s = Some bs \<Longrightarrow> length bs = length s div 2"
  by (induction s arbitrary: bs rule: ParseHexPairs.induct) (auto split: if_splits option.splits)

lemma HexValue_lower:
  assumes "0 \<le> HexValue c"
  shows "HexValue c < 16 \<and> kHex ! nat (HexValue c) = tolower c"
proof -
  have "\<forall>n \<in> set ([48..<58] @ [65..<71] @ [97..<103]).
      HexValue (char_of (n :: nat)) < 16 \<and> kHex ! nat (HexValue (char_of n)) = tolower (char_of n)"
    by code_simp
  moreover have "(of_char c :: nat) \<in> set ([48..<58] @ [65..<71] @ [97..<103])"
    using assms of_nat_of_char [of c, where 'a = int, symmetric]
    unfolding HexValue_def Let_def set_append set_upt Un_iff atLeastLessThan_iff
    by (auto simp del: of_nat_of_char split: if_splits)
  ultimately show ?thesis by (metis char_of_char)
qed

lemma nibbles_of_byte:
  fixes x y :: byte
  defines "w \<equiv> word_of_int (push_bit 4 (uint (x AND 15)) OR uint (y AND 15)) :: byte"
  shows "drop_bit 4 w AND 15 = x AND 15" "w AND 15 = y AND 15"
  unfolding w_def by (rule bit_eqI; auto simp: bit_simps dest!: less_8_cases)+

lemma hex_value_word: "0 \<le> v \<Longrightarrow> v < 16 \<Longrightarrow> uint (word_of_int v AND 15 :: byte) = v"
  by (simp add: nibble unsigned_take_bit_eq take_bit_int_eq_self uint_word_of_int_eq)

lemma hex_byte_of_digits:
  assumes "0 \<le> HexValue h" "0 \<le> HexValue l"
  shows "hex_byte (word_of_int (push_bit 4 (HexValue h) OR HexValue l)) = [tolower h, tolower l]"
proof -
  note hv = HexValue_lower [OF assms(1)] and lv = HexValue_lower [OF assms(2)]
  let ?x = "word_of_int (HexValue h) :: byte" and ?y = "word_of_int (HexValue l) :: byte"
  have x: "uint (?x AND 15) = HexValue h" and y: "uint (?y AND 15) = HexValue l"
    using hv lv assms by (simp_all add: hex_value_word)
  have "unat (?x AND 15) = nat (HexValue h)" "unat (?y AND 15) = nat (HexValue l)"
    using x y by (metis nat_uint_eq)+
  then show ?thesis
    using nibbles_of_byte [of ?x ?y] hv lv unfolding x y by (simp add: hex_byte_def)
qed

lemma ParseHexPairs_print:
  "ParseHexPairs s = Some bs \<Longrightarrow> even (length s) \<Longrightarrow> concat (map hex_byte bs) = map tolower s"
  by (induction s arbitrary: bs rule: ParseHexPairs.induct)
    (auto simp: hex_byte_of_digits split: if_splits option.splits)

lemma ParseUuid_Inr:
  assumes "ParseUuid text = Inr u"
  shows "wf_uuid u \<and> \<not> is_nil u \<and> IsValidUuidVariant u \<and>
    StripUuidDashes (UuidToString u) = map tolower (StripUuidDashes text)"
proof -
  from assms have len: "length (StripUuidDashes text) = 32"
    and p: "ParseHexPairs (StripUuidDashes text) = Some (uuid_bytes u)"
    and ok: "\<not> is_nil u" "IsValidUuidVariant u"
    by (auto simp: ParseUuid_def Let_def split: if_splits option.splits)
  show ?thesis
    using ParseHexPairs_length [OF p] ParseHexPairs_print [OF p] len ok
    by (simp add: wf_uuid_def StripUuidDashes_UuidToString)
qed

lemma v1_layout_version: "UuidVersion (Uuid (MakeV1Layout v ts cs node)) = v AND 15"
proof -
  have "MakeV1Layout v ts cs node ! 6 = ucast (drop_bit 8 (push_bit 12 (ucast (v AND 15)) OR
      (ucast (drop_bit 48 (ts AND kUuid60BitMask)) AND 0x0fff) :: u16))"
    by (simp add: MakeV1Layout_def Let_def StoreBe16_def StoreBe32_def SetVariantAndClockSequence_def
        nth_append)
  then show ?thesis
    unfolding UuidVersion_def
    by (simp, intro bit_eqI) (auto simp: bit_simps dest!: less_8_cases)
qed

section \<open>Properties\<close>

text \<open>
  Printing and parsing are inverse: a well formed UUID that is not nil and has the RFC variant
  is read back from its printed form.
\<close>

lemma parse_of_print:
  assumes "wf_uuid u" and "\<not> is_nil u" and "IsValidUuidVariant u"
  shows "ParseUuid (UuidToString u) = Inr u"
  using assms by (rule parse_print)

text \<open>
  Parsing is faithful: whatever text it accepts, dashed or not and in either case, the printed
  form of the result has the same digits in lower case, so no two different UUIDs have a common text.
\<close>

lemma print_of_parse:
  assumes "ParseUuid text = Inr u"
  shows "wf_uuid u \<and> StripUuidDashes (UuidToString u) = map tolower (StripUuidDashes text)"
  using ParseUuid_Inr [OF assms] by simp

text \<open>
  The index comparator for version 7 identities, which compares the 48-bit time prefixes first,
  returns for every pair and every kind exactly what the full 16-byte comparison returns.
\<close>

lemma index_comparator_is_byte_order:
  assumes "wf_uuid (uuid_value left)" and "wf_uuid (uuid_value right)"
  shows "comparison (CompareUuidV7ForIndex left right kind) =
    CompareUuid128 (uuid_value left) (uuid_value right)"
  using assms by (rule index_comparison_eq)

text \<open>
  The version 7 generator. For a timestamp of at most 48 bits and sixteen random bytes it
  succeeds for every durable kind; the identity is a valid version 7 one from which the timestamp is
  read back, and an identity of an earlier millisecond orders before one of a later millisecond
  whatever the random bytes are.
\<close>

lemma v7_generator_keeps_time_order:
  assumes "length bs = 16" and "ms \<le> 0x0000ffffffffffff" and "UuidKindAllowsDurableIdentity kind"
  shows "\<exists>t. GenerateDurableEngineIdentityV7 kind ms (Some bs) = Inr t \<and> uuid_kind t = kind \<and>
    IsEngineIdentityUuid (uuid_value t) \<and> ExtractUuidV7TimePrefix (uuid_value t) = Inr ms \<and>
    (\<forall>ms' bs' t'. length bs' = 16 \<and> ms < ms' \<and>
       GenerateDurableEngineIdentityV7 kind ms' (Some bs') = Inr t' \<longrightarrow>
       CompareUuid128 (uuid_value t) (uuid_value t') = -1)"
proof -
  let ?t = "\<lparr>uuid_kind = kind, uuid_value = Uuid (v7_bytes ms bs)\<rparr>"
  note facts = v7_bytes_facts [OF assms(1,2)]
  have later: "CompareUuid128 (uuid_value ?t) (uuid_value t') = -1"
    if l: "length bs' = 16" and less: "ms < ms'"
      and g: "GenerateDurableEngineIdentityV7 kind ms' (Some bs') = Inr t'" for ms' bs' t'
  proof -
    have le: "ms' \<le> 0x0000ffffffffffff"
      using g by (auto simp: GenerateDurableEngineIdentityV7_def GenerateCompatibilityUnixTimeV7_def
          bind_result_eq_Inr split: if_splits)
    note facts' = v7_bytes_facts [OF l le]
    have t': "uuid_value t' = Uuid (v7_bytes ms' bs')"
      using g GenerateV7_Inr [OF l le assms(3)] by auto
    show ?thesis
      using CompareUuid128_prefix [OF facts(1) facts'(1)] less
        time_prefix_value [OF facts(1,3)] time_prefix_value [OF facts'(1,3)]
      by (simp add: t' word_less_nat_alt)
  qed
  show ?thesis
    using GenerateV7_Inr [OF assms] facts later by (intro exI [of _ ?t]) auto
qed

text \<open>
  C13. Only version 7 identities are typed: a typed identity exists exactly for a known kind and a
  UUID that is not nil, has the RFC variant and version 7; the time-and-node generator of version 1
  is therefore refused for every kind.
\<close>

theorem typed_identities_are_v7:
  "(MakeTypedUuid kind u = Inr t \<longleftrightarrow>
      kind \<noteq> UK_unknown \<and> IsEngineIdentityUuid u \<and> t = \<lparr>uuid_kind = kind, uuid_value = u\<rparr>)
   \<and> \<not> is_ok (GenerateTimeNodeV1 kind timestamp clock_sequence node)"
proof -
  have "\<not> IsEngineIdentityUuid (Uuid (MakeV1Layout 1 timestamp clock_sequence node))"
    by (simp add: IsEngineIdentityUuid_def v1_layout_version)
  then show ?thesis
    by (auto simp: MakeTypedUuid_Inr GenerateTimeNodeV1_def is_ok_iff)
qed

end
