(* ===== verification/TransactionSnapshot.thy ===== *)
theory TransactionSnapshot
  imports TransactionHorizon RowVersion UuidCodec "HOL-Library.Multiset"
begin

text \<open>
  Snapshots: \<^verbatim>\<open>transaction/mga/transaction_snapshot.{hpp,cpp}\<close>. The first part creates a reader's
  snapshot from the inventory; the second keeps the process-wide registry of published statement
  snapshots with their pins. The registry is explicit state; every function that locks its mutex is
  one atomic step on it.
\<close>

section \<open>Data\<close>

record local_transaction_snapshot =
  snap_reader_transaction :: local_transaction_id
  snap_visible_through_local_transaction :: local_transaction_id
  snap_transaction_start_visible_through_local_transaction :: local_transaction_id
  snap_oldest_active_transaction :: local_transaction_id
  snap_oldest_snapshot_transaction :: local_transaction_id
  snap_allow_reader_own_uncommitted :: bool
  snap_visible_through_commit_sequence :: u64
  snap_transaction_start_visible_through_commit_sequence :: u64

datatype snapshot_vector_kind = SVK_unknown | SVK_statement_stable

record snapshot_vector_descriptor =
  sv_snapshot_uuid :: typed_uuid
  sv_owning_transaction_uuid :: typed_uuid
  sv_owning_transaction :: local_transaction_id
  sv_visible_committed_high_watermark :: u64
  sv_oldest_active_transaction :: local_transaction_id
  sv_oldest_interesting_transaction :: local_transaction_id
  sv_oldest_snapshot_transaction :: local_transaction_id
  sv_retention_horizon_transaction :: local_transaction_id
  sv_active_excluded :: "u64 list"
  sv_in_doubt_excluded :: "u64 list"
  sv_snapshot_kind :: snapshot_vector_kind
  sv_publication_next_local_transaction_id :: u64
  sv_inventory_authoritative :: bool
  sv_complete :: bool

record published_snapshot_vector =
  pub_descriptor :: snapshot_vector_descriptor
  pub_revoked :: bool
  pub_publication_released :: bool
  pub_pins :: u64

text \<open>The \<^verbatim>\<open>std::map\<close> from identity bytes to published vectors, in key order.\<close>

type_synonym snapshot_registry = "(uuid \<times> published_snapshot_vector) list"

definition registry_find :: "snapshot_registry \<Rightarrow> uuid \<Rightarrow> published_snapshot_vector option" where
  "registry_find reg k = map_of reg k"

fun registry_emplace :: "uuid \<Rightarrow> published_snapshot_vector \<Rightarrow> snapshot_registry \<Rightarrow> snapshot_registry" where
  "registry_emplace k v [] = [(k, v)]"
| "registry_emplace k v ((k', v') # reg) =
    (if CompareUuid128 k k' < 0 then (k, v) # (k', v') # reg else (k', v') # registry_emplace k v reg)"

definition registry_update ::
  "uuid \<Rightarrow> (published_snapshot_vector \<Rightarrow> published_snapshot_vector) \<Rightarrow> snapshot_registry \<Rightarrow> snapshot_registry" where
  "registry_update k f reg = map (\<lambda>(k', v). if k' = k then (k', f v) else (k', v)) reg"

definition registry_erase :: "uuid \<Rightarrow> snapshot_registry \<Rightarrow> snapshot_registry" where
  "registry_erase k reg = filter (\<lambda>(k', _). k' \<noteq> k) reg"

section \<open>Diagnostics and state tests\<close>

definition MakeTransactionSnapshotDiagnostic ::
  "status \<Rightarrow> string \<Rightarrow> string \<Rightarrow> string \<Rightarrow> diagnostic_record" where
  "MakeTransactionSnapshotDiagnostic = component_diagnostic ''transaction.mga.snapshot''"

definition SnapshotVectorError :: "string \<Rightarrow> string \<Rightarrow> string \<Rightarrow> 'a result" where
  "SnapshotVectorError code key detail =
    Inl (MakeTransactionSnapshotDiagnostic TransactionErrorStatus code key detail)"

definition LatestCommittedLocalTransactionId :: "local_transaction_inventory \<Rightarrow> u64" where
  "LatestCommittedLocalTransactionId ivt =
    fold (\<lambda>e latest. if HasCommittedInventoryOutcome e \<and> local_id_valid (entry_id e) \<and> latest < entry_id e
                     then entry_id e else latest) (entries ivt) kInvalidLocalTransactionId"

definition IsSnapshotOwnerEligible :: "transaction_state \<Rightarrow> bool" where
  "IsSnapshotOwnerEligible s \<longleftrightarrow> s = TS_active \<or> s = TS_read_only_active"

definition IsActiveSnapshotExclusion :: "transaction_state \<Rightarrow> bool" where
  "IsActiveSnapshotExclusion s \<longleftrightarrow> s = TS_active \<or> s = TS_read_only_active"

definition IsInDoubtSnapshotExclusion :: "transaction_state \<Rightarrow> bool" where
  "IsInDoubtSnapshotExclusion s \<longleftrightarrow> s = TS_created \<or> s = TS_preparing \<or> s = TS_prepared \<or>
    s = TS_committing \<or> s = TS_rolling_back \<or> s = TS_limbo \<or> s = TS_recovering"

section \<open>A reader's snapshot\<close>

definition CommitBoundary :: "local_transaction_inventory \<Rightarrow> transaction_inventory_entry \<Rightarrow> u64" where
  "CommitBoundary ivt reader =
    (if stable_snapshot reader then begin_visible_through_commit_sequence reader
     else next_commit_sequence ivt - 1)"

definition VisibleHighWatermark :: "local_transaction_inventory \<Rightarrow> u64 \<Rightarrow> u64" where
  "VisibleHighWatermark ivt boundary =
    fold (\<lambda>e m. if HasCommittedInventoryOutcome e \<and> commit_sequence e \<le> boundary
                then max m (entry_id e) else m) (entries ivt) kInvalidLocalTransactionId"

definition ActiveExclusion :: "u64 \<Rightarrow> transaction_inventory_entry \<Rightarrow> bool" where
  "ActiveExclusion boundary e \<longleftrightarrow> IsActiveSnapshotExclusion (entry_state e) \<or>
    (HasCommittedInventoryOutcome e \<and> boundary < commit_sequence e)"

definition InDoubtExclusion :: "u64 \<Rightarrow> transaction_inventory_entry \<Rightarrow> bool" where
  "InDoubtExclusion boundary e \<longleftrightarrow> \<not> ActiveExclusion boundary e \<and> IsInDoubtSnapshotExclusion (entry_state e)"

definition CreateLocalTransactionSnapshot ::
  "local_transaction_inventory \<Rightarrow> local_transaction_id \<Rightarrow>
   (local_transaction_snapshot \<times> visibility_snapshot) result" where
  "CreateLocalTransactionSnapshot ivt reader =
    (if ValidateLocalTransactionInventoryStructure ivt \<noteq> '''' then
       SnapshotVectorError ''SB-MGA-SNAPSHOT-VECTOR-INVENTORY-INVALID''
         ''transaction.snapshot_vector.inventory_invalid''
         (ValidateLocalTransactionInventoryStructure ivt)
     else bind_result (LookupLocalTransaction ivt reader) (\<lambda>e.
       if entry_state e \<noteq> TS_active \<and> entry_state e \<noteq> TS_read_only_active \<and>
          entry_state e \<noteq> TS_preparing \<and> entry_state e \<noteq> TS_prepared then
         SnapshotVectorError ''SB-TXN-SNAPSHOT-UNSUPPORTED-STATE''
           ''transaction.snapshot.unsupported_state'' (TransactionStateName (entry_state e))
       else bind_result (ComputeLocalTransactionHorizons ivt) (\<lambda>h.
         let boundary = CommitBoundary ivt e; watermark = VisibleHighWatermark ivt boundary in
         Inr (\<lparr>snap_reader_transaction = reader,
               snap_visible_through_local_transaction = watermark,
               snap_transaction_start_visible_through_local_transaction =
                 begin_visible_through_local_transaction_id e,
               snap_oldest_active_transaction = oldest_active_transaction h,
               snap_oldest_snapshot_transaction = oldest_snapshot_transaction h,
               snap_allow_reader_own_uncommitted = True,
               snap_visible_through_commit_sequence = boundary,
               snap_transaction_start_visible_through_commit_sequence =
                 begin_visible_through_commit_sequence e\<rparr>,
              \<lparr>reader_transaction = reader,
               visible_through_local_transaction_id = watermark,
               visible_through_local_transaction_id_is_boundary = True,
               allow_reader_own_uncommitted = True, recovery_context = False,
               active_excluded_local_transaction_ids =
                 sort (map entry_id (filter (ActiveExclusion boundary) (entries ivt))),
               in_doubt_excluded_local_transaction_ids =
                 sort (map entry_id (filter (InDoubtExclusion boundary) (entries ivt))),
               visible_through_commit_sequence = boundary,
               visible_through_commit_sequence_is_boundary = True\<rparr>))))"

section \<open>Published statement snapshots\<close>

text \<open>
  \<^verbatim>\<open>std::is_sorted\<close>, \<^verbatim>\<open>std::adjacent_find\<close> and \<^verbatim>\<open>std::all_of\<close>. The binary search and the intersection
  further down run on vectors that passed this check.
\<close>

definition IsCanonicalExclusionVector :: "u64 list \<Rightarrow> u64 \<Rightarrow> bool" where
  "IsCanonicalExclusionVector vs publication_ceiling \<longleftrightarrow>
    sorted vs \<and> distinct_adj vs \<and>
    list_all (\<lambda>v. v \<noteq> kInvalidLocalTransactionId \<and> v \<le> publication_ceiling) vs"

definition SnapshotRetentionBoundary :: "snapshot_vector_descriptor \<Rightarrow> u64" where
  "SnapshotRetentionBoundary d =
    fold (\<lambda>i b. min b i) (sv_in_doubt_excluded d)
      (fold (\<lambda>i b. min b i) (sv_active_excluded d)
        (min (sv_oldest_interesting_transaction d) (sv_owning_transaction d)))"

definition SnapshotVectorStructurallyComplete :: "snapshot_vector_descriptor \<Rightarrow> bool" where
  "SnapshotVectorStructurallyComplete d \<longleftrightarrow>
    (let next = sv_publication_next_local_transaction_id d in
     typed_uuid_valid (sv_snapshot_uuid d) \<and> uuid_kind (sv_snapshot_uuid d) = UK_object \<and>
     UuidVersion (uuid_value (sv_snapshot_uuid d)) = 7 \<and>
     typed_uuid_valid (sv_owning_transaction_uuid d) \<and>
     uuid_kind (sv_owning_transaction_uuid d) = UK_transaction \<and>
     UuidVersion (uuid_value (sv_owning_transaction_uuid d)) = 7 \<and>
     local_id_valid (sv_owning_transaction d) \<and> sv_snapshot_kind d = SVK_statement_stable \<and>
     next \<noteq> 0 \<and> sv_visible_committed_high_watermark d < next \<and> sv_owning_transaction d < next \<and>
     local_id_valid (sv_oldest_active_transaction d) \<and>
     local_id_valid (sv_oldest_interesting_transaction d) \<and>
     local_id_valid (sv_oldest_snapshot_transaction d) \<and>
     local_id_valid (sv_retention_horizon_transaction d) \<and>
     sv_inventory_authoritative d \<and> sv_complete d \<and>
     sv_oldest_active_transaction d < next \<and> sv_oldest_interesting_transaction d < next \<and>
     sv_oldest_snapshot_transaction d < next \<and> sv_retention_horizon_transaction d < next \<and>
     sv_oldest_snapshot_transaction d = sv_retention_horizon_transaction d \<and>
     sv_oldest_snapshot_transaction d = SnapshotRetentionBoundary d \<and>
     IsCanonicalExclusionVector (sv_active_excluded d) (next - 1) \<and>
     IsCanonicalExclusionVector (sv_in_doubt_excluded d) (next - 1) \<and>
     sv_owning_transaction d \<in> set (sv_active_excluded d) \<and>
     filter (\<lambda>i. i \<in> set (sv_in_doubt_excluded d)) (sv_active_excluded d) = [])"

definition kGenerationAttempts :: nat where
  "kGenerationAttempts = 32"

text \<open>
  The generation loop. \<open>rng\<close> gives the random bytes of each attempt. The result carries the
  registry, which changes only when a vector is published. The code takes the registry mutex once per
  attempt; here the attempts run on one registry, as if no other call came between two of them.
\<close>

function publish_attempts ::
  "(nat \<Rightarrow> byte list option) \<Rightarrow> u64 \<Rightarrow> snapshot_vector_descriptor \<Rightarrow> nat \<Rightarrow> snapshot_registry \<Rightarrow>
   snapshot_vector_descriptor result \<times> snapshot_registry" where
  "publish_attempts rng millis d attempt reg =
    (if \<not> attempt < kGenerationAttempts then
       (SnapshotVectorError ''SB-MGA-SNAPSHOT-VECTOR-UUID-COLLISION''
          ''transaction.snapshot_vector.uuid_collision'' '''', reg)
     else case GenerateDurableEngineIdentityV7 UK_object (millis + of_nat attempt) (rng attempt) of
       Inl diag \<Rightarrow> (Inl diag, reg)
     | Inr generated \<Rightarrow>
         if registry_find reg (uuid_value generated) \<noteq> None then
           publish_attempts rng millis d (attempt + 1) reg
         else let d' = d\<lparr>sv_snapshot_uuid := generated, sv_inventory_authoritative := True,
                         sv_complete := True\<rparr> in
           if \<not> SnapshotVectorStructurallyComplete d' then
             (SnapshotVectorError ''SB-MGA-SNAPSHOT-VECTOR-INCOMPLETE''
                ''transaction.snapshot_vector.incomplete'' '''', reg)
           else (Inr d', registry_emplace (uuid_value generated)
                   \<lparr>pub_descriptor = d', pub_revoked = False, pub_publication_released = False,
                    pub_pins = 0\<rparr> reg))"
  by pat_completeness auto
termination
  by (relation "measure (\<lambda>(_, _, _, attempt, _). kGenerationAttempts - attempt)") auto

text \<open>The descriptor before an identity is generated.\<close>

definition statement_descriptor ::
  "local_transaction_inventory \<Rightarrow> transaction_inventory_entry \<Rightarrow> local_transaction_id \<Rightarrow>
   local_transaction_snapshot \<times> visibility_snapshot \<Rightarrow> local_transaction_horizons \<Rightarrow>
   snapshot_vector_descriptor" where
  "statement_descriptor ivt owner owning sv h =
    (let d = \<lparr>sv_snapshot_uuid = default_typed_uuid,
              sv_owning_transaction_uuid = transaction_uuid (identity owner),
              sv_owning_transaction = owning,
              sv_visible_committed_high_watermark = snap_visible_through_local_transaction (fst sv),
              sv_oldest_active_transaction = snap_oldest_active_transaction (fst sv),
              sv_oldest_interesting_transaction = oldest_interesting_transaction h,
              sv_oldest_snapshot_transaction = 0, sv_retention_horizon_transaction = 0,
              sv_active_excluded = active_excluded_local_transaction_ids (snd sv),
              sv_in_doubt_excluded = in_doubt_excluded_local_transaction_ids (snd sv),
              sv_snapshot_kind = SVK_statement_stable,
              sv_publication_next_local_transaction_id = next_local_transaction_id ivt,
              sv_inventory_authoritative = False, sv_complete = False\<rparr>
     in d\<lparr>sv_oldest_snapshot_transaction := SnapshotRetentionBoundary d,
          sv_retention_horizon_transaction := SnapshotRetentionBoundary d\<rparr>)"

definition PublishStatementStableSnapshotVector ::
  "(nat \<Rightarrow> byte list option) \<Rightarrow> local_transaction_inventory \<Rightarrow> local_transaction_id \<Rightarrow> u64 \<Rightarrow>
   snapshot_registry \<Rightarrow> snapshot_vector_descriptor result \<times> snapshot_registry" where
  "PublishStatementStableSnapshotVector rng ivt owning millis reg =
    (if ValidateLocalTransactionInventoryStructure ivt \<noteq> '''' then
       (SnapshotVectorError ''SB-MGA-SNAPSHOT-VECTOR-INVENTORY-INVALID''
         ''transaction.snapshot_vector.inventory_invalid''
         (ValidateLocalTransactionInventoryStructure ivt), reg)
     else if millis = 0 \<or> next_local_transaction_id ivt = 0 then
       (SnapshotVectorError ''SB-MGA-SNAPSHOT-VECTOR-INVENTORY-INVALID''
         ''transaction.snapshot_vector.inventory_invalid'' '''', reg)
     else case LookupLocalTransaction ivt owning of
       Inl _ \<Rightarrow> (SnapshotVectorError ''SB-MGA-SNAPSHOT-VECTOR-OWNER-INELIGIBLE''
                 ''transaction.snapshot_vector.owner_ineligible'' (to_string owning), reg)
     | Inr owner \<Rightarrow>
         if \<not> IsSnapshotOwnerEligible (entry_state owner) then
           (SnapshotVectorError ''SB-MGA-SNAPSHOT-VECTOR-OWNER-INELIGIBLE''
              ''transaction.snapshot_vector.owner_ineligible''
              (TransactionStateName (entry_state owner)), reg)
         else if uuid_kind (transaction_uuid (identity owner)) \<noteq> UK_transaction \<or>
                 \<not> typed_uuid_valid (transaction_uuid (identity owner)) \<or>
                 UuidVersion (entry_uuid owner) \<noteq> 7 \<or> next_local_transaction_id ivt \<le> owning then
           (SnapshotVectorError ''SB-MGA-SNAPSHOT-VECTOR-OWNER-MISMATCH''
              ''transaction.snapshot_vector.owner_mismatch'' '''', reg)
         else case CreateLocalTransactionSnapshot ivt owning of
           Inl diag \<Rightarrow> (Inl diag, reg)
         | Inr sv \<Rightarrow> (case ComputeLocalTransactionHorizons ivt of
             Inl diag \<Rightarrow> (Inl diag, reg)
           | Inr h \<Rightarrow> publish_attempts rng millis (statement_descriptor ivt owner owning sv h) 0 reg))"

declare publish_attempts.simps [simp del]

definition SnapshotVectorDescriptorEqual ::
  "snapshot_vector_descriptor \<Rightarrow> snapshot_vector_descriptor \<Rightarrow> bool" where
  "SnapshotVectorDescriptorEqual l r \<longleftrightarrow>
    uuid_kind (sv_snapshot_uuid l) = uuid_kind (sv_snapshot_uuid r) \<and>
    uuid_value (sv_snapshot_uuid l) = uuid_value (sv_snapshot_uuid r) \<and>
    uuid_kind (sv_owning_transaction_uuid l) = uuid_kind (sv_owning_transaction_uuid r) \<and>
    uuid_value (sv_owning_transaction_uuid l) = uuid_value (sv_owning_transaction_uuid r) \<and>
    sv_owning_transaction l = sv_owning_transaction r \<and>
    sv_visible_committed_high_watermark l = sv_visible_committed_high_watermark r \<and>
    sv_oldest_active_transaction l = sv_oldest_active_transaction r \<and>
    sv_oldest_interesting_transaction l = sv_oldest_interesting_transaction r \<and>
    sv_oldest_snapshot_transaction l = sv_oldest_snapshot_transaction r \<and>
    sv_retention_horizon_transaction l = sv_retention_horizon_transaction r \<and>
    sv_active_excluded l = sv_active_excluded r \<and>
    sv_in_doubt_excluded l = sv_in_doubt_excluded r \<and>
    sv_snapshot_kind l = sv_snapshot_kind r \<and>
    sv_publication_next_local_transaction_id l = sv_publication_next_local_transaction_id r \<and>
    sv_inventory_authoritative l = sv_inventory_authoritative r \<and>
    sv_complete l = sv_complete r"

section \<open>Pins\<close>

text \<open>
  A pin is empty or holds a lease on a published vector. The lease's shared pointer is the registry
  key: a vector leaves the registry only when it has no pins.
\<close>

type_synonym published_snapshot_pin = "uuid option"

definition object_key_valid :: "typed_uuid \<Rightarrow> bool" where
  "object_key_valid t \<longleftrightarrow> typed_uuid_valid t \<and> uuid_kind t = UK_object"

definition RetainPublishedSnapshotVector ::
  "typed_uuid \<Rightarrow> snapshot_registry \<Rightarrow> published_snapshot_pin \<times> snapshot_registry" where
  "RetainPublishedSnapshotVector t reg =
    (if \<not> object_key_valid t then (None, reg)
     else case registry_find reg (uuid_value t) of
       None \<Rightarrow> (None, reg)
     | Some p \<Rightarrow>
         if pub_revoked p \<or> pub_publication_released p \<or> pub_pins p = u64_max \<or>
            \<not> SnapshotVectorStructurallyComplete (pub_descriptor p) then (None, reg)
         else (Some (uuid_value t), registry_update (uuid_value t) (\<lambda>p. p\<lparr>pub_pins := pub_pins p + 1\<rparr>) reg))"

text \<open>The destructor of the lease, which \<^verbatim>\<open>PublishedSnapshotPin::Release\<close> runs for the last owner.\<close>

definition ReleaseLease :: "uuid \<Rightarrow> snapshot_registry \<Rightarrow> snapshot_registry" where
  "ReleaseLease k reg =
    (let reg' = registry_update k (\<lambda>p. p\<lparr>pub_pins := pub_pins p - 1\<rparr>) reg in
     case registry_find reg' k of
       None \<Rightarrow> reg'
     | Some p \<Rightarrow> if pub_publication_released p \<and> pub_pins p = 0 then registry_erase k reg' else reg')"

definition PinResolve :: "published_snapshot_pin \<Rightarrow> snapshot_registry \<Rightarrow> snapshot_vector_descriptor result" where
  "PinResolve pin reg =
    (case pin of
       None \<Rightarrow> SnapshotVectorError ''SB-MGA-SNAPSHOT-VECTOR-UNKNOWN'' ''transaction.snapshot_vector.unknown'' ''''
     | Some k \<Rightarrow> (case registry_find reg k of
         None \<Rightarrow> SnapshotVectorError ''SB-MGA-SNAPSHOT-VECTOR-UNKNOWN'' ''transaction.snapshot_vector.unknown'' ''''
       | Some p \<Rightarrow>
           if pub_revoked p then
             SnapshotVectorError ''SB-MGA-SNAPSHOT-VECTOR-REVOKED'' ''transaction.snapshot_vector.revoked'' ''''
           else Inr (pub_descriptor p)))"

definition ReleasePublishedSnapshotVector :: "typed_uuid \<Rightarrow> snapshot_registry \<Rightarrow> snapshot_registry" where
  "ReleasePublishedSnapshotVector t reg =
    (if \<not> object_key_valid t then reg
     else case registry_find reg (uuid_value t) of
       None \<Rightarrow> reg
     | Some p \<Rightarrow>
         let reg' = registry_update (uuid_value t) (\<lambda>p. p\<lparr>pub_publication_released := True\<rparr>) reg in
         if pub_pins p = 0 then registry_erase (uuid_value t) reg' else reg')"

definition RevokePublishedSnapshotVector :: "typed_uuid \<Rightarrow> snapshot_registry \<Rightarrow> snapshot_registry" where
  "RevokePublishedSnapshotVector t reg =
    (if \<not> object_key_valid t then reg
     else registry_update (uuid_value t) (\<lambda>p. p\<lparr>pub_revoked := True\<rparr>) reg)"

definition RevokePublishedSnapshotVectorsForTransaction ::
  "typed_uuid \<Rightarrow> local_transaction_id \<Rightarrow> snapshot_registry \<Rightarrow> snapshot_registry" where
  "RevokePublishedSnapshotVectorsForTransaction t owning reg =
    (if \<not> typed_uuid_valid t \<or> uuid_kind t \<noteq> UK_transaction \<or> \<not> local_id_valid owning then reg
     else map (\<lambda>(k, p).
       if sv_owning_transaction (pub_descriptor p) = owning \<and>
          uuid_value (sv_owning_transaction_uuid (pub_descriptor p)) = uuid_value t
       then (k, p\<lparr>pub_revoked := True\<rparr>) else (k, p)) reg)"

section \<open>Lookups\<close>

definition ResolvePublishedSnapshotVector ::
  "typed_uuid \<Rightarrow> snapshot_registry \<Rightarrow> snapshot_vector_descriptor result" where
  "ResolvePublishedSnapshotVector t reg =
    (if \<not> object_key_valid t then
       SnapshotVectorError ''SB-MGA-SNAPSHOT-VECTOR-UUID-INVALID'' ''transaction.snapshot_vector.uuid_invalid'' ''''
     else case registry_find reg (uuid_value t) of
       None \<Rightarrow> SnapshotVectorError ''SB-MGA-SNAPSHOT-VECTOR-UNKNOWN'' ''transaction.snapshot_vector.unknown'' ''''
     | Some p \<Rightarrow>
         if pub_revoked p \<or> pub_publication_released p then
           SnapshotVectorError ''SB-MGA-SNAPSHOT-VECTOR-REVOKED'' ''transaction.snapshot_vector.revoked'' ''''
         else if \<not> SnapshotVectorStructurallyComplete (pub_descriptor p) then
           SnapshotVectorError ''SB-MGA-SNAPSHOT-VECTOR-INCOMPLETE''
             ''transaction.snapshot_vector.incomplete'' ''''
         else Inr (pub_descriptor p))"

definition ResolveCurrentStatementStableSnapshotVector ::
  "local_transaction_inventory \<Rightarrow> typed_uuid \<Rightarrow> typed_uuid \<Rightarrow> local_transaction_id \<Rightarrow>
   snapshot_registry \<Rightarrow> snapshot_vector_descriptor result" where
  "ResolveCurrentStatementStableSnapshotVector ivt t expected_uuid expected reg =
    (if ValidateLocalTransactionInventoryStructure ivt \<noteq> '''' then
       SnapshotVectorError ''SB-MGA-SNAPSHOT-VECTOR-INVENTORY-INVALID''
         ''transaction.snapshot_vector.inventory_invalid''
         (ValidateLocalTransactionInventoryStructure ivt)
     else bind_result (ResolvePublishedSnapshotVector t reg) (\<lambda>d.
       if sv_snapshot_kind d \<noteq> SVK_statement_stable \<or> uuid_kind expected_uuid \<noteq> UK_transaction \<or>
          \<not> typed_uuid_valid expected_uuid \<or>
          uuid_value (sv_owning_transaction_uuid d) \<noteq> uuid_value expected_uuid \<or>
          sv_owning_transaction d \<noteq> expected then
         SnapshotVectorError ''SB-MGA-SNAPSHOT-VECTOR-OWNER-MISMATCH''
           ''transaction.snapshot_vector.owner_mismatch'' ''''
       else if next_local_transaction_id ivt = 0 \<or> next_local_transaction_id ivt \<le> expected \<or>
               next_local_transaction_id ivt < sv_publication_next_local_transaction_id d then
         SnapshotVectorError ''SB-MGA-SNAPSHOT-VECTOR-STALE''
           ''transaction.snapshot_vector.stale_inventory_generation'' ''''
       else case LookupLocalTransaction ivt expected of
         Inl _ \<Rightarrow> SnapshotVectorError ''SB-MGA-SNAPSHOT-VECTOR-STALE''
                   ''transaction.snapshot_vector.stale_owner'' ''''
       | Inr owner \<Rightarrow>
           if \<not> IsSnapshotOwnerEligible (entry_state owner) \<or> entry_uuid owner \<noteq> uuid_value expected_uuid
           then SnapshotVectorError ''SB-MGA-SNAPSHOT-VECTOR-STALE''
                  ''transaction.snapshot_vector.stale_owner'' ''''
           else Inr d))"

text \<open>The loop of \<^verbatim>\<open>PublishedSnapshotRetentionHorizons\<close>; \<open>None\<close> is its early return on a stale vector.\<close>

fun retention_horizons ::
  "local_transaction_inventory \<Rightarrow> snapshot_registry \<Rightarrow> local_transaction_id list \<Rightarrow>
   local_transaction_id list option" where
  "retention_horizons ivt [] hs = Some hs"
| "retention_horizons ivt ((k, p) # reg) hs =
    (let d = pub_descriptor p in
     if pub_revoked p then retention_horizons ivt reg hs
     else if \<not> list_ex (\<lambda>e. entry_id e = sv_owning_transaction d \<and>
                uuid_kind (transaction_uuid (identity e)) = UK_transaction \<and>
                entry_uuid e = uuid_value (sv_owning_transaction_uuid d)) (entries ivt)
       then retention_horizons ivt reg hs
     else if next_local_transaction_id ivt < sv_publication_next_local_transaction_id d then None
     else retention_horizons ivt reg (hs @ [sv_retention_horizon_transaction d]))"

definition PublishedSnapshotRetentionHorizons ::
  "local_transaction_inventory \<Rightarrow> snapshot_registry \<Rightarrow> local_transaction_id list result" where
  "PublishedSnapshotRetentionHorizons ivt reg =
    (if ValidateLocalTransactionInventoryStructure ivt \<noteq> '''' then
       SnapshotVectorError ''SB-MGA-SNAPSHOT-VECTOR-INVENTORY-INVALID''
         ''transaction.snapshot_vector.inventory_invalid''
         (ValidateLocalTransactionInventoryStructure ivt)
     else case retention_horizons ivt reg [] of
       None \<Rightarrow> SnapshotVectorError ''SB-MGA-SNAPSHOT-VECTOR-STALE''
                ''transaction.snapshot_vector.stale_inventory_generation'' ''''
     | Some hs \<Rightarrow> Inr hs)"

section \<open>Lemmas: the commit cut\<close>

lemma SnapshotVectorError_not_Inr [simp]: "SnapshotVectorError c k d \<noteq> Inr x" "Inr x \<noteq> SnapshotVectorError c k d"
  by (simp_all add: SnapshotVectorError_def)

lemma fold_max_where_ge:
  "k \<le> fold (\<lambda>e m. if p e then max m (f e) else m) xs (i :: u64) \<longleftrightarrow>
    k \<le> i \<or> (\<exists>x \<in> set xs. p x \<and> k \<le> f x)"
  by (induction xs arbitrary: i) (auto simp: le_max_iff_disj)

lemma watermark_ge:
  "e \<in> set (entries ivt) \<Longrightarrow> HasCommittedInventoryOutcome e \<Longrightarrow> commit_sequence e \<le> b \<Longrightarrow>
   entry_id e \<le> VisibleHighWatermark ivt b"
  unfolding VisibleHighWatermark_def fold_max_where_ge by auto

lemma watermark_attained:
  "VisibleHighWatermark ivt b = 0 \<or>
   (\<exists>e \<in> set (entries ivt). HasCommittedInventoryOutcome e \<and> commit_sequence e \<le> b \<and>
      VisibleHighWatermark ivt b \<le> entry_id e)"
  using fold_max_where_ge [of "VisibleHighWatermark ivt b"
      "\<lambda>e. HasCommittedInventoryOutcome e \<and> commit_sequence e \<le> b" "\<lambda>e. entry_id e" "entries ivt"
      kInvalidLocalTransactionId]
  by (auto simp: VisibleHighWatermark_def kInvalidLocalTransactionId_def)

lemma Create_Inr:
  assumes "CreateLocalTransactionSnapshot ivt reader = Inr (snap, vis)"
  obtains e where "valid_inventory ivt" "FindEntry ivt reader = Some e" "reader \<noteq> 0"
    "entry_state e \<in> {TS_active, TS_read_only_active, TS_preparing, TS_prepared}"
    "snap_visible_through_commit_sequence snap = CommitBoundary ivt e"
    "snap_visible_through_local_transaction snap = VisibleHighWatermark ivt (CommitBoundary ivt e)"
    "snap_oldest_active_transaction snap = oat_of ivt"
    "vis = \<lparr>reader_transaction = reader,
       visible_through_local_transaction_id = VisibleHighWatermark ivt (CommitBoundary ivt e),
       visible_through_local_transaction_id_is_boundary = True,
       allow_reader_own_uncommitted = True, recovery_context = False,
       active_excluded_local_transaction_ids =
         sort (map entry_id (filter (ActiveExclusion (CommitBoundary ivt e)) (entries ivt))),
       in_doubt_excluded_local_transaction_ids =
         sort (map entry_id (filter (InDoubtExclusion (CommitBoundary ivt e)) (entries ivt))),
       visible_through_commit_sequence = CommitBoundary ivt e,
       visible_through_commit_sequence_is_boundary = True\<rparr>"
proof -
  from assms obtain e h where v: "valid_inventory ivt" and l: "LookupLocalTransaction ivt reader = Inr e"
    and s: "entry_state e \<in> {TS_active, TS_read_only_active, TS_preparing, TS_prepared}"
    and h: "ProjectValidatedLocalHorizons ivt [] = Inr h"
    by (auto simp: CreateLocalTransactionSnapshot_def structure_valid_iff bind_result_eq_Inr
        ComputeLocalTransactionHorizons_def Calculate_Inr split: if_splits)
  have oat: "oldest_active_transaction h = oat_of ivt" using Project_Inr [OF h] by simp
  have "ComputeLocalTransactionHorizons ivt = Inr h"
    using v h by (simp add: ComputeLocalTransactionHorizons_def Calculate_Inr)
  with assms v l s oat that [of e] show thesis
    by (auto simp: CreateLocalTransactionSnapshot_def structure_valid_iff bind_result_def Let_def Lookup_Inr)
qed

text \<open>Which readers a snapshot can be taken for.\<close>

lemma Create_succeeds:
  assumes "valid_inventory ivt" "FindEntry ivt reader = Some r" "reader \<noteq> 0"
    "entry_state r \<in> {TS_active, TS_read_only_active, TS_preparing, TS_prepared}"
  obtains snap vis where "CreateLocalTransactionSnapshot ivt reader = Inr (snap, vis)"
    "snap_visible_through_commit_sequence snap = CommitBoundary ivt r"
proof -
  have l: "LookupLocalTransaction ivt reader = Inr r" using assms(2,3) by (simp add: Lookup_Inr)
  have "is_ok (ComputeLocalTransactionHorizons ivt)"
    using assms(1) by (simp add: ComputeLocalTransactionHorizons_def CalculateLocalHorizons_def structure_valid_iff
        ProjectValidatedLocalHorizons_def Let_def is_ok_iff)
  then obtain h where "ComputeLocalTransactionHorizons ivt = Inr h" by (auto simp: is_ok_iff)
  with assms l that show thesis
    by (auto simp: CreateLocalTransactionSnapshot_def structure_valid_iff bind_result_def Let_def)
qed

lemma boundary_less_next:
  assumes "valid_inventory ivt" "FindEntry ivt r = Some e"
  shows "CommitBoundary ivt e < next_commit_sequence ivt"
proof -
  have "e \<in> set (entries ivt)" using FindEntry_Some [OF assms(2)] by simp
  from valid_entry [OF assms(1) this] show ?thesis
    using u64_dec_less [OF valid_next_cs [OF assms(1)]] by (simp add: CommitBoundary_def entry_ok_def)
qed

lemmas valid_id_unique = ivt_items.same_key

text \<open>An entry with the same number is the same transaction, further along.\<close>

lemma run_tracks:
  assumes "inventory_step\<^sup>*\<^sup>* ivt ivt'" "valid_inventory ivt" "e \<in> set (entries ivt)" "e' \<in> set (entries ivt')"
    "entry_id e' = entry_id e"
  shows "keeps_history e e'"
proof -
  have "entry_id e' < next_local_transaction_id ivt" using valid_id_less [OF assms(2,3)] assms(5) by simp
  then obtain old where old: "old \<in> set (entries ivt)" "keeps_history old e'"
    using run_history [OF assms(1,2)] assms(4) by blast
  then have "old = e" using valid_id_unique [OF assms(2) old(1) assms(3)] assms(5) by (simp add: keeps_history_def)
  with old show ?thesis by simp
qed

lemma watermark_less_next:
  assumes "valid_inventory ivt"
  shows "VisibleHighWatermark ivt b < next_local_transaction_id ivt"
  using watermark_attained [of ivt b] valid_id_less [OF assms] valid_next [OF assms]
  by (auto simp: word_gt_0 intro: le_less_trans)

text \<open>What the watermark and the exclusion lists alone admit, as a statement descriptor does.\<close>

definition lists_admit :: "u64 \<Rightarrow> u64 list \<Rightarrow> u64 list \<Rightarrow> u64 \<Rightarrow> bool" where
  "lists_admit watermark active in_doubt i \<longleftrightarrow> i \<le> watermark \<and> i \<notin> set active \<and> i \<notin> set in_doubt"

definition cut_lists_admit :: "local_transaction_inventory \<Rightarrow> u64 \<Rightarrow> u64 \<Rightarrow> bool" where
  "cut_lists_admit ivt b = lists_admit (VisibleHighWatermark ivt b)
    (sort (map entry_id (filter (ActiveExclusion b) (entries ivt))))
    (sort (map entry_id (filter (InDoubtExclusion b) (entries ivt))))"

lemma committed_not_excluded:
  assumes "valid_inventory ivt" "e \<in> set (entries ivt)" "HasCommittedInventoryOutcome e" "commit_sequence e \<le> b"
  shows "cut_lists_admit ivt b (entry_id e)"
proof -
  have st: "entry_state e = TS_committed \<or> entry_state e = TS_archived"
    using assms(3) by (auto simp: committed_state)
  have "\<not> ActiveExclusion b e" "\<not> InDoubtExclusion b e"
    using st assms(4)
    by (auto simp: ActiveExclusion_def InDoubtExclusion_def IsActiveSnapshotExclusion_def
        IsInDoubtSnapshotExclusion_def)
  moreover have "z = e" if "z \<in> set (entries ivt)" "entry_id e = entry_id z" for z
    using valid_id_unique [OF assms(1) that(1) assms(2)] that(2) by simp
  ultimately show ?thesis
    using watermark_ge [OF assms(2-4)] by (auto simp: cut_lists_admit_def lists_admit_def)
qed

lemma not_excluded_resolved:
  assumes "valid_inventory ivt" "e \<in> set (entries ivt)" "\<not> ActiveExclusion b e" "\<not> InDoubtExclusion b e"
  shows "IsTerminalTransactionState (InventoryVisibilityState e)"
  using valid_entry [OF assms(1,2)] assms(3,4)
  by (cases "entry_state e")
    (auto simp: ActiveExclusion_def InDoubtExclusion_def IsActiveSnapshotExclusion_def
      IsInDoubtSnapshotExclusion_def IsTerminalTransactionState_def InventoryVisibilityState_def entry_ok_def)

lemma lists_admit_only_cut:
  assumes run: "inventory_step\<^sup>*\<^sup>* ivt ivt'" and v: "valid_inventory ivt"
    and e': "e' \<in> set (entries ivt')" "HasCommittedInventoryOutcome e'"
    and adm: "cut_lists_admit ivt b (entry_id e')"
  obtains e where "e \<in> set (entries ivt)" "entry_id e = entry_id e'" "HasCommittedInventoryOutcome e"
    "commit_sequence e = commit_sequence e'" "commit_sequence e \<le> b"
proof -
  have "entry_id e' < next_local_transaction_id ivt"
    using adm watermark_less_next [OF v] by (auto simp: cut_lists_admit_def lists_admit_def intro: le_less_trans)
  then obtain e where e: "e \<in> set (entries ivt)" "keeps_history e e'"
    using run_history [OF run v] e'(1) by blast
  have id: "entry_id e = entry_id e'" using e(2) by (simp add: keeps_history_def)
  have nx: "\<not> ActiveExclusion b e" "\<not> InDoubtExclusion b e"
    using adm e(1) id [symmetric] by (auto simp: cut_lists_admit_def lists_admit_def)
  have same: "InventoryVisibilityState e' = InventoryVisibilityState e" "commit_sequence e' = commit_sequence e"
    using not_excluded_resolved [OF v e(1) nx] e(2) by (simp_all add: keeps_history_def)
  have com: "HasCommittedInventoryOutcome e"
    using same(1) e'(2) by (simp add: HasCommittedInventoryOutcome_def)
  then have "commit_sequence e \<le> b" using nx(1) by (auto simp: ActiveExclusion_def)
  with that [of e] e(1) id com same(2) show thesis by simp
qed

text \<open>
  After any run, the lists admit a committed transaction exactly when it is one of those committed
  within the boundary when the snapshot was taken.
\<close>

lemma cut_after_run:
  assumes run: "inventory_step\<^sup>*\<^sup>* ivt ivt'" and v: "valid_inventory ivt"
    and e': "e' \<in> set (entries ivt')" "HasCommittedInventoryOutcome e'"
  shows "cut_lists_admit ivt b (entry_id e') \<longleftrightarrow>
    (\<exists>e \<in> set (entries ivt). entry_id e = entry_id e' \<and> HasCommittedInventoryOutcome e \<and>
       commit_sequence e = commit_sequence e' \<and> commit_sequence e \<le> b)"
proof
  assume "cut_lists_admit ivt b (entry_id e')"
  then show "\<exists>e \<in> set (entries ivt). entry_id e = entry_id e' \<and> HasCommittedInventoryOutcome e \<and>
       commit_sequence e = commit_sequence e' \<and> commit_sequence e \<le> b"
    using lists_admit_only_cut [OF assms] by metis
next
  assume "\<exists>e \<in> set (entries ivt). entry_id e = entry_id e' \<and> HasCommittedInventoryOutcome e \<and>
       commit_sequence e = commit_sequence e' \<and> commit_sequence e \<le> b"
  then show "cut_lists_admit ivt b (entry_id e')" using committed_not_excluded [OF v] by metis
qed

lemma snapshot_admits_cut:
  assumes "CreateLocalTransactionSnapshot ivt reader = Inr (snap, vis)"
  shows "snapshot_admits vis i cs \<longleftrightarrow>
    cut_lists_admit ivt (snap_visible_through_commit_sequence snap) i \<and>
    cs \<noteq> 0 \<and> cs \<le> snap_visible_through_commit_sequence snap"
  using assms
  by (rule Create_Inr) (auto simp: snapshot_admits_def cut_lists_admit_def lists_admit_def)

lemma committed_cs_pos:
  "valid_inventory ivt \<Longrightarrow> e \<in> set (entries ivt) \<Longrightarrow> HasCommittedInventoryOutcome e \<Longrightarrow> commit_sequence e \<noteq> 0"
  using valid_entry [of ivt e] by (simp add: entry_ok_def)

section \<open>Lemmas: publication\<close>


lemma retention_le_iff:
  "k \<le> SnapshotRetentionBoundary d \<longleftrightarrow>
    k \<le> sv_oldest_interesting_transaction d \<and> k \<le> sv_owning_transaction d \<and>
    (\<forall>i \<in> set (sv_active_excluded d). k \<le> i) \<and> (\<forall>i \<in> set (sv_in_doubt_excluded d). k \<le> i)"
  using le_fold_min_iff [of k "\<lambda>i. i"] by (auto simp: SnapshotRetentionBoundary_def)

lemma retention_le:
  "SnapshotRetentionBoundary d \<le> sv_oldest_interesting_transaction d"
  "SnapshotRetentionBoundary d \<le> sv_owning_transaction d"
  "i \<in> set (sv_active_excluded d) \<Longrightarrow> SnapshotRetentionBoundary d \<le> i"
  "i \<in> set (sv_in_doubt_excluded d) \<Longrightarrow> SnapshotRetentionBoundary d \<le> i"
  using retention_le_iff [of "SnapshotRetentionBoundary d" d] by auto

lemma retention_nonzero:
  "sv_oldest_interesting_transaction d \<noteq> 0 \<Longrightarrow> sv_owning_transaction d \<noteq> 0 \<Longrightarrow>
   0 \<notin> set (sv_active_excluded d) \<Longrightarrow> 0 \<notin> set (sv_in_doubt_excluded d) \<Longrightarrow>
   SnapshotRetentionBoundary d \<noteq> 0"
proof -
  have one: "(1 :: u64) \<le> x \<longleftrightarrow> x \<noteq> 0" for x by (metis linorder_not_le word_less_1)
  assume "sv_oldest_interesting_transaction d \<noteq> 0" "sv_owning_transaction d \<noteq> 0"
    "0 \<notin> set (sv_active_excluded d)" "0 \<notin> set (sv_in_doubt_excluded d)"
  then have "1 \<le> SnapshotRetentionBoundary d" unfolding retention_le_iff one by auto
  then show ?thesis by (simp add: one)
qed

lemma distinct_imp_distinct_adj: "distinct xs \<Longrightarrow> distinct_adj xs"
  by (simp add: distinct_adj_conv_nth nth_eq_iff_index_eq)

lemma canonical_ids:
  assumes "valid_inventory ivt"
  shows "IsCanonicalExclusionVector (sort (map entry_id (filter p (entries ivt))))
    (next_local_transaction_id ivt - 1)"
proof -
  have "distinct (map entry_id (filter p (entries ivt)))"
    using valid_ids [OF assms] by (simp add: distinct_map_filter)
  then show ?thesis
    using valid_id_less [OF assms] entry_id_pos [OF assms] u64_le_dec_iff [OF valid_next [OF assms]]
    by (auto simp: IsCanonicalExclusionVector_def list_all_iff kInvalidLocalTransactionId_def
        intro!: distinct_imp_distinct_adj)
qed

lemma active_owner_horizons:
  assumes v: "valid_inventory ivt" and m: "owner \<in> set (entries ivt)"
    and el: "IsSnapshotOwnerEligible (entry_state owner)"
  shows "oat_of ivt < next_local_transaction_id ivt" "oit_of ivt < next_local_transaction_id ivt"
    "oit_of ivt \<noteq> 0" "oat_of ivt \<noteq> 0"
proof -
  have "IsActiveForOat (entry_state owner)"
    using el by (simp add: IsSnapshotOwnerEligible_def IsActiveForOat_def)
  then have "oat_of ivt \<le> entry_id owner"
    unfolding oat_of_def using min_where_le [of owner "entries ivt" _ "\<lambda>e. entry_id e"] m by auto
  then show oat: "oat_of ivt < next_local_transaction_id ivt" using valid_id_less [OF v m] by simp
  then show "oit_of ivt < next_local_transaction_id ivt" using oit_le_oat [OF v] by simp
  show "oit_of ivt \<noteq> 0" "oat_of ivt \<noteq> 0"
    using oit_pos [OF v] oit_le_oat [OF v] by (auto simp: word_le_0_iff)
qed

text \<open>The two exclusion lists of a cut: canonical, without zero, disjoint, and with the owner in the first.\<close>

lemma exclusion_lists:
  assumes v: "valid_inventory ivt"
  defines "act \<equiv> \<lambda>b. sort (map entry_id (filter (ActiveExclusion b) (entries ivt)))"
    and "ind \<equiv> \<lambda>b. sort (map entry_id (filter (InDoubtExclusion b) (entries ivt)))"
  shows "0 \<notin> set (act b)" "0 \<notin> set (ind b)" "i \<in> set (act b) \<Longrightarrow> i \<notin> set (ind b)"
    "owner \<in> set (entries ivt) \<Longrightarrow> IsSnapshotOwnerEligible (entry_state owner) \<Longrightarrow> entry_id owner \<in> set (act b)"
  using entry_id_pos [OF v] valid_id_unique [OF v]
  by (auto simp: act_def ind_def InDoubtExclusion_def ActiveExclusion_def IsSnapshotOwnerEligible_def
      IsActiveSnapshotExclusion_def)

lemma statement_descriptor_complete:
  assumes v: "valid_inventory ivt" and f: "FindEntry ivt owning = Some owner" "owning \<noteq> 0"
    and el: "IsSnapshotOwnerEligible (entry_state owner)"
    and c: "CreateLocalTransactionSnapshot ivt owning = Inr sv"
    and h: "ProjectValidatedLocalHorizons ivt [] = Inr h"
    and t: "uuid_kind t = UK_object" "IsEngineIdentityUuid (uuid_value t)"
  shows "SnapshotVectorStructurallyComplete ((statement_descriptor ivt owner owning sv h)
    \<lparr>sv_snapshot_uuid := t, sv_inventory_authoritative := True, sv_complete := True\<rparr>)"
    (is "SnapshotVectorStructurallyComplete ?d")
proof -
  obtain snap vis where sv: "sv = (snap, vis)" by (cases sv)
  note c' = c [unfolded sv]
  from c' obtain e where e: "FindEntry ivt owning = Some e"
    and wm: "snap_visible_through_local_transaction snap = VisibleHighWatermark ivt (CommitBoundary ivt e)"
    and oa: "snap_oldest_active_transaction snap = oat_of ivt"
    and act: "active_excluded_local_transaction_ids vis =
        sort (map entry_id (filter (ActiveExclusion (CommitBoundary ivt e)) (entries ivt)))"
    and ind: "in_doubt_excluded_local_transaction_ids vis =
        sort (map entry_id (filter (InDoubtExclusion (CommitBoundary ivt e)) (entries ivt)))"
    by (rule Create_Inr) auto
  let ?b = "CommitBoundary ivt e"
  have m: "owner \<in> set (entries ivt)" "entry_id owner = owning" using FindEntry_Some [OF f(1)] by simp_all
  have own: "owning < next_local_transaction_id ivt" using valid_id_less [OF v m(1)] m(2) by simp
  have oi: "oldest_interesting_transaction h = oit_of ivt" using Project_Inr [OF h] by simp
  note hz = active_owner_horizons [OF v m(1) el]
  note ex = exclusion_lists [OF v, where b = "CommitBoundary ivt e", folded act ind]
  have ret: "SnapshotRetentionBoundary ?d \<noteq> 0" "SnapshotRetentionBoundary ?d \<le> owning"
    using retention_nonzero [of ?d] retention_le(2) [of ?d] ex(1,2) hz(3) f(2)
    by (simp_all add: statement_descriptor_def Let_def sv oi)
  have same: "SnapshotRetentionBoundary ?d = sv_retention_horizon_transaction ?d"
    "sv_oldest_snapshot_transaction ?d = sv_retention_horizon_transaction ?d"
    by (simp_all add: statement_descriptor_def Let_def SnapshotRetentionBoundary_def)
  have ok: "transaction_identity_valid (identity owner)" "IsEngineIdentityUuid (entry_uuid owner)"
    using valid_entry [OF v m(1)] by (simp_all add: entry_ok_def)
  have fields: "sv_snapshot_uuid ?d = t" "sv_owning_transaction_uuid ?d = transaction_uuid (identity owner)"
    "sv_owning_transaction ?d = owning" "sv_visible_committed_high_watermark ?d = VisibleHighWatermark ivt ?b"
    "sv_oldest_active_transaction ?d = oat_of ivt" "sv_oldest_interesting_transaction ?d = oit_of ivt"
    "sv_active_excluded ?d = active_excluded_local_transaction_ids vis"
    "sv_in_doubt_excluded ?d = in_doubt_excluded_local_transaction_ids vis"
    "sv_snapshot_kind ?d = SVK_statement_stable" "sv_inventory_authoritative ?d" "sv_complete ?d"
    "sv_publication_next_local_transaction_id ?d = next_local_transaction_id ivt"
    by (simp_all add: statement_descriptor_def Let_def sv wm oa oi)
  have canon: "IsCanonicalExclusionVector (active_excluded_local_transaction_ids vis) (next_local_transaction_id ivt - 1)"
    "IsCanonicalExclusionVector (in_doubt_excluded_local_transaction_ids vis) (next_local_transaction_id ivt - 1)"
    unfolding act ind by (rule canonical_ids [OF v])+
  have "sv_retention_horizon_transaction ?d < next_local_transaction_id ivt"
    "sv_retention_horizon_transaction ?d \<noteq> 0"
    using ret own unfolding same(1) by (auto intro: le_less_trans)
  then show ?thesis
    unfolding SnapshotVectorStructurallyComplete_def Let_def fields same local_id_valid_def kInvalidLocalTransactionId_def
    using t ok own hz ex(3) ex(4) [OF m(1) el] m(2) canon watermark_less_next [OF v] valid_next [OF v] f(2)
    by (simp add: IsEngineIdentityUuid_def typed_uuid_valid_def transaction_identity_valid_def filter_empty_conv)
qed

lemma registry_find_emplace:
  "registry_find reg k = None \<Longrightarrow>
   registry_find (registry_emplace k v reg) k' = (if k' = k then Some v else registry_find reg k')"
  unfolding registry_find_def by (induction reg) (auto split: if_splits)

lemma registry_find_update [simp]:
  "registry_find (registry_update k f reg) k' =
    (if k' = k then map_option f (registry_find reg k') else registry_find reg k')"
  unfolding registry_find_def registry_update_def by (induction reg) auto

lemma registry_find_erase [simp]:
  "registry_find (registry_erase k reg) k' = (if k' = k then None else registry_find reg k')"
  unfolding registry_find_def registry_erase_def by (induction reg) auto

lemma registry_find_map:
  "registry_find (map (\<lambda>(k, p). if c p then (k, f p) else (k, p)) reg) k' =
    map_option (\<lambda>p. if c p then f p else p) (registry_find reg k')"
  unfolding registry_find_def by (induction reg) auto

abbreviation fresh_publication :: "snapshot_vector_descriptor \<Rightarrow> published_snapshot_vector" where
  "fresh_publication d \<equiv>
    \<lparr>pub_descriptor = d, pub_revoked = False, pub_publication_released = False, pub_pins = 0\<rparr>"

definition published_key :: "snapshot_vector_descriptor \<Rightarrow> uuid" where
  "published_key d = uuid_value (sv_snapshot_uuid d)"

lemma publish_attempts_changes:
  assumes "publish_attempts rng millis d attempt reg = (r, reg')"
  shows "(\<exists>d' t. r = Inr d' \<and> d' = d\<lparr>sv_snapshot_uuid := t, sv_inventory_authoritative := True, sv_complete := True\<rparr> \<and>
      SnapshotVectorStructurallyComplete d' \<and> registry_find reg (published_key d') = None \<and>
      reg' = registry_emplace (published_key d') (fresh_publication d') reg) \<or>
    (\<exists>diag. r = Inl diag) \<and> reg' = reg"
  using assms
proof (induction rng millis d attempt reg rule: publish_attempts.induct)
  case (1 rng millis d attempt reg)
  show ?case
  proof (cases "attempt < kGenerationAttempts")
    case False
    with 1(2) show ?thesis by (auto simp: publish_attempts.simps SnapshotVectorError_def)
  next
    case True
    show ?thesis
    proof (cases "GenerateDurableEngineIdentityV7 UK_object (millis + of_nat attempt) (rng attempt)")
      case (Inl diag)
      with 1(2) True show ?thesis by (auto simp: publish_attempts.simps)
    next
      case (Inr t)
      note eq = 1(2) [unfolded publish_attempts.simps [of rng millis d attempt reg]]
      show ?thesis
      proof (cases "registry_find reg (uuid_value t) = None")
        case True
        with eq \<open>attempt < kGenerationAttempts\<close> Inr show ?thesis
          by (auto simp: Let_def SnapshotVectorError_def published_key_def split: if_splits)
      next
        case False
        with eq \<open>attempt < kGenerationAttempts\<close> Inr 1(1) [OF _ Inr False] show ?thesis by auto
      qed
    qed
  qed
qed

lemma generated_identity:
  assumes "GenerateDurableEngineIdentityV7 k ms r = Inr t"
  shows "uuid_kind t = k \<and> IsEngineIdentityUuid (uuid_value t)"
  using assms
  by (auto simp: GenerateDurableEngineIdentityV7_def bind_result_eq_Inr MakeDurableEngineIdentityUuid_def
      MakeTypedUuid_Inr split: if_splits)

text \<open>The keys that the attempts would use.\<close>

definition attempt_key :: "(nat \<Rightarrow> byte list option) \<Rightarrow> u64 \<Rightarrow> nat \<Rightarrow> uuid option" where
  "attempt_key rng millis n =
    (case GenerateDurableEngineIdentityV7 UK_object (millis + of_nat n) (rng n) of
       Inl _ \<Rightarrow> None | Inr t \<Rightarrow> Some (uuid_value t))"

lemma publish_attempts_succeeds:
  assumes complete: "\<And>t. uuid_kind t = UK_object \<Longrightarrow> IsEngineIdentityUuid (uuid_value t) \<Longrightarrow>
      SnapshotVectorStructurallyComplete
        (d\<lparr>sv_snapshot_uuid := t, sv_inventory_authoritative := True, sv_complete := True\<rparr>)"
    and n: "attempt \<le> n" "n < kGenerationAttempts" "attempt_key rng millis n = Some k" "registry_find reg k = None"
    and before: "\<And>m. attempt \<le> m \<Longrightarrow> m < n \<Longrightarrow>
      \<exists>k. attempt_key rng millis m = Some k \<and> registry_find reg k \<noteq> None"
  shows "\<exists>d' reg'. publish_attempts rng millis d attempt reg = (Inr d', reg') \<and> published_key d' = k"
  using n before
proof (induction "n - attempt" arbitrary: attempt)
  case 0
  then have "attempt = n" by simp
  with "0.prems"(3) obtain t where t: "GenerateDurableEngineIdentityV7 UK_object (millis + of_nat attempt) (rng attempt) = Inr t"
    "uuid_value t = k"
    by (auto simp: attempt_key_def split: sum.splits)
  with 0 complete generated_identity [OF t(1)] show ?case
    by (subst publish_attempts.simps) (auto simp: Let_def published_key_def)
next
  case (Suc x)
  then have less: "attempt < n" "attempt < kGenerationAttempts" by simp_all
  with Suc.prems(5) [of attempt] obtain k' where k': "attempt_key rng millis attempt = Some k'" "registry_find reg k' \<noteq> None"
    by auto
  then obtain t where t: "GenerateDurableEngineIdentityV7 UK_object (millis + of_nat attempt) (rng attempt) = Inr t"
    "uuid_value t = k'"
    by (auto simp: attempt_key_def split: sum.splits)
  have "\<exists>d' reg'. publish_attempts rng millis d (attempt + 1) reg = (Inr d', reg') \<and> published_key d' = k"
    by (rule Suc.hyps(1)) (use Suc less in auto)
  with t k' less show ?case by (subst publish_attempts.simps) auto
qed

section \<open>The registry as a state machine\<close>

text \<open>
  The registry with the leases that pins hold. Publication, retention and release are the steps; a
  lease is dropped only by its holder.
\<close>

type_synonym registry_state = "snapshot_registry \<times> uuid multiset"

inductive registry_step :: "registry_state \<Rightarrow> registry_state \<Rightarrow> bool" where
  reg_publish: "PublishStatementStableSnapshotVector rng ivt owning millis reg = (r, reg') \<Longrightarrow>
    registry_step (reg, L) (reg', L)"
| reg_retain: "RetainPublishedSnapshotVector t reg = (Some k, reg') \<Longrightarrow>
    registry_step (reg, L) (reg', add_mset k L)"
| reg_drop: "k \<in># L \<Longrightarrow> registry_step (reg, L) (ReleaseLease k reg, L - {#k#})"
| reg_release: "registry_step (reg, L) (ReleasePublishedSnapshotVector t reg, L)"
| reg_revoke: "registry_step (reg, L) (RevokePublishedSnapshotVector t reg, L)"
| reg_revoke_for: "registry_step (reg, L) (RevokePublishedSnapshotVectorsForTransaction t owning reg, L)"

text \<open>
  Pin counts are exact, descriptors are complete and stored under their own key, and a vector that
  was released stays only while it is pinned.
\<close>

definition vector_ok :: "uuid multiset \<Rightarrow> uuid \<Rightarrow> published_snapshot_vector \<Rightarrow> bool" where
  "vector_ok L k p \<longleftrightarrow> unat (pub_pins p) = count L k \<and>
    SnapshotVectorStructurallyComplete (pub_descriptor p) \<and> published_key (pub_descriptor p) = k \<and>
    (pub_publication_released p \<longrightarrow> pub_pins p \<noteq> 0)"

definition registry_ok :: "registry_state \<Rightarrow> bool" where
  "registry_ok s \<longleftrightarrow>
    (\<forall>k p. registry_find (fst s) k = Some p \<longrightarrow> vector_ok (snd s) k p) \<and>
    (\<forall>k. k \<in># snd s \<longrightarrow> registry_find (fst s) k \<noteq> None)"

lemma registry_okI:
  "(\<And>k p. registry_find reg k = Some p \<Longrightarrow> vector_ok L k p) \<Longrightarrow>
   (\<And>k. k \<in># L \<Longrightarrow> registry_find reg k \<noteq> None) \<Longrightarrow> registry_ok (reg, L)"
  by (simp add: registry_ok_def)

lemma Publish_changes:
  assumes "PublishStatementStableSnapshotVector rng ivt owning millis reg = (r, reg')"
  shows "(\<exists>d'. r = Inr d' \<and> SnapshotVectorStructurallyComplete d' \<and> registry_find reg (published_key d') = None \<and>
      reg' = registry_emplace (published_key d') (fresh_publication d') reg) \<or>
    (\<exists>diag. r = Inl diag) \<and> reg' = reg"
  using assms unfolding PublishStatementStableSnapshotVector_def
  by (auto simp: SnapshotVectorError_def dest!: publish_attempts_changes split: if_splits sum.splits)

lemma publish_ok:
  assumes ok: "registry_ok (reg, L)"
    and "PublishStatementStableSnapshotVector rng ivt owning millis reg = (r, reg')"
  shows "registry_ok (reg', L)"
proof -
  have z: "count L k = 0" if "registry_find reg k = None" for k
    using ok that by (auto simp: registry_ok_def count_eq_zero_iff)
  from Publish_changes [OF assms(2)] ok z show ?thesis
    by (auto simp: registry_ok_def registry_find_emplace vector_ok_def split: if_splits)
qed

lemma retain_ok:
  assumes ok: "registry_ok (reg, L)" and "RetainPublishedSnapshotVector t reg = (Some k, reg')"
  shows "registry_ok (reg', add_mset k L)"
proof -
  from assms(2) obtain p where p: "registry_find reg k = Some p" "\<not> pub_publication_released p" "pub_pins p \<noteq> u64_max"
    and reg': "reg' = registry_update k (\<lambda>p. p\<lparr>pub_pins := pub_pins p + 1\<rparr>) reg"
    by (auto simp: RetainPublishedSnapshotVector_def split: if_splits option.splits)
  show ?thesis
  proof (rule registry_okI)
    fix k' p'
    assume "registry_find reg' k' = Some p'"
    then show "vector_ok (add_mset k L) k' p'"
      using ok p u64_inc_unat [OF p(3)] by (auto simp: reg' registry_ok_def vector_ok_def split: if_splits)
  next
    fix k'
    assume "k' \<in># add_mset k L"
    then show "registry_find reg' k' \<noteq> None" using ok p by (auto simp: reg' registry_ok_def)
  qed
qed

lemma registry_find_ReleaseLease:
  "registry_find reg k = Some p \<Longrightarrow>
   registry_find (ReleaseLease k reg) k' =
     (if k' \<noteq> k then registry_find reg k'
      else if pub_publication_released p \<and> pub_pins p = 1 then None
      else Some (p\<lparr>pub_pins := pub_pins p - 1\<rparr>))"
  by (simp add: ReleaseLease_def Let_def)

lemma drop_ok:
  assumes ok: "registry_ok (reg, L)" and k: "k \<in># L"
  shows "registry_ok (ReleaseLease k reg, L - {#k#})"
proof -
  from ok k obtain p where p: "registry_find reg k = Some p" "vector_ok L k p" by (auto simp: registry_ok_def)
  have pos: "pub_pins p \<noteq> 0" using p(2) k by (auto simp: vector_ok_def count_eq_zero_iff)
  have cnt: "unat (pub_pins p - 1) = count (L - {#k#}) k"
    using p(2) u64_dec_unat [OF pos] by (simp add: vector_ok_def)
  note find' = registry_find_ReleaseLease [OF p(1)]
  have other: "vector_ok (L - {#k#}) k' q" if "registry_find reg k' = Some q" "k' \<noteq> k" for k' q
    using ok that by (auto simp: registry_ok_def vector_ok_def)
  show ?thesis
  proof (rule registry_okI)
    fix k' q
    assume "registry_find (ReleaseLease k reg) k' = Some q"
    then show "vector_ok (L - {#k#}) k' q"
      using p(2) cnt other by (cases "k' = k") (auto simp: find' vector_ok_def split: if_splits)
  next
    fix k'
    assume k': "k' \<in># L - {#k#}"
    then have "k' \<in># L" by (auto dest: in_diffD)
    moreover have "pub_pins p \<noteq> 1" if "k' = k"
      using k' cnt that by (metis count_eq_zero_iff diff_self unsigned_0)
    ultimately show "registry_find (ReleaseLease k reg) k' \<noteq> None"
      using ok p by (cases "k' = k") (auto simp: find' registry_ok_def)
  qed
qed

lemma leased_pins:
  "registry_ok (reg, L) \<Longrightarrow> registry_find reg k = Some p \<Longrightarrow> pub_pins p = 0 \<longleftrightarrow> k \<notin># L"
  by (auto simp: registry_ok_def vector_ok_def simp flip: count_eq_zero_iff unat_eq_zero)

lemma release_ok:
  assumes ok: "registry_ok (reg, L)"
  shows "registry_ok (ReleasePublishedSnapshotVector t reg, L)"
proof (cases "object_key_valid t \<and> registry_find reg (uuid_value t) \<noteq> None")
  case True
  then obtain p where p: "registry_find reg (uuid_value t) = Some p" by blast
  from leased_pins [OF ok p] p True ok show ?thesis
    by (auto simp: ReleasePublishedSnapshotVector_def Let_def registry_ok_def vector_ok_def split: if_splits)
next
  case False
  with ok show ?thesis by (auto simp: ReleasePublishedSnapshotVector_def)
qed

lemma revoke_ok: "registry_ok (reg, L) \<Longrightarrow> registry_ok (RevokePublishedSnapshotVector t reg, L)"
  by (auto simp: RevokePublishedSnapshotVector_def registry_ok_def vector_ok_def split: if_splits)

lemma revoke_for_ok:
  "registry_ok (reg, L) \<Longrightarrow> registry_ok (RevokePublishedSnapshotVectorsForTransaction t owning reg, L)"
  by (auto simp: RevokePublishedSnapshotVectorsForTransaction_def registry_find_map registry_ok_def vector_ok_def
      split: if_splits)

lemma registry_step_ok: "registry_step s s' \<Longrightarrow> registry_ok s \<Longrightarrow> registry_ok s'"
  by (induction rule: registry_step.induct)
    (auto intro: publish_ok retain_ok drop_ok release_ok revoke_ok revoke_for_ok)

text \<open>While a key stays leased, its vector keeps its descriptor, and a revocation is not undone.\<close>

lemma leased_vector_step:
  assumes "registry_step s s'" "registry_ok s" "k \<in># snd s" "k \<in># snd s'" "registry_find (fst s) k = Some p"
  shows "\<exists>p'. registry_find (fst s') k = Some p' \<and> pub_descriptor p' = pub_descriptor p \<and>
    (pub_revoked p \<longrightarrow> pub_revoked p')"
proof -
  have ok': "registry_ok s'" using registry_step_ok assms(1,2) .
  then obtain p' where p': "registry_find (fst s') k = Some p'" using assms(4) by (auto simp: registry_ok_def)
  have "pub_descriptor p' = pub_descriptor p \<and> (pub_revoked p \<longrightarrow> pub_revoked p')"
    using assms(1)
  proof (cases rule: registry_step.cases)
    case (reg_publish rng ivt owning millis reg r reg' L)
    from Publish_changes [OF reg_publish(3)] reg_publish assms(5) p' show ?thesis
      by (auto simp: registry_find_emplace split: if_splits)
  next
    case (reg_retain t reg k' reg' L)
    with assms(5) p' show ?thesis
      by (auto simp: RetainPublishedSnapshotVector_def split: if_splits option.splits)
  next
    case (reg_drop k' L reg)
    with assms(5) p' show ?thesis by (auto simp: ReleaseLease_def Let_def split: if_splits option.splits)
  next
    case (reg_release reg L t)
    with assms(5) p' show ?thesis
      by (auto simp: ReleasePublishedSnapshotVector_def Let_def split: if_splits option.splits)
  next
    case (reg_revoke reg L t)
    with assms(5) p' show ?thesis by (auto simp: RevokePublishedSnapshotVector_def split: if_splits)
  next
    case (reg_revoke_for reg L t owning)
    with assms(5) p' show ?thesis
      by (auto simp: RevokePublishedSnapshotVectorsForTransaction_def registry_find_map split: if_splits)
  qed
  with p' show ?thesis by blast
qed

section \<open>Retention\<close>

lemma retention_horizons_mono: "retention_horizons ivt reg hs = Some hs' \<Longrightarrow> set hs \<subseteq> set hs'"
  by (induction ivt reg hs rule: retention_horizons.induct) (auto simp: Let_def split: if_splits)

lemma retention_horizons_mem:
  assumes "retention_horizons ivt reg hs = Some hs'" "(k, p) \<in> set reg" "\<not> pub_revoked p"
    "e \<in> set (entries ivt)" "entry_id e = sv_owning_transaction (pub_descriptor p)"
    "uuid_kind (transaction_uuid (identity e)) = UK_transaction"
    "entry_uuid e = uuid_value (sv_owning_transaction_uuid (pub_descriptor p))"
  shows "sv_retention_horizon_transaction (pub_descriptor p) \<in> set hs'"
  using assms(1,2)
proof (induction reg arbitrary: hs)
  case Nil
  then show ?case by simp
next
  case (Cons x reg)
  obtain k' p' where x: "x = (k', p')" by (cases x)
  have owner: "list_ex (\<lambda>e. entry_id e = sv_owning_transaction (pub_descriptor p) \<and>
      uuid_kind (transaction_uuid (identity e)) = UK_transaction \<and>
      entry_uuid e = uuid_value (sv_owning_transaction_uuid (pub_descriptor p))) (entries ivt)"
    using assms(4-7) by (auto simp: list_ex_iff)
  show ?case
  proof (cases "(k, p) \<in> set reg")
    case True
    then show ?thesis using Cons.IH Cons.prems(1) by (auto simp: x Let_def split: if_splits)
  next
    case False
    then have "p' = p" using Cons.prems(2) by (auto simp: x)
    then show ?thesis
      using Cons.prems(1) assms(3) owner retention_horizons_mono
      by (fastforce simp: x Let_def split: if_splits)
  qed
qed

lemma Publish_Inr:
  assumes "PublishStatementStableSnapshotVector rng ivt owning millis reg = (Inr d, reg')"
  obtains owner sv h t where "valid_inventory ivt" "FindEntry ivt owning = Some owner"
    "CreateLocalTransactionSnapshot ivt owning = Inr sv" "ComputeLocalTransactionHorizons ivt = Inr h"
    "d = (statement_descriptor ivt owner owning sv h)
      \<lparr>sv_snapshot_uuid := t, sv_inventory_authoritative := True, sv_complete := True\<rparr>"
  using assms that unfolding PublishStatementStableSnapshotVector_def
  by (auto simp: SnapshotVectorError_def structure_valid_iff Lookup_Inr dest!: publish_attempts_changes
      split: if_splits sum.splits)

lemma Publish_lists:
  assumes "PublishStatementStableSnapshotVector rng ivt owning millis reg = (Inr d, reg')"
  obtains owner where "valid_inventory ivt" "FindEntry ivt owning = Some owner"
    "lists_admit (sv_visible_committed_high_watermark d) (sv_active_excluded d) (sv_in_doubt_excluded d) =
     cut_lists_admit ivt (CommitBoundary ivt owner)"
proof -
  obtain owner snap vis h t where v: "valid_inventory ivt" and f: "FindEntry ivt owning = Some owner"
    and c: "CreateLocalTransactionSnapshot ivt owning = Inr (snap, vis)"
    and d: "d = (statement_descriptor ivt owner owning (snap, vis) h)
      \<lparr>sv_snapshot_uuid := t, sv_inventory_authoritative := True, sv_complete := True\<rparr>"
    using assms by (rule Publish_Inr) auto
  from c have "lists_admit (sv_visible_committed_high_watermark d) (sv_active_excluded d) (sv_in_doubt_excluded d) =
     cut_lists_admit ivt (CommitBoundary ivt owner)"
    by (rule Create_Inr) (use f in \<open>simp add: d statement_descriptor_def Let_def cut_lists_admit_def\<close>)
  with v f that show thesis by blast
qed

lemma Publish_succeeds:
  assumes v: "valid_inventory ivt" and ms: "millis \<noteq> 0"
    and l: "LookupLocalTransaction ivt owning = Inr owner" and el: "IsSnapshotOwnerEligible (entry_state owner)"
    and n: "n < kGenerationAttempts" "attempt_key rng millis n = Some k" "registry_find reg k = None"
    and before: "\<And>m. m < n \<Longrightarrow> \<exists>k. attempt_key rng millis m = Some k \<and> registry_find reg k \<noteq> None"
  shows "\<exists>d reg'. PublishStatementStableSnapshotVector rng ivt owning millis reg = (Inr d, reg') \<and> published_key d = k"
proof -
  have f: "FindEntry ivt owning = Some owner" "owning \<noteq> 0" using l by (simp_all add: Lookup_Inr)
  have m: "owner \<in> set (entries ivt)" "entry_id owner = owning" using FindEntry_Some [OF f(1)] by simp_all
  have ok: "transaction_identity_valid (identity owner)" "IsEngineIdentityUuid (entry_uuid owner)"
    using valid_entry [OF v m(1)] by (simp_all add: entry_ok_def)
  obtain h where h: "ProjectValidatedLocalHorizons ivt [] = Inr h" "ComputeLocalTransactionHorizons ivt = Inr h"
    using v by (auto simp: ProjectValidatedLocalHorizons_def ComputeLocalTransactionHorizons_def Calculate_Inr Let_def)
  obtain sv where sv: "CreateLocalTransactionSnapshot ivt owning = Inr sv"
    using v l el h(2) by (auto simp: CreateLocalTransactionSnapshot_def structure_valid_iff bind_result_def
        IsSnapshotOwnerEligible_def Let_def)
  have "\<exists>d reg'. publish_attempts rng millis (statement_descriptor ivt owner owning sv h) 0 reg = (Inr d, reg') \<and> published_key d = k"
    by (rule publish_attempts_succeeds [OF statement_descriptor_complete [OF v f el sv h(1)] _ n])
      (use before in auto)
  moreover have "PublishStatementStableSnapshotVector rng ivt owning millis reg =
      publish_attempts rng millis (statement_descriptor ivt owner owning sv h) 0 reg"
    using v ms l el sv h(2) ok valid_next [OF v] valid_id_less [OF v m(1)] m(2)
    by (auto simp: PublishStatementStableSnapshotVector_def structure_valid_iff IsEngineIdentityUuid_def
        transaction_identity_valid_def typed_uuid_valid_def dest: leD)
  ultimately show ?thesis by simp
qed

interpretation registry_run: invariant_system registry_step registry_ok
  by unfold_locales (rule registry_step_ok)

lemma registry_run_ok: "registry_step\<^sup>*\<^sup>* ([], {#}) s \<Longrightarrow> registry_ok s"
  by (erule registry_run.run_keeps) (simp add: registry_ok_def registry_find_def)

section \<open>Properties\<close>

text \<open>
  C19. A snapshot is a cut of the commit order, for good. Whatever operations run after a snapshot
  was created, it admits a committed transaction exactly when that transaction had committed, within
  the snapshot's commit boundary, when the snapshot was created: later commits stay invisible and
  admitted ones stay visible, also after archiving and compaction.
\<close>

theorem snapshot_is_a_stable_commit_cut:
  assumes "CreateLocalTransactionSnapshot ivt reader = Inr (snap, vis)"
    and "inventory_step\<^sup>*\<^sup>* ivt ivt'" and "e' \<in> set (entries ivt')" and "HasCommittedInventoryOutcome e'"
  shows "snapshot_admits vis (entry_id e') (commit_sequence e') \<longleftrightarrow>
    (\<exists>e \<in> set (entries ivt). entry_id e = entry_id e' \<and> HasCommittedInventoryOutcome e \<and>
       commit_sequence e \<le> snap_visible_through_commit_sequence snap)"
proof -
  have v: "valid_inventory ivt" using assms(1) by (rule Create_Inr)
  let ?b = "snap_visible_through_commit_sequence snap"
  note cut = cut_after_run [OF assms(2) v assms(3,4), of ?b]
  have hist: "commit_sequence e' = commit_sequence e"
    if "e \<in> set (entries ivt)" "entry_id e = entry_id e'" "HasCommittedInventoryOutcome e" for e
  proof -
    have "entry_id e' < next_local_transaction_id ivt" using valid_id_less [OF v that(1)] that(2) by simp
    then obtain o' where o': "o' \<in> set (entries ivt)" "keeps_history o' e'"
      using run_history [OF assms(2) v] assms(3) by blast
    then have "o' = e" using valid_id_unique [OF v o'(1) that(1)] that(2) by (simp add: keeps_history_def)
    with o'(2) that(3) show ?thesis
      by (simp add: keeps_history_def HasCommittedInventoryOutcome_def IsTerminalTransactionState_def)
  qed
  show ?thesis
    unfolding snapshot_admits_cut [OF assms(1)] cut
    using hist committed_cs_pos [OF v] by metis
qed

theorem snapshot_is_a_stable_commit_cut_witness:
  "\<exists>snap vis ivt' e1 e2. CreateLocalTransactionSnapshot sample_inventory 3 = Inr (snap, vis) \<and>
     inventory_step sample_inventory ivt' \<and>
     LookupLocalTransaction ivt' 1 = Inr e1 \<and> snapshot_admits vis 1 (commit_sequence e1) \<and>
     LookupLocalTransaction ivt' 2 = Inr e2 \<and> HasCommittedInventoryOutcome e2 \<and>
     \<not> snapshot_admits vis 2 (commit_sequence e2)"
proof -
  define ivt' where "ivt' = (case CommitLocalTransaction sample_inventory 2 50 of
    Inr x \<Rightarrow> fst x | Inl _ \<Rightarrow> sample_inventory)"
  have "is_ok (CommitLocalTransaction sample_inventory 2 50)" by code_simp
  then obtain x where x: "CommitLocalTransaction sample_inventory 2 50 = Inr x" by (auto simp: is_ok_iff)
  then have st: "inventory_step sample_inventory ivt'" unfolding ivt'_def by (cases x) (auto intro: step_commit)
  have "is_ok (CreateLocalTransactionSnapshot sample_inventory 3)" by code_simp
  then obtain snap vis where c: "CreateLocalTransactionSnapshot sample_inventory 3 = Inr (snap, vis)"
    by (auto simp: is_ok_iff)
  have look: "case LookupLocalTransaction ivt' 1 of Inr e \<Rightarrow> HasCommittedInventoryOutcome e | Inl _ \<Rightarrow> False"
    "case LookupLocalTransaction ivt' 2 of Inr e \<Rightarrow> HasCommittedInventoryOutcome e | Inl _ \<Rightarrow> False"
    "list_all (\<lambda>e. entry_id e = 2 \<longrightarrow> \<not> HasCommittedInventoryOutcome e) (entries sample_inventory)"
    "list_ex (\<lambda>e. entry_id e = 1 \<and> HasCommittedInventoryOutcome e \<and>
       (case CreateLocalTransactionSnapshot sample_inventory 3 of
          Inr y \<Rightarrow> commit_sequence e \<le> snap_visible_through_commit_sequence (fst y) | Inl _ \<Rightarrow> False))
       (entries sample_inventory)"
    unfolding ivt'_def by code_simp+
  obtain e1 where e1: "LookupLocalTransaction ivt' 1 = Inr e1" "HasCommittedInventoryOutcome e1"
    using look(1) by (auto split: sum.splits)
  obtain e2 where e2: "LookupLocalTransaction ivt' 2 = Inr e2" "HasCommittedInventoryOutcome e2"
    using look(2) by (auto split: sum.splits)
  have m: "e1 \<in> set (entries ivt')" "entry_id e1 = 1" "e2 \<in> set (entries ivt')" "entry_id e2 = 2"
    using e1(1) e2(1) FindEntry_Some by (auto simp: Lookup_Inr)
  note rule = snapshot_is_a_stable_commit_cut [OF c r_into_rtranclp [of inventory_step, OF st]]
  have "snapshot_admits vis 1 (commit_sequence e1)" "\<not> snapshot_admits vis 2 (commit_sequence e2)"
    using rule [OF m(1) e1(2)] rule [OF m(3) e2(2)] look(3,4) m
    by (auto simp: c list_all_iff list_ex_iff)
  with c st e1 e2 show ?thesis by blast
qed

text \<open>
  C20. A published statement descriptor, which carries a watermark and two exclusion lists but no
  commit sequence, describes the same cut: after any operations, a committed transaction is at most
  the watermark and in neither list exactly when it had committed within the owner's boundary at
  publication.
\<close>

theorem published_descriptor_is_the_commit_cut:
  assumes "PublishStatementStableSnapshotVector rng ivt owning millis reg = (Inr d, reg')"
    and "inventory_step\<^sup>*\<^sup>* ivt ivt'" and "e' \<in> set (entries ivt')" and "HasCommittedInventoryOutcome e'"
  shows "\<exists>owner. LookupLocalTransaction ivt owning = Inr owner \<and>
    (lists_admit (sv_visible_committed_high_watermark d) (sv_active_excluded d) (sv_in_doubt_excluded d) (entry_id e') \<longleftrightarrow>
     (\<exists>e \<in> set (entries ivt). entry_id e = entry_id e' \<and> HasCommittedInventoryOutcome e \<and>
        commit_sequence e = commit_sequence e' \<and> commit_sequence e \<le> CommitBoundary ivt owner))"
proof -
  obtain owner where v: "valid_inventory ivt" and f: "FindEntry ivt owning = Some owner"
    and l: "lists_admit (sv_visible_committed_high_watermark d) (sv_active_excluded d) (sv_in_doubt_excluded d) =
      cut_lists_admit ivt (CommitBoundary ivt owner)"
    using assms(1) by (rule Publish_lists)
  have "owning \<noteq> 0" using FindEntry_Some [OF f] entry_id_pos [OF v] by auto
  with f cut_after_run [OF assms(2) v assms(3,4)] show ?thesis by (auto simp: Lookup_Inr l)
qed

definition sample_rng :: "nat \<Rightarrow> byte list option" where
  "sample_rng n = Some (replicate 16 (of_nat n))"

theorem published_descriptor_is_the_commit_cut_witness:
  "\<exists>d reg'. PublishStatementStableSnapshotVector sample_rng sample_inventory 3 1700000000000 [] = (Inr d, reg') \<and>
     lists_admit (sv_visible_committed_high_watermark d) (sv_active_excluded d) (sv_in_doubt_excluded d) 1"
proof -
  let ?p = "PublishStatementStableSnapshotVector sample_rng sample_inventory 3 1700000000000 []"
  let ?e = "sample_entry 1 1 TS_committed 0 1"
  have "is_ok (fst ?p)" by code_simp
  then obtain d reg' where p: "?p = (Inr d, reg')" by (cases ?p) (auto simp: is_ok_iff)
  have m: "?e \<in> set (entries sample_inventory)" "HasCommittedInventoryOutcome ?e" "entry_id ?e = 1" "commit_sequence ?e = 1"
    by (simp_all add: sample_inventory_def sample_entry_def committed_state)
  have l: "LookupLocalTransaction sample_inventory 3 = Inr (sample_entry 3 3 TS_active 1 0)"
    by (simp add: Lookup_Inr FindEntry_def sample_inventory_def sample_entry_def)
  have "CommitBoundary sample_inventory (sample_entry 3 3 TS_active 1 0) = 1"
    by (simp add: CommitBoundary_def sample_entry_def sample_inventory_def)
  with published_descriptor_is_the_commit_cut [OF p rtranclp.rtrancl_refl m(1,2)] l m
  have "lists_admit (sv_visible_committed_high_watermark d) (sv_active_excluded d) (sv_in_doubt_excluded d) 1"
    by auto
  with p show ?thesis by blast
qed

text \<open>
  C21. Publication succeeds. For a well formed inventory, an active owner and a nonzero time, if some
  attempt produces an identity that is not registered and the attempts before it collided, the
  vector is published under that identity with no pins; the completeness check that guards the
  registry never refuses it.
\<close>

theorem publication_succeeds:
  assumes "valid_inventory ivt" and "millis \<noteq> 0"
    and "LookupLocalTransaction ivt owning = Inr owner" and "IsSnapshotOwnerEligible (entry_state owner)"
    and "n < kGenerationAttempts" and "attempt_key rng millis n = Some k" and "registry_find reg k = None"
    and "\<forall>m < n. \<exists>k. attempt_key rng millis m = Some k \<and> registry_find reg k \<noteq> None"
  shows "\<exists>d reg'. PublishStatementStableSnapshotVector rng ivt owning millis reg = (Inr d, reg') \<and>
    SnapshotVectorStructurallyComplete d \<and> uuid_value (sv_snapshot_uuid d) = k \<and>
    registry_find reg' k = Some (fresh_publication d) \<and>
    (\<forall>k'. k' \<noteq> k \<longrightarrow> registry_find reg' k' = registry_find reg k')"
proof -
  obtain d reg' where p: "PublishStatementStableSnapshotVector rng ivt owning millis reg = (Inr d, reg')"
    and k: "published_key d = k"
    using Publish_succeeds [OF assms(1-7)] assms(8) by blast
  from Publish_changes [OF p] have "SnapshotVectorStructurallyComplete d"
    and r: "reg' = registry_emplace k (fresh_publication d) reg"
    using k by auto
  with p k registry_find_emplace [OF assms(7)] show ?thesis
    by (auto simp: published_key_def)
qed

theorem publication_succeeds_witness:
  "\<exists>d reg'. PublishStatementStableSnapshotVector sample_rng sample_inventory 2 1700000000000 [] = (Inr d, reg') \<and>
     SnapshotVectorStructurallyComplete d"
proof -
  have l: "LookupLocalTransaction sample_inventory 2 = Inr (sample_entry 2 2 TS_active 0 0)"
    by (simp add: Lookup_Inr FindEntry_def sample_inventory_def sample_entry_def)
  have "attempt_key sample_rng 1700000000000 0 \<noteq> None" by code_simp
  then obtain k where k: "attempt_key sample_rng 1700000000000 0 = Some k" by blast
  have "IsSnapshotOwnerEligible (entry_state (sample_entry 2 2 TS_active 0 0))"
    by (simp add: IsSnapshotOwnerEligible_def sample_entry_def)
  from publication_succeeds [OF sample_valid _ l this _ k, of "[]"]
  show ?thesis by (auto simp: kGenerationAttempts_def registry_find_def)
qed

text \<open>
  C22. Held pins stay good. From the empty registry and through any interleaving of publications,
  retentions, releases and revocations, every held lease resolves to a complete descriptor unless it
  was revoked, even after its publication was released; pin counts never lose or invent a holder;
  and a step that leaves the lease held leaves the descriptor unchanged.
\<close>

theorem held_pins_resolve:
  assumes "registry_step\<^sup>*\<^sup>* ([], {#}) (reg, L)" and "k \<in># L"
  shows "\<exists>p. registry_find reg k = Some p \<and> unat (pub_pins p) = count L k \<and>
    SnapshotVectorStructurallyComplete (pub_descriptor p) \<and>
    (\<not> pub_revoked p \<longrightarrow> PinResolve (Some k) reg = Inr (pub_descriptor p)) \<and>
    (\<forall>reg' L'. registry_step (reg, L) (reg', L') \<and> k \<in># L' \<longrightarrow>
       (\<exists>p'. registry_find reg' k = Some p' \<and> pub_descriptor p' = pub_descriptor p))"
proof -
  from registry_run_ok [OF assms(1)] have ok: "registry_ok (reg, L)" .
  with assms(2) obtain p where p: "registry_find reg k = Some p" "vector_ok L k p"
    by (auto simp: registry_ok_def)
  have "\<exists>p'. registry_find reg' k = Some p' \<and> pub_descriptor p' = pub_descriptor p"
    if "registry_step (reg, L) (reg', L')" "k \<in># L'" for reg' L'
    using leased_vector_step [OF that(1) ok] assms(2) that(2) p(1) by auto
  with p show ?thesis by (auto simp: vector_ok_def PinResolve_def)
qed

theorem held_pins_resolve_witness:
  "\<exists>reg k p. registry_step\<^sup>*\<^sup>* ([], {#}) (reg, {#k#}) \<and> pub_publication_released p \<and>
     registry_find reg k = Some p \<and> PinResolve (Some k) reg = Inr (pub_descriptor p)"
proof -
  let ?p = "PublishStatementStableSnapshotVector sample_rng sample_inventory 3 1700000000000 []"
  define r1 where "r1 = snd ?p"
  define t where "t = (case fst ?p of Inr d \<Rightarrow> sv_snapshot_uuid d | Inl _ \<Rightarrow> default_typed_uuid)"
  define r2 where "r2 = snd (RetainPublishedSnapshotVector t r1)"
  define r3 where "r3 = ReleasePublishedSnapshotVector t r2"
  have ev: "fst (RetainPublishedSnapshotVector t r1) = Some (uuid_value t)"
    "map_option (\<lambda>p. (pub_publication_released p, pub_revoked p)) (registry_find r3 (uuid_value t)) = Some (True, False)"
    unfolding r3_def r2_def r1_def t_def by code_simp+
  have s1: "registry_step ([], {#}) (r1, {#})"
    by (rule reg_publish [of _ _ _ _ _ "fst ?p"]) (simp add: r1_def)
  have s2: "registry_step (r1, {#}) (r2, {#uuid_value t#})"
    by (rule reg_retain [of t]) (use ev(1) in \<open>simp add: r2_def prod_eq_iff\<close>)
  have s3: "registry_step (r2, {#uuid_value t#}) (r3, {#uuid_value t#})" unfolding r3_def by (rule reg_release)
  from s1 s2 s3 have run: "registry_step\<^sup>*\<^sup>* ([], {#}) (r3, {#uuid_value t#})" by auto
  obtain p where p: "registry_find r3 (uuid_value t) = Some p" "pub_publication_released p" "\<not> pub_revoked p"
    using ev(2) by auto
  from held_pins_resolve [OF run, of "uuid_value t"] p run show ?thesis by auto
qed

end
