(* ===== verification/CleanupHorizon.thy ===== *)
theory CleanupHorizon
  imports TransactionSnapshot
begin

text \<open>
  The cleanup horizon service: \<^verbatim>\<open>transaction/mga/transaction_cleanup_horizon_service.{hpp,cpp}\<close>. It
  computes the horizon below which row versions may go from the inventory, the caller's snapshot
  horizons and the registry of published snapshots. The registry, process state in the code, is an
  argument.
\<close>

section \<open>The horizon service: data\<close>

datatype cleanup_horizon_blocker_kind =
    BK_active_transaction | BK_active_snapshot | BK_unresolved_outcome | BK_always_active_session
  | BK_inventory_authority | BK_unknown

record cleanup_horizon_blocker =
  blocker_kind :: cleanup_horizon_blocker_kind
  blocker_local_transaction_id :: local_transaction_id
  blocker_stable_name :: string
  blocker_observed_state :: string
  blocker_authoritative :: bool

record always_active_session_binding =
  stable_session_id :: string
  current_local_transaction_id :: local_transaction_id
  binding_authoritative :: bool

record cleanup_horizon_request =
  hr_inventory :: local_transaction_inventory
  hr_inventory_authoritative :: bool
  hr_inventory_complete :: bool
  hr_active_snapshot_horizons :: "local_transaction_id list"
  hr_active_snapshot_inventory_authoritative :: bool
  hr_always_in_transaction_policy :: bool
  hr_always_active_session_inventory_authoritative :: bool
  hr_always_active_sessions :: "always_active_session_binding list"

type_synonym horizon_evidence = "(string \<times> string) list"

record authoritative_cleanup_horizon =
  ah_horizons :: local_transaction_horizons
  ah_cleanup_horizon :: local_transaction_id
  ah_blockers :: "cleanup_horizon_blocker list"
  ah_evidence :: horizon_evidence
  ah_diagnostic :: diagnostic_record

text \<open>A refusal has a diagnostic and the evidence collected with it.\<close>

type_synonym 'a horizon_result = "(diagnostic_record \<times> horizon_evidence) + 'a"

section \<open>The horizon service: operations\<close>

fun CleanupHorizonBlockerKindName :: "cleanup_horizon_blocker_kind \<Rightarrow> string" where
  "CleanupHorizonBlockerKindName BK_active_transaction = ''active_transaction''"
| "CleanupHorizonBlockerKindName BK_active_snapshot = ''active_snapshot''"
| "CleanupHorizonBlockerKindName BK_unresolved_outcome = ''unresolved_outcome''"
| "CleanupHorizonBlockerKindName BK_always_active_session = ''always_active_session''"
| "CleanupHorizonBlockerKindName BK_inventory_authority = ''inventory_authority''"
| "CleanupHorizonBlockerKindName BK_unknown = ''unknown''"

definition CleanupHorizonErrorStatus :: status where
  "CleanupHorizonErrorStatus = TransactionErrorStatus"

definition MakeCleanupHorizonServiceDiagnostic :: "status \<Rightarrow> string \<Rightarrow> string \<Rightarrow> string \<Rightarrow> diagnostic_record" where
  "MakeCleanupHorizonServiceDiagnostic = component_diagnostic ''transaction.mga.cleanup_horizon''"

definition BoolText :: "bool \<Rightarrow> string" where
  "BoolText b = (if b then ''true'' else ''false'')"

definition AddBaseEvidence :: "cleanup_horizon_request \<Rightarrow> horizon_evidence" where
  "AddBaseEvidence rq =
    [(''cleanup_horizon_service'', ''dpc030_authoritative_cleanup_horizon_v1''),
     (''authority_source'', ''durable_mga_transaction_inventory''),
     (''inventory_authoritative'', BoolText (hr_inventory_authoritative rq)),
     (''inventory_complete'', BoolText (hr_inventory_complete rq)),
     (''active_snapshot_inventory_authoritative'', BoolText (hr_active_snapshot_inventory_authoritative rq)),
     (''always_in_transaction_policy'', BoolText (hr_always_in_transaction_policy rq)),
     (''always_active_session_inventory_authoritative'',
        BoolText (hr_always_active_session_inventory_authoritative rq)),
     (''parser_finality_authority'', ''false''),
     (''client_state_authority'', ''false''),
     (''timestamp_ordering_authority'', ''false''),
     (''uuid_ordering_authority'', ''false''),
     (''crud_event_stream_authority'', ''false''),
     (''cluster_private_implementation'', ''false'')]"

text \<open>The evidence of a refusal with a given diagnostic.\<close>

definition fail_closed_evidence :: "cleanup_horizon_request \<Rightarrow> diagnostic_record \<Rightarrow> horizon_evidence" where
  "fail_closed_evidence rq d =
    AddBaseEvidence rq @ [(''fail_closed'', ''true''), (''diagnostic_code'', diagnostic_code d)]"

definition ServiceError :: "cleanup_horizon_request \<Rightarrow> string \<Rightarrow> string \<Rightarrow> string \<Rightarrow> 'a horizon_result" where
  "ServiceError rq code key detail =
    (let d = MakeCleanupHorizonServiceDiagnostic CleanupHorizonErrorStatus code key detail in
     Inl (d, fail_closed_evidence rq d))"

definition IsActiveInventoryState :: "transaction_state \<Rightarrow> bool" where
  "IsActiveInventoryState s \<longleftrightarrow> s = TS_active \<or> s = TS_read_only_active"

definition IsAlwaysActiveSessionState :: "transaction_state \<Rightarrow> bool" where
  "IsAlwaysActiveSessionState s \<longleftrightarrow> s = TS_active \<or> s = TS_read_only_active"

definition IsUnresolvedOutcomeState :: "transaction_state \<Rightarrow> bool" where
  "IsUnresolvedOutcomeState s \<longleftrightarrow> s = TS_created \<or> s = TS_preparing \<or> s = TS_prepared \<or> s = TS_committing \<or>
    s = TS_rolling_back \<or> s = TS_limbo \<or> s = TS_recovering \<or> s = TS_failed_terminal"

definition ValidateInventory :: "cleanup_horizon_request \<Rightarrow> unit horizon_result" where
  "ValidateInventory rq =
    (let reason = ValidateLocalTransactionInventoryStructure (hr_inventory rq) in
     if \<not> hr_inventory_authoritative rq then
       ServiceError rq ''SB-MGA-CLEANUP-HORIZON-NOT-AUTHORITATIVE''
         ''transaction.cleanup_horizon.inventory_not_authoritative''
         ''durable MGA transaction inventory authority is required''
     else if \<not> hr_inventory_complete rq then
       ServiceError rq ''SB-MGA-CLEANUP-HORIZON-INVENTORY-MISSING''
         ''transaction.cleanup_horizon.inventory_missing''
         ''complete durable transaction inventory is required''
     else if reason \<noteq> '''' then
       ServiceError rq ''SB-MGA-CLEANUP-HORIZON-INVENTORY-INVALID'' (''transaction.cleanup_horizon.'' @ reason) ''''
     else Inr ())"

text \<open>The loop over the session bindings.\<close>

fun validate_bindings ::
  "cleanup_horizon_request \<Rightarrow> always_active_session_binding list \<Rightarrow> unit horizon_result" where
  "validate_bindings rq [] = Inr ()"
| "validate_bindings rq (b # bs) =
    (if \<not> binding_authoritative b then
       ServiceError rq ''SB-MGA-CLEANUP-HORIZON-SESSION-BINDING-NOT-AUTHORITATIVE''
         ''transaction.cleanup_horizon.session_binding_not_authoritative'' (stable_session_id b)
     else if stable_session_id b = [] then
       ServiceError rq ''SB-MGA-CLEANUP-HORIZON-SESSION-BINDING-INVALID''
         ''transaction.cleanup_horizon.session_binding_missing_stable_id'' ''''
     else if \<not> local_id_valid (current_local_transaction_id b) then
       ServiceError rq ''SB-MGA-CLEANUP-HORIZON-SESSION-BINDING-INVALID''
         ''transaction.cleanup_horizon.session_binding_missing_transaction'' (stable_session_id b)
     else case FindEntry (hr_inventory rq) (current_local_transaction_id b) of
       None \<Rightarrow> ServiceError rq ''SB-MGA-CLEANUP-HORIZON-SESSION-TX-MISSING''
                 ''transaction.cleanup_horizon.session_transaction_missing'' (stable_session_id b)
     | Some e \<Rightarrow>
         if \<not> IsAlwaysActiveSessionState (entry_state e) then
           ServiceError rq ''SB-MGA-CLEANUP-HORIZON-SESSION-TX-NOT-ACTIVE''
             ''transaction.cleanup_horizon.session_transaction_not_active''
             (stable_session_id b @ '':'' @ TransactionStateName (entry_state e))
         else validate_bindings rq bs)"

definition ValidateAlwaysActiveSessions :: "cleanup_horizon_request \<Rightarrow> unit horizon_result" where
  "ValidateAlwaysActiveSessions rq =
    (if \<not> hr_always_in_transaction_policy rq then Inr ()
     else if \<not> hr_always_active_session_inventory_authoritative rq then
       ServiceError rq ''SB-MGA-CLEANUP-HORIZON-SESSION-INVENTORY-NOT-AUTHORITATIVE''
         ''transaction.cleanup_horizon.session_inventory_not_authoritative''
         ''always-in-transaction sessions require authoritative active binding inventory''
     else validate_bindings rq (hr_always_active_sessions rq))"

definition AddInventoryBlockers :: "local_transaction_inventory \<Rightarrow> cleanup_horizon_blocker list" where
  "AddInventoryBlockers ivt =
    map (\<lambda>e. \<lparr>blocker_kind = (if IsUnresolvedOutcomeState (InventoryVisibilityState e)
                              then BK_unresolved_outcome else BK_active_transaction),
              blocker_local_transaction_id = entry_id e,
              blocker_stable_name = ''local_transaction:'' @ to_string (entry_id e),
              blocker_observed_state = TransactionStateName (entry_state e),
              blocker_authoritative = True\<rparr>)
      (filter (\<lambda>e. IsActiveInventoryState (entry_state e) \<or> IsUnresolvedOutcomeState (InventoryVisibilityState e))
        (entries ivt))"

definition AddSnapshotBlockers :: "local_transaction_id list \<Rightarrow> cleanup_horizon_blocker list" where
  "AddSnapshotBlockers snapshots =
    map (\<lambda>i. \<lparr>blocker_kind = BK_active_snapshot, blocker_local_transaction_id = i,
              blocker_stable_name = ''active_snapshot:'' @ to_string i,
              blocker_observed_state = ''active_snapshot'', blocker_authoritative = True\<rparr>) snapshots"

definition AddAlwaysActiveSessionBlockers :: "cleanup_horizon_request \<Rightarrow> cleanup_horizon_blocker list" where
  "AddAlwaysActiveSessionBlockers rq =
    (if \<not> hr_always_in_transaction_policy rq then []
     else map (\<lambda>b. \<lparr>blocker_kind = BK_always_active_session,
                    blocker_local_transaction_id = current_local_transaction_id b,
                    blocker_stable_name = stable_session_id b,
                    blocker_observed_state =
                      (case FindEntry (hr_inventory rq) (current_local_transaction_id b) of
                         None \<Rightarrow> ''missing'' | Some e \<Rightarrow> TransactionStateName (entry_state e)),
                    blocker_authoritative = binding_authoritative b\<rparr>)
            (hr_always_active_sessions rq))"

text \<open>The end of the computation, once the horizons are known.\<close>

definition authoritative_result ::
  "cleanup_horizon_request \<Rightarrow> local_transaction_id list \<Rightarrow> local_transaction_horizons \<Rightarrow>
   authoritative_cleanup_horizon" where
  "authoritative_result rq snapshots h =
    (let horizon = min (min (oldest_interesting_transaction h) (oldest_active_transaction h))
                       (oldest_snapshot_transaction h);
         blockers = AddInventoryBlockers (hr_inventory rq) @ AddSnapshotBlockers snapshots @
                    AddAlwaysActiveSessionBlockers rq;
         diag = MakeCleanupHorizonServiceDiagnostic TransactionOkStatus ''SB-MGA-CLEANUP-HORIZON-AUTHORITATIVE''
                  ''transaction.cleanup_horizon.authoritative'' (to_string horizon)
     in \<lparr>ah_horizons = h, ah_cleanup_horizon = horizon, ah_blockers = blockers,
         ah_evidence = AddBaseEvidence rq @
           [(''fail_closed'', ''false''),
            (''oit_local_transaction_id'', to_string (oldest_interesting_transaction h)),
            (''oat_local_transaction_id'', to_string (oldest_active_transaction h)),
            (''ost_local_transaction_id'', to_string (oldest_snapshot_transaction h)),
            (''cleanup_horizon_local_transaction_id'', to_string horizon),
            (''next_local_transaction_id'', to_string (next_transaction_id h)),
            (''inventory_entry_count'', to_string (of_nat (length (entries (hr_inventory rq))))),
            (''active_snapshot_count'', to_string (of_nat (length snapshots))),
            (''always_active_session_count'', to_string (of_nat (length (hr_always_active_sessions rq)))),
            (''blocker_count'', to_string (of_nat (length blockers))),
            (''diagnostic_code'', diagnostic_code diag)],
         ah_diagnostic = diag\<rparr>)"

definition ComputeAuthoritativeCleanupHorizon ::
  "cleanup_horizon_request \<Rightarrow> snapshot_registry \<Rightarrow> authoritative_cleanup_horizon horizon_result" where
  "ComputeAuthoritativeCleanupHorizon rq reg =
    (case ValidateInventory rq of Inl e \<Rightarrow> Inl e | Inr _ \<Rightarrow>
     if \<not> hr_active_snapshot_inventory_authoritative rq then
       ServiceError rq ''SB-MGA-CLEANUP-HORIZON-SNAPSHOT-INVENTORY-NOT-AUTHORITATIVE''
         ''transaction.cleanup_horizon.snapshot_inventory_not_authoritative''
         ''active snapshot registry must be authoritative''
     else case ValidateAlwaysActiveSessions rq of Inl e \<Rightarrow> Inl e | Inr _ \<Rightarrow>
     (case PublishedSnapshotRetentionHorizons (hr_inventory rq) reg of
        Inl d \<Rightarrow> Inl (d, fail_closed_evidence rq d)
      | Inr published \<Rightarrow>
          let snapshots = hr_active_snapshot_horizons rq @ published in
          (case ComputeLocalTransactionHorizonsWithSnapshots (hr_inventory rq) snapshots of
             Inl d \<Rightarrow> Inl (d, fail_closed_evidence rq d)
           | Inr h \<Rightarrow> Inr (authoritative_result rq snapshots h))))"


section \<open>Lemmas\<close>

lemma ServiceError_not_Inr [simp]: "ServiceError rq c k d \<noteq> Inr x" "Inr x \<noteq> ServiceError rq c k d"
  by (simp_all add: ServiceError_def Let_def)

lemma ValidateInventory_Inr:
  "ValidateInventory rq = Inr u \<longleftrightarrow>
    hr_inventory_authoritative rq \<and> hr_inventory_complete rq \<and> valid_inventory (hr_inventory rq)"
  by (cases u) (auto simp: ValidateInventory_def Let_def structure_valid_iff)

definition binding_ok :: "local_transaction_inventory \<Rightarrow> always_active_session_binding \<Rightarrow> bool" where
  "binding_ok ivt b \<longleftrightarrow> binding_authoritative b \<and> stable_session_id b \<noteq> [] \<and> current_local_transaction_id b \<noteq> 0 \<and>
    (case FindEntry ivt (current_local_transaction_id b) of
       None \<Rightarrow> False | Some e \<Rightarrow> IsAlwaysActiveSessionState (entry_state e))"

lemma validate_bindings_Inr:
  "validate_bindings rq bs = Inr u \<longleftrightarrow> list_all (binding_ok (hr_inventory rq)) bs"
  by (induction bs)
    (auto simp: binding_ok_def local_id_valid_def kInvalidLocalTransactionId_def split: option.splits)

lemma validate_bindings_Inl:
  "validate_bindings rq bs = Inl e \<Longrightarrow> \<not> list_all (binding_ok (hr_inventory rq)) bs"
  using validate_bindings_Inr [of rq bs "()"] by auto

lemma Compute_authoritative_Inr:
  "ComputeAuthoritativeCleanupHorizon rq reg = Inr a \<longleftrightarrow>
    hr_inventory_authoritative rq \<and> hr_inventory_complete rq \<and> valid_inventory (hr_inventory rq) \<and>
    hr_active_snapshot_inventory_authoritative rq \<and>
    (hr_always_in_transaction_policy rq \<longrightarrow> hr_always_active_session_inventory_authoritative rq \<and>
       list_all (binding_ok (hr_inventory rq)) (hr_always_active_sessions rq)) \<and>
    (\<exists>published h. PublishedSnapshotRetentionHorizons (hr_inventory rq) reg = Inr published \<and>
       ComputeLocalTransactionHorizonsWithSnapshots (hr_inventory rq)
         (hr_active_snapshot_horizons rq @ published) = Inr h \<and>
       a = authoritative_result rq (hr_active_snapshot_horizons rq @ published) h)"
proof (cases "ValidateInventory rq")
  case (Inl e)
  then have "\<not> (hr_inventory_authoritative rq \<and> hr_inventory_complete rq \<and> valid_inventory (hr_inventory rq))"
    using ValidateInventory_Inr [of rq "()"] by simp
  with Inl show ?thesis by (auto simp: ComputeAuthoritativeCleanupHorizon_def)
next
  case (Inr u)
  with ValidateInventory_Inr [of rq u] show ?thesis
    by (cases "ValidateAlwaysActiveSessions rq")
      (auto simp: ComputeAuthoritativeCleanupHorizon_def ValidateAlwaysActiveSessions_def validate_bindings_Inr Let_def
        dest: validate_bindings_Inl split: sum.splits if_splits)
qed

end
