(* ===== verification/TransactionCleanup.thy ===== *)
theory TransactionCleanup
  imports CopyOnWrite CleanupHorizon
begin

text \<open>
  Cleanup of row versions: \<^verbatim>\<open>transaction/mga/transaction_cleanup.{hpp,cpp}\<close>. A version is reclaimed when
  its creator's outcome is final, all horizons and holds lie above its creator, its kind is one the
  request asks for, and, for an obsolete committed version, its successor is committed below the
  horizon. Metrics are left out: they are observations and do not feed back into a decision.
\<close>

section \<open>Data\<close>

datatype local_cleanup_sweep_family =
    SF_cooperative | SF_background | SF_explicit_request | SF_maintenance | SF_emergency | SF_unknown

record cleanup_decision_result =
  cd_status :: status
  cd_decision :: cleanup_eligibility_decision
  cd_blocking_hold :: cleanup_hold_kind
  cd_diagnostic :: diagnostic_record

text \<open>
  \<^verbatim>\<open>AuthoritativeCleanupHold\<close> has the members of \<^verbatim>\<open>CleanupHorizon\<close> and is represented by it.
\<close>

type_synonym authoritative_cleanup_hold = cleanup_horizon

record history_retention_horizon =
  rh_horizon_transaction :: local_transaction_id
  rh_authoritative :: bool
  rh_stable_name :: string

record reclaim_evidence_record =
  re_row_version_identity :: row_version_identity
  re_row_version_state :: row_version_state
  re_creator_transaction :: local_transaction_id
  re_successor_transaction :: local_transaction_id
  re_cleanup_horizon :: u64
  re_stable_evidence_id :: string

record cleanup_workset_request =
  wr_inventory :: local_transaction_inventory
  wr_inventory_authoritative :: bool
  wr_inventory_complete :: bool
  wr_active_snapshot_horizons :: "local_transaction_id list"
  wr_active_snapshot_inventory_authoritative :: bool
  wr_always_in_transaction_policy :: bool
  wr_always_active_session_inventory_authoritative :: bool
  wr_always_active_sessions :: "always_active_session_binding list"
  wr_additional_holds :: "authoritative_cleanup_hold list"
  wr_history_retention_horizons :: "history_retention_horizon list"
  wr_row_versions :: "row_version_metadata list"
  wr_max_retained_row_versions :: u64
  wr_retain_row_versions_in_result :: bool
  wr_emit_reclaim_evidence_records :: bool
  wr_max_reclaim_evidence_records :: u64
  wr_reclaim_rolled_back_versions :: bool
  wr_reclaim_delete_markers :: bool
  wr_reclaim_obsolete_committed_versions :: bool

text \<open>
  The result. \<open>ws_horizons\<close> is \<open>None\<close> while no horizons were computed; the metric outcomes and
  \<^verbatim>\<open>physical_storage_mutated\<close>, which stays false, are left out.
\<close>

record cleanup_workset_result =
  ws_status :: status
  ws_horizons :: "local_transaction_horizons option"
  ws_retained_row_versions :: "row_version_metadata list"
  ws_reclaim_evidence_records :: "reclaim_evidence_record list"
  ws_reclaimed_row_version_count :: u64
  ws_retained_row_version_count :: u64
  ws_horizon_blocked_row_version_count :: u64
  ws_backup_archive_blocked_row_version_count :: u64
  ws_retention_blocked_row_version_count :: u64
  ws_limbo_or_unknown_outcome_blocked_row_version_count :: u64
  ws_oldest_retained_row_version_local_transaction_id :: u64
  ws_authoritative_cleanup_horizon_local_transaction_id :: u64
  ws_cleanup_horizon_authoritative :: bool
  ws_bounded_memory_limit_hit :: bool
  ws_diagnostic :: "diagnostic_record option"

definition workset_ok :: "cleanup_workset_result \<Rightarrow> bool" where
  "workset_ok r \<longleftrightarrow> status_ok (ws_status r) \<and> ws_cleanup_horizon_authoritative r"

record garbage_collection_sweep_request =
  sw_workset :: cleanup_workset_request
  sw_family :: local_cleanup_sweep_family
  sw_engine_mga_authoritative :: bool
  sw_max_candidate_row_versions :: u64
  sw_max_retained_row_versions :: u64
  sw_retain_row_versions_in_result :: bool

record garbage_collection_sweep_result =
  sr_status :: status
  sr_cleanup :: "cleanup_workset_result option"
  sr_family :: local_cleanup_sweep_family
  sr_scanned_row_version_count :: u64
  sr_bounded_memory_enforced :: bool
  sr_diagnostic :: "diagnostic_record option"

definition sweep_ok :: "garbage_collection_sweep_result \<Rightarrow> bool" where
  "sweep_ok r \<longleftrightarrow> status_ok (sr_status r) \<and> (case sr_cleanup r of None \<Rightarrow> False | Some c \<Rightarrow> workset_ok c) \<and>
    sr_bounded_memory_enforced r"

section \<open>Decisions\<close>

fun LocalCleanupSweepFamilyName :: "local_cleanup_sweep_family \<Rightarrow> string" where
  "LocalCleanupSweepFamilyName SF_cooperative = ''cooperative''"
| "LocalCleanupSweepFamilyName SF_background = ''background''"
| "LocalCleanupSweepFamilyName SF_explicit_request = ''explicit_request''"
| "LocalCleanupSweepFamilyName SF_maintenance = ''maintenance''"
| "LocalCleanupSweepFamilyName SF_emergency = ''emergency''"
| "LocalCleanupSweepFamilyName SF_unknown = ''unknown''"

definition CleanupWarningStatus :: status where
  "CleanupWarningStatus = TransactionErrorStatus\<lparr>status_severity := Sev_warning\<rparr>"

definition CleanupErrorStatus :: status where
  "CleanupErrorStatus = TransactionErrorStatus"

definition MakeTransactionCleanupDiagnostic :: "status \<Rightarrow> string \<Rightarrow> string \<Rightarrow> string \<Rightarrow> diagnostic_record" where
  "MakeTransactionCleanupDiagnostic = component_diagnostic ''transaction.mga.cleanup''"

definition RetentionHorizonStableName :: "history_retention_horizon \<Rightarrow> string" where
  "RetentionHorizonStableName h = (if rh_stable_name h = [] then ''history_retention_horizon'' else rh_stable_name h)"

definition IsCleanupReclaimableByKind :: "row_version_metadata \<Rightarrow> cleanup_workset_request \<Rightarrow> bool" where
  "IsCleanupReclaimableByKind m rq =
    (if version_state m = RV_rolled_back then wr_reclaim_rolled_back_versions rq
     else if version_state m = RV_delete_marker then wr_reclaim_delete_markers rq
     else if version_state m = RV_committed \<and> has_next (chain m) then wr_reclaim_obsolete_committed_versions rq
     else False)"

definition CleanupStatusForDecision :: "cleanup_eligibility_decision \<Rightarrow> status" where
  "CleanupStatusForDecision d = (if d = CE_eligible_authoritative then TransactionOkStatus else CleanupWarningStatus)"

fun DecisionForHoldKind :: "cleanup_hold_kind \<Rightarrow> cleanup_eligibility_decision" where
  "DecisionForHoldKind CH_limbo_transaction = CE_blocked_by_limbo"
| "DecisionForHoldKind CH_recovery_required = CE_blocked_by_recovery"
| "DecisionForHoldKind CH_archive_required = CE_blocked_by_archive_or_backup"
| "DecisionForHoldKind CH_backup_required = CE_blocked_by_archive_or_backup"
| "DecisionForHoldKind CH_none = CE_blocked_by_horizon"
| "DecisionForHoldKind CH_oldest_interesting_transaction = CE_blocked_by_horizon"
| "DecisionForHoldKind CH_oldest_active_transaction = CE_blocked_by_horizon"
| "DecisionForHoldKind CH_oldest_snapshot_transaction = CE_blocked_by_horizon"
| "DecisionForHoldKind CH_management_operation = CE_blocked_by_horizon"
| "DecisionForHoldKind CH_legal_hold = CE_blocked_by_horizon"
| "DecisionForHoldKind CH_admin_hold = CE_blocked_by_horizon"
| "DecisionForHoldKind CH_unknown = CE_blocked_by_horizon"

definition MakeBlockedDecisionWithCode ::
  "cleanup_hold_kind \<Rightarrow> string \<Rightarrow> string \<Rightarrow> string \<Rightarrow> cleanup_decision_result" where
  "MakeBlockedDecisionWithCode k code key detail =
    (let d = DecisionForHoldKind k; st = CleanupStatusForDecision d in
     \<lparr>cd_status = st, cd_decision = d, cd_blocking_hold = k,
      cd_diagnostic = MakeTransactionCleanupDiagnostic st code key detail\<rparr>)"

definition MakeBlockedDecision :: "cleanup_hold_kind \<Rightarrow> string \<Rightarrow> string \<Rightarrow> cleanup_decision_result" where
  "MakeBlockedDecision k key detail =
    MakeBlockedDecisionWithCode k ''SB-SNTXN-CLEANUP-BLOCKED-BY-HORIZON'' key detail"

definition MakeEligibleDecision :: cleanup_decision_result where
  "MakeEligibleDecision =
    \<lparr>cd_status = TransactionOkStatus, cd_decision = CE_eligible_authoritative, cd_blocking_hold = CH_none,
     cd_diagnostic = MakeTransactionCleanupDiagnostic TransactionOkStatus
       ''SB-SNTXN-CLEANUP-ELIGIBLE-AUTHORITATIVE'' ''transaction.cleanup.eligible_authoritative'' ''''\<rparr>"

definition HorizonBlocks :: "local_transaction_id \<Rightarrow> row_version_metadata \<Rightarrow> bool" where
  "HorizonBlocks h m \<longleftrightarrow> \<not> local_id_valid h \<or> h \<le> creator_id m"

definition EvaluateHold ::
  "row_version_metadata \<Rightarrow> cleanup_hold_kind \<Rightarrow> local_transaction_id \<Rightarrow> bool \<Rightarrow> string \<Rightarrow> cleanup_decision_result" where
  "EvaluateHold m k h authoritative name =
    (if \<not> authoritative then
       MakeBlockedDecision k ''transaction.cleanup.non_authoritative_hold'' (''non_authoritative_hold:'' @ name)
     else if \<not> local_id_valid h then
       MakeBlockedDecision k ''transaction.cleanup.invalid_hold'' (''invalid_hold:'' @ name)
     else if HorizonBlocks h m then MakeBlockedDecision k ''transaction.cleanup.blocked_by_hold'' name
     else MakeEligibleDecision)"

definition IsKnownFinalCreatorOutcome :: "row_version_metadata \<Rightarrow> bool" where
  "IsKnownFinalCreatorOutcome m =
    (if version_state m = RV_delete_marker then
       creator_transaction_state m = TS_committed \<or> creator_transaction_state m = TS_rolled_back
     else if version_state m = RV_committed then creator_transaction_state m = TS_committed
     else if version_state m = RV_rolled_back then creator_transaction_state m = TS_rolled_back
     else False)"

definition CreatorOutcomeCanBecomeKnown :: "transaction_state \<Rightarrow> bool" where
  "CreatorOutcomeCanBecomeKnown s \<longleftrightarrow> s = TS_created \<or> s = TS_active \<or> s = TS_read_only_active \<or>
    s = TS_preparing \<or> s = TS_prepared \<or> s = TS_committing \<or> s = TS_rolling_back \<or> s = TS_recovering \<or>
    s = TS_limbo \<or> s = TS_failed_terminal"

definition EvaluateCreatorOutcomeForCleanup :: "row_version_metadata \<Rightarrow> cleanup_decision_result" where
  "EvaluateCreatorOutcomeForCleanup m =
    (let names = RowVersionStateName (version_state m) @ '':'' @ TransactionStateName (creator_transaction_state m) in
     if version_state m = RV_limbo \<or> creator_transaction_state m = TS_limbo then
       MakeBlockedDecision CH_limbo_transaction ''transaction.cleanup.blocked_by_limbo''
         (RowVersionStateName (version_state m))
     else if version_state m = RV_recovery_required \<or> creator_transaction_state m = TS_recovering then
       MakeBlockedDecision CH_recovery_required ''transaction.cleanup.blocked_by_recovery''
         (TransactionStateName (creator_transaction_state m))
     else if IsKnownFinalCreatorOutcome m then MakeEligibleDecision
     else if CreatorOutcomeCanBecomeKnown (creator_transaction_state m) \<or> version_state m = RV_uncommitted \<or>
             version_state m = RV_prepared then
       MakeBlockedDecisionWithCode CH_recovery_required ''SB-SNTXN-CLEANUP-BLOCKED-BY-UNKNOWN-OUTCOME''
         ''transaction.cleanup.blocked_by_unknown_outcome'' names
     else
       MakeBlockedDecisionWithCode CH_recovery_required ''SB-SNTXN-CLEANUP-BLOCKED-BY-UNKNOWN-OUTCOME''
         ''transaction.cleanup.creator_outcome_mismatch'' names)"

definition EvaluateRetentionHorizon ::
  "row_version_metadata \<Rightarrow> history_retention_horizon \<Rightarrow> cleanup_decision_result" where
  "EvaluateRetentionHorizon m h =
    (let code = ''SB-SNTXN-CLEANUP-BLOCKED-BY-RETENTION-HORIZON'' in
     if \<not> rh_authoritative h then
       MakeBlockedDecisionWithCode CH_legal_hold code ''transaction.cleanup.retention_horizon_not_authoritative''
         (''non_authoritative_retention_horizon:'' @ RetentionHorizonStableName h)
     else if \<not> local_id_valid (rh_horizon_transaction h) then
       MakeBlockedDecisionWithCode CH_legal_hold code ''transaction.cleanup.retention_horizon_invalid''
         (''invalid_retention_horizon:'' @ RetentionHorizonStableName h)
     else if HorizonBlocks (rh_horizon_transaction h) m then
       MakeBlockedDecisionWithCode CH_legal_hold code ''transaction.cleanup.blocked_by_retention_horizon''
         (RetentionHorizonStableName h)
     else MakeEligibleDecision)"

definition IsRetentionBlockedDecision :: "cleanup_decision_result \<Rightarrow> bool" where
  "IsRetentionBlockedDecision d \<longleftrightarrow>
    diagnostic_code (cd_diagnostic d) = ''SB-SNTXN-CLEANUP-BLOCKED-BY-RETENTION-HORIZON''"

definition IsUnknownOutcomeDecision :: "cleanup_decision_result \<Rightarrow> bool" where
  "IsUnknownOutcomeDecision d \<longleftrightarrow>
    diagnostic_code (cd_diagnostic d) = ''SB-SNTXN-CLEANUP-BLOCKED-BY-UNKNOWN-OUTCOME''"

definition IsBackupOrArchiveHold :: "cleanup_hold_kind \<Rightarrow> bool" where
  "IsBackupOrArchiveHold k \<longleftrightarrow> k = CH_archive_required \<or> k = CH_backup_required"

definition StableReclaimEvidenceId :: "row_version_metadata \<Rightarrow> u64 \<Rightarrow> string" where
  "StableReclaimEvidenceId m horizon =
    ''mga-cleanup-reclaim:'' @ to_string (creator_id m) @ '':'' @ to_string (version_sequence (version_identity m))
      @ '':'' @ to_string horizon"

definition MakeReclaimEvidenceRecord :: "row_version_metadata \<Rightarrow> u64 \<Rightarrow> reclaim_evidence_record" where
  "MakeReclaimEvidenceRecord m horizon =
    \<lparr>re_row_version_identity = version_identity m, re_row_version_state = version_state m,
     re_creator_transaction = creator_id m, re_successor_transaction = successor_transaction_local_id m,
     re_cleanup_horizon = horizon, re_stable_evidence_id = StableReclaimEvidenceId m horizon\<rparr>"

text \<open>
  \<^verbatim>\<open>EvaluateLocalCleanupWithHorizons\<close>. A value of the model's horizons is always one whose \<^verbatim>\<open>valid\<close>
  flag is set; \<open>None\<close> is a value without it.
\<close>

definition EvaluateLocalCleanupWithHorizons ::
  "row_version_metadata \<Rightarrow> local_transaction_horizons option \<Rightarrow> cleanup_decision_result" where
  "EvaluateLocalCleanupWithHorizons m horizons =
    (case horizons of
       None \<Rightarrow> \<lparr>cd_status = CleanupWarningStatus, cd_decision = CE_blocked_by_horizon,
                cd_blocking_hold = CH_oldest_interesting_transaction,
                cd_diagnostic = MakeTransactionCleanupDiagnostic CleanupWarningStatus
                  ''SB-SNTXN-CLEANUP-BLOCKED-BY-HORIZON'' ''transaction.cleanup.invalid_horizons'' ''''\<rparr>
     | Some h \<Rightarrow> (case ValidateRowVersionMetadata m of
       Inl d \<Rightarrow> \<lparr>cd_status = diag_status d, cd_decision = CE_unknown, cd_blocking_hold = CH_unknown,
                 cd_diagnostic = d\<rparr>
     | Inr _ \<Rightarrow>
         let creator = EvaluateCreatorOutcomeForCleanup m;
             oit = EvaluateHold m CH_oldest_interesting_transaction (oldest_interesting_transaction h) True ''local_oit'';
             oat = EvaluateHold m CH_oldest_active_transaction (oldest_active_transaction h) True ''local_oat'';
             ost = EvaluateHold m CH_oldest_snapshot_transaction (oldest_snapshot_transaction h) True ''local_ost''
         in if cd_decision creator \<noteq> CE_eligible_authoritative then creator
            else if cd_decision oit \<noteq> CE_eligible_authoritative then oit
            else if cd_decision oat \<noteq> CE_eligible_authoritative then oat
            else if cd_decision ost \<noteq> CE_eligible_authoritative then ost
            else MakeEligibleDecision))"

text \<open>
  The loops over the holds and the retention horizons: the first decision that is not eligible,
  otherwise the last one.
\<close>

fun first_refusal :: "cleanup_decision_result \<Rightarrow> cleanup_decision_result list \<Rightarrow> cleanup_decision_result" where
  "first_refusal r [] = r"
| "first_refusal r (d # ds) = (if cd_decision d \<noteq> CE_eligible_authoritative then d else first_refusal d ds)"

definition EvaluateLocalCleanupWithAuthoritativeHolds ::
  "row_version_metadata \<Rightarrow> local_transaction_horizons option \<Rightarrow> authoritative_cleanup_hold list \<Rightarrow>
   cleanup_decision_result" where
  "EvaluateLocalCleanupWithAuthoritativeHolds m horizons holds =
    (let result = EvaluateLocalCleanupWithHorizons m horizons in
     if cd_decision result \<noteq> CE_eligible_authoritative then result
     else first_refusal result
       (map (\<lambda>h. EvaluateHold m (hold_kind h) (horizon_transaction h) (horizon_authoritative h)
                   (horizon_stable_name h)) holds))"

definition EvaluateLocalCleanupWithRetentionHolds ::
  "row_version_metadata \<Rightarrow> local_transaction_horizons option \<Rightarrow> authoritative_cleanup_hold list \<Rightarrow>
   history_retention_horizon list \<Rightarrow> cleanup_decision_result" where
  "EvaluateLocalCleanupWithRetentionHolds m horizons holds retention =
    (let result = EvaluateLocalCleanupWithAuthoritativeHolds m horizons holds in
     if cd_decision result \<noteq> CE_eligible_authoritative then result
     else first_refusal result (map (EvaluateRetentionHorizon m) retention))"

definition FindInventoryEntry ::
  "local_transaction_inventory \<Rightarrow> local_transaction_id \<Rightarrow> transaction_inventory_entry option" where
  "FindInventoryEntry ivt i = find (\<lambda>e. entry_id e = i) (entries ivt)"

definition InventoryContainsCreator :: "local_transaction_inventory \<Rightarrow> row_version_metadata \<Rightarrow> bool" where
  "InventoryContainsCreator ivt m \<longleftrightarrow>
    list_ex (\<lambda>e. entry_id e = creator_id m \<and>
       entry_uuid e = uuid_value (transaction_uuid (creator_transaction (version_identity m)))) (entries ivt)"

definition IsActiveCleanupBlockerState :: "transaction_state \<Rightarrow> bool" where
  "IsActiveCleanupBlockerState s \<longleftrightarrow> s = TS_active \<or> s = TS_read_only_active"

definition IsUnresolvedCleanupBlockerState :: "transaction_state \<Rightarrow> bool" where
  "IsUnresolvedCleanupBlockerState s \<longleftrightarrow> s = TS_preparing \<or> s = TS_prepared \<or> s = TS_committing \<or>
    s = TS_limbo \<or> s = TS_recovering \<or> s = TS_failed_terminal"

definition EvaluateSuccessorTransactionForCleanup ::
  "row_version_metadata \<Rightarrow> local_transaction_inventory \<Rightarrow> local_transaction_id \<Rightarrow> cleanup_decision_result" where
  "EvaluateSuccessorTransactionForCleanup m ivt horizon =
    (let s = successor_transaction_local_id m; code = ''SB-SNTXN-CLEANUP-BLOCKED-BY-UNKNOWN-SUCCESSOR'' in
     if version_state m \<noteq> RV_committed \<or> \<not> has_next (chain m) then MakeEligibleDecision
     else if \<not> local_id_valid s then
       MakeBlockedDecisionWithCode CH_recovery_required code
         ''transaction.cleanup.successor_transaction_missing'' (to_string (creator_id m))
     else if \<not> local_id_valid horizon \<or> horizon \<le> s then
       MakeBlockedDecision CH_oldest_active_transaction
         ''transaction.cleanup.successor_not_below_cleanup_horizon'' (to_string s)
     else case FindInventoryEntry ivt s of
       None \<Rightarrow> MakeBlockedDecisionWithCode CH_recovery_required code
                 ''transaction.cleanup.successor_transaction_not_in_inventory'' (to_string s)
     | Some e \<Rightarrow>
         if IsActiveCleanupBlockerState (entry_state e) then
           MakeBlockedDecision CH_oldest_active_transaction
             ''transaction.cleanup.successor_transaction_active'' (to_string (entry_id e))
         else if IsUnresolvedCleanupBlockerState (entry_state e) then
           MakeBlockedDecisionWithCode CH_recovery_required code
             ''transaction.cleanup.successor_transaction_unresolved'' (TransactionStateName (entry_state e))
         else if entry_state e \<noteq> TS_committed then
           MakeBlockedDecisionWithCode CH_recovery_required code
             ''transaction.cleanup.successor_transaction_not_committed'' (TransactionStateName (entry_state e))
         else MakeEligibleDecision)"

section \<open>The workset\<close>

text \<open>A default constructed result with the status and the diagnostic of an early refusal.\<close>

definition refused_workset :: "status \<Rightarrow> diagnostic_record \<Rightarrow> cleanup_workset_result" where
  "refused_workset st d =
    \<lparr>ws_status = st, ws_horizons = None, ws_retained_row_versions = [], ws_reclaim_evidence_records = [],
     ws_reclaimed_row_version_count = 0, ws_retained_row_version_count = 0,
     ws_horizon_blocked_row_version_count = 0, ws_backup_archive_blocked_row_version_count = 0,
     ws_retention_blocked_row_version_count = 0, ws_limbo_or_unknown_outcome_blocked_row_version_count = 0,
     ws_oldest_retained_row_version_local_transaction_id = 0,
     ws_authoritative_cleanup_horizon_local_transaction_id = 0, ws_cleanup_horizon_authoritative = False,
     ws_bounded_memory_limit_hit = False, ws_diagnostic = Some d\<rparr>"

definition workset_error :: "string \<Rightarrow> string \<Rightarrow> string \<Rightarrow> cleanup_workset_result" where
  "workset_error code key detail =
    refused_workset CleanupErrorStatus (MakeTransactionCleanupDiagnostic CleanupErrorStatus code key detail)"

text \<open>The two loops that check the holds and the retention horizons before anything else.\<close>

fun check_holds :: "authoritative_cleanup_hold list \<Rightarrow> cleanup_workset_result option" where
  "check_holds [] = None"
| "check_holds (h # hs) =
    (if \<not> horizon_authoritative h then
       Some (workset_error ''SB-SNTXN-CLEANUP-HOLD-NOT-AUTHORITATIVE'' ''transaction.cleanup.hold_not_authoritative''
               (horizon_stable_name h))
     else if \<not> local_id_valid (horizon_transaction h) then
       Some (workset_error ''SB-SNTXN-CLEANUP-HOLD-INVALID'' ''transaction.cleanup.hold_invalid''
               (horizon_stable_name h))
     else check_holds hs)"

fun check_retention :: "history_retention_horizon list \<Rightarrow> cleanup_workset_result option" where
  "check_retention [] = None"
| "check_retention (h # hs) =
    (if \<not> rh_authoritative h then
       Some (workset_error ''SB-SNTXN-CLEANUP-RETENTION-HORIZON-NOT-AUTHORITATIVE''
               ''transaction.cleanup.retention_horizon_not_authoritative'' (RetentionHorizonStableName h))
     else if \<not> local_id_valid (rh_horizon_transaction h) then
       Some (workset_error ''SB-SNTXN-CLEANUP-RETENTION-HORIZON-INVALID''
               ''transaction.cleanup.retention_horizon_invalid'' (RetentionHorizonStableName h))
     else check_retention hs)"

definition workset_horizon_request :: "cleanup_workset_request \<Rightarrow> cleanup_horizon_request" where
  "workset_horizon_request rq =
    \<lparr>hr_inventory = wr_inventory rq, hr_inventory_authoritative = wr_inventory_authoritative rq,
     hr_inventory_complete = wr_inventory_complete rq,
     hr_active_snapshot_horizons = wr_active_snapshot_horizons rq,
     hr_active_snapshot_inventory_authoritative = wr_active_snapshot_inventory_authoritative rq,
     hr_always_in_transaction_policy = wr_always_in_transaction_policy rq,
     hr_always_active_session_inventory_authoritative = wr_always_active_session_inventory_authoritative rq,
     hr_always_active_sessions = wr_always_active_sessions rq\<rparr>"

definition effective_cleanup_horizon :: "cleanup_workset_request \<Rightarrow> local_transaction_id \<Rightarrow> u64" where
  "effective_cleanup_horizon rq horizon =
    fold (\<lambda>h m. min m (rh_horizon_transaction h)) (wr_history_retention_horizons rq)
      (fold (\<lambda>h m. min m (horizon_transaction h)) (wr_additional_holds rq) horizon)"

text \<open>The decision for one version: \<^verbatim>\<open>successor_decision\<close>.\<close>

definition version_decision ::
  "cleanup_workset_request \<Rightarrow> local_transaction_horizons \<Rightarrow> u64 \<Rightarrow> row_version_metadata \<Rightarrow> cleanup_decision_result" where
  "version_decision rq h horizon m =
    (let d = EvaluateLocalCleanupWithRetentionHolds m (Some h) (wr_additional_holds rq) (wr_history_retention_horizons rq)
     in if cd_decision d = CE_eligible_authoritative
        then EvaluateSuccessorTransactionForCleanup m (wr_inventory rq) horizon else d)"

definition version_retained ::
  "cleanup_workset_request \<Rightarrow> local_transaction_horizons \<Rightarrow> u64 \<Rightarrow> row_version_metadata \<Rightarrow> bool" where
  "version_retained rq h horizon m \<longleftrightarrow>
    \<not> status_ok (cd_status (version_decision rq h horizon m)) \<or>
    cd_decision (version_decision rq h horizon m) \<noteq> CE_eligible_authoritative \<or>
    \<not> IsCleanupReclaimableByKind m rq"

definition count_if :: "bool \<Rightarrow> u64 \<Rightarrow> u64" where
  "count_if b n = (if b then n + 1 else n)"

text \<open>What a retained version adds to the result.\<close>

definition retain_version ::
  "cleanup_workset_request \<Rightarrow> cleanup_decision_result \<Rightarrow> row_version_metadata \<Rightarrow> cleanup_workset_result \<Rightarrow>
   cleanup_workset_result" where
  "retain_version rq d m r =
    r\<lparr>ws_retained_row_versions := ws_retained_row_versions r @ (if wr_retain_row_versions_in_result rq then [m] else []),
      ws_retained_row_version_count := ws_retained_row_version_count r + 1,
      ws_oldest_retained_row_version_local_transaction_id :=
        (let oldest = ws_oldest_retained_row_version_local_transaction_id r in
         if creator_id m \<noteq> 0 \<and> (oldest = 0 \<or> creator_id m < oldest) then creator_id m else oldest),
      ws_horizon_blocked_row_version_count :=
        count_if (cd_decision d \<in> {CE_blocked_by_horizon, CE_blocked_by_limbo, CE_blocked_by_recovery,
                                   CE_blocked_by_archive_or_backup})
          (ws_horizon_blocked_row_version_count r),
      ws_backup_archive_blocked_row_version_count :=
        count_if (cd_decision d = CE_blocked_by_archive_or_backup \<or> IsBackupOrArchiveHold (cd_blocking_hold d))
          (ws_backup_archive_blocked_row_version_count r),
      ws_retention_blocked_row_version_count :=
        count_if (IsRetentionBlockedDecision d) (ws_retention_blocked_row_version_count r),
      ws_limbo_or_unknown_outcome_blocked_row_version_count :=
        count_if (cd_decision d = CE_blocked_by_limbo \<or> IsUnknownOutcomeDecision d \<or>
                  diagnostic_code (cd_diagnostic d) = ''SB-SNTXN-CLEANUP-BLOCKED-BY-UNKNOWN-SUCCESSOR'')
          (ws_limbo_or_unknown_outcome_blocked_row_version_count r)\<rparr>"

definition limit_exceeded :: "string \<Rightarrow> string \<Rightarrow> u64 \<Rightarrow> cleanup_workset_result \<Rightarrow> cleanup_workset_result" where
  "limit_exceeded code key limit r =
    r\<lparr>ws_bounded_memory_limit_hit := True, ws_status := CleanupErrorStatus,
      ws_diagnostic := Some (MakeTransactionCleanupDiagnostic CleanupErrorStatus code key (to_string limit))\<rparr>"

text \<open>The loop over the versions, with its two early returns and the final status.\<close>

fun workset_loop ::
  "cleanup_workset_request \<Rightarrow> local_transaction_horizons \<Rightarrow> u64 \<Rightarrow> row_version_metadata list \<Rightarrow>
   cleanup_workset_result \<Rightarrow> cleanup_workset_result" where
  "workset_loop rq h horizon [] r =
    r\<lparr>ws_status := TransactionOkStatus,
      ws_diagnostic := Some (MakeTransactionCleanupDiagnostic TransactionOkStatus ''SB-SNTXN-CLEANUP-APPLIED''
        ''transaction.cleanup.applied'' (to_string (ws_reclaimed_row_version_count r)))\<rparr>"
| "workset_loop rq h horizon (m # ms) r =
    (if version_retained rq h horizon m then
       if wr_retain_row_versions_in_result rq \<and> wr_max_retained_row_versions rq \<noteq> 0 \<and>
          unat (wr_max_retained_row_versions rq) \<le> length (ws_retained_row_versions r) then
         limit_exceeded ''SB-SNTXN-CLEANUP-RESULT-LIMIT-EXCEEDED'' ''transaction.cleanup.result_limit_exceeded''
           (wr_max_retained_row_versions rq) r
       else workset_loop rq h horizon ms (retain_version rq (version_decision rq h horizon m) m r)
     else
       let r' = r\<lparr>ws_reclaimed_row_version_count := ws_reclaimed_row_version_count r + 1\<rparr> in
       if wr_emit_reclaim_evidence_records rq then
         if wr_max_reclaim_evidence_records rq = 0 \<or>
            unat (wr_max_reclaim_evidence_records rq) \<le> length (ws_reclaim_evidence_records r') then
           limit_exceeded ''SB-SNTXN-CLEANUP-RECLAIM-EVIDENCE-LIMIT-EXCEEDED''
             ''transaction.cleanup.reclaim_evidence_limit_exceeded'' (wr_max_reclaim_evidence_records rq) r'
         else workset_loop rq h horizon ms
           (r'\<lparr>ws_reclaim_evidence_records :=
                 ws_reclaim_evidence_records r' @ [MakeReclaimEvidenceRecord m horizon]\<rparr>)
       else workset_loop rq h horizon ms r')"

definition ApplyLocalCleanupWithAuthoritativeInventory ::
  "cleanup_workset_request \<Rightarrow> snapshot_registry \<Rightarrow> cleanup_workset_result" where
  "ApplyLocalCleanupWithAuthoritativeInventory rq reg =
    (if \<not> wr_inventory_authoritative rq then
       workset_error ''SB-SNTXN-CLEANUP-HORIZON-NOT-AUTHORITATIVE'' ''transaction.cleanup.horizon_not_authoritative''
         ''destructive cleanup requires durable local inventory authority''
     else case check_holds (wr_additional_holds rq) of Some r \<Rightarrow> r | None \<Rightarrow>
     (case check_retention (wr_history_retention_horizons rq) of Some r \<Rightarrow> r | None \<Rightarrow>
     (case ComputeAuthoritativeCleanupHorizon (workset_horizon_request rq) reg of
        Inl (d, _) \<Rightarrow> refused_workset (diag_status d) d
      | Inr a \<Rightarrow>
          let horizon = effective_cleanup_horizon rq (ah_cleanup_horizon a) in
          workset_loop rq (ah_horizons a) horizon (wr_row_versions rq)
            ((refused_workset TransactionOkStatus (ah_diagnostic a))
               \<lparr>ws_horizons := Some (ah_horizons a),
                ws_authoritative_cleanup_horizon_local_transaction_id := horizon,
                ws_cleanup_horizon_authoritative := True, ws_diagnostic := None\<rparr>))))"

section \<open>The sweep\<close>

definition IsKnownSweepFamily :: "local_cleanup_sweep_family \<Rightarrow> bool" where
  "IsKnownSweepFamily f \<longleftrightarrow> f \<noteq> SF_unknown"

definition CleanupSweepError ::
  "local_cleanup_sweep_family \<Rightarrow> u64 \<Rightarrow> string \<Rightarrow> string \<Rightarrow> string \<Rightarrow> garbage_collection_sweep_result" where
  "CleanupSweepError family scanned code key detail =
    \<lparr>sr_status = CleanupErrorStatus, sr_cleanup = None, sr_family = family,
     sr_scanned_row_version_count = scanned, sr_bounded_memory_enforced = False,
     sr_diagnostic = Some (MakeTransactionCleanupDiagnostic CleanupErrorStatus code key detail)\<rparr>"

definition RunLocalGarbageCollectionSweep ::
  "garbage_collection_sweep_request \<Rightarrow> snapshot_registry \<Rightarrow> garbage_collection_sweep_result" where
  "RunLocalGarbageCollectionSweep rq reg =
    (let versions = wr_row_versions (sw_workset rq); scanned = of_nat (length versions) :: u64;
         err = CleanupSweepError (sw_family rq) scanned in
     if \<not> sw_engine_mga_authoritative rq then
       err ''SB-SNTXN-CLEANUP-SWEEP-NOT-ENGINE-AUTHORITATIVE'' ''transaction.cleanup.sweep_not_engine_authoritative''
         ''local MGA engine authority is required''
     else if \<not> IsKnownSweepFamily (sw_family rq) then
       err ''SB-SNTXN-CLEANUP-SWEEP-FAMILY-UNKNOWN'' ''transaction.cleanup.sweep_family_unknown'' ''''
     else if sw_max_candidate_row_versions rq = 0 \<or> sw_max_candidate_row_versions rq < scanned then
       err ''SB-SNTXN-CLEANUP-BOUNDED-SCAN-REQUIRED'' ''transaction.cleanup.bounded_scan_required''
         (to_string (sw_max_candidate_row_versions rq))
     else if sw_retain_row_versions_in_result rq \<and> sw_max_retained_row_versions rq = 0 then
       err ''SB-SNTXN-CLEANUP-BOUNDED-RESULT-REQUIRED'' ''transaction.cleanup.bounded_result_required'' ''''
     else case find (\<lambda>m. \<not> InventoryContainsCreator (wr_inventory (sw_workset rq)) m) versions of
       Some m \<Rightarrow> err ''SB-SNTXN-CLEANUP-CREATOR-NOT-IN-INVENTORY'' ''transaction.cleanup.creator_not_in_inventory''
                   (to_string (creator_id m))
     | None \<Rightarrow>
         let cleanup = ApplyLocalCleanupWithAuthoritativeInventory
               ((sw_workset rq)\<lparr>wr_max_retained_row_versions := sw_max_retained_row_versions rq,
                  wr_retain_row_versions_in_result := sw_retain_row_versions_in_result rq\<rparr>) reg
         in \<lparr>sr_status = ws_status cleanup, sr_cleanup = Some cleanup, sr_family = sw_family rq,
             sr_scanned_row_version_count = scanned, sr_bounded_memory_enforced = True,
             sr_diagnostic = ws_diagnostic cleanup\<rparr>)"

section \<open>Lemmas: decisions\<close>

lemma DecisionForHoldKind_blocks [simp]: "DecisionForHoldKind k \<noteq> CE_eligible_authoritative"
  by (cases k) simp_all

lemma decisions [simp]:
  "cd_decision (MakeBlockedDecisionWithCode k c x d) \<noteq> CE_eligible_authoritative"
  "cd_decision (MakeBlockedDecision k x d) \<noteq> CE_eligible_authoritative"
  "cd_decision MakeEligibleDecision = CE_eligible_authoritative"
  "status_ok (cd_status MakeEligibleDecision)"
  by (simp_all add: MakeBlockedDecisionWithCode_def MakeBlockedDecision_def MakeEligibleDecision_def Let_def
      TransactionOkStatus_def status_ok_def)

lemma EvaluateHold_eligible:
  "cd_decision (EvaluateHold m k h a n) = CE_eligible_authoritative \<longleftrightarrow> a \<and> creator_id m < h"
  by (auto simp: EvaluateHold_def HorizonBlocks_def local_id_valid_def kInvalidLocalTransactionId_def not_le)

lemma EvaluateRetentionHorizon_eligible:
  "cd_decision (EvaluateRetentionHorizon m h) = CE_eligible_authoritative \<longleftrightarrow>
    rh_authoritative h \<and> creator_id m < rh_horizon_transaction h"
  by (auto simp: EvaluateRetentionHorizon_def HorizonBlocks_def local_id_valid_def kInvalidLocalTransactionId_def
      Let_def not_le)

lemma first_refusal_eligible:
  "cd_decision (first_refusal r ds) = CE_eligible_authoritative \<longleftrightarrow>
    (if ds = [] then cd_decision r = CE_eligible_authoritative
     else list_all (\<lambda>d. cd_decision d = CE_eligible_authoritative) ds)"
  by (induction ds arbitrary: r) auto

lemma EvaluateCreator_eligible:
  "cd_decision (EvaluateCreatorOutcomeForCleanup m) = CE_eligible_authoritative \<longleftrightarrow> IsKnownFinalCreatorOutcome m"
  by (auto simp: EvaluateCreatorOutcomeForCleanup_def Let_def IsKnownFinalCreatorOutcome_def)

lemma WithHorizons_eligible:
  "cd_decision (EvaluateLocalCleanupWithHorizons m (Some h)) = CE_eligible_authoritative \<longleftrightarrow>
    is_ok (ValidateRowVersionMetadata m) \<and> IsKnownFinalCreatorOutcome m \<and>
    creator_id m < oldest_interesting_transaction h \<and> creator_id m < oldest_active_transaction h \<and>
    creator_id m < oldest_snapshot_transaction h"
  by (auto simp: EvaluateLocalCleanupWithHorizons_def EvaluateCreator_eligible EvaluateHold_eligible Let_def is_ok_iff
      split: sum.splits)

lemma WithRetention_eligible:
  "cd_decision (EvaluateLocalCleanupWithRetentionHolds m (Some h) holds retention) = CE_eligible_authoritative \<longleftrightarrow>
    cd_decision (EvaluateLocalCleanupWithHorizons m (Some h)) = CE_eligible_authoritative \<and>
    list_all (\<lambda>x. horizon_authoritative x \<and> creator_id m < horizon_transaction x) holds \<and>
    list_all (\<lambda>x. rh_authoritative x \<and> creator_id m < rh_horizon_transaction x) retention"
  by (auto simp: EvaluateLocalCleanupWithRetentionHolds_def EvaluateLocalCleanupWithAuthoritativeHolds_def Let_def
      first_refusal_eligible EvaluateHold_eligible EvaluateRetentionHorizon_eligible list_all_iff)

lemma Successor_eligible:
  "cd_decision (EvaluateSuccessorTransactionForCleanup m ivt horizon) = CE_eligible_authoritative \<longleftrightarrow>
    (version_state m = RV_committed \<and> has_next (chain m) \<longrightarrow>
      successor_transaction_local_id m \<noteq> 0 \<and> successor_transaction_local_id m < horizon \<and>
      (\<exists>e. FindInventoryEntry ivt (successor_transaction_local_id m) = Some e \<and> entry_state e = TS_committed))"
  by (auto simp: EvaluateSuccessorTransactionForCleanup_def Let_def local_id_valid_def kInvalidLocalTransactionId_def
      IsActiveCleanupBlockerState_def IsUnresolvedCleanupBlockerState_def not_le split: option.splits)

lemma eligible_status:
  "cd_decision (EvaluateSuccessorTransactionForCleanup m ivt horizon) = CE_eligible_authoritative \<Longrightarrow>
    status_ok (cd_status (EvaluateSuccessorTransactionForCleanup m ivt horizon))"
  by (auto simp: EvaluateSuccessorTransactionForCleanup_def Let_def split: option.splits if_splits)

text \<open>The versions a workset gives up.\<close>

definition reclaimable ::
  "cleanup_workset_request \<Rightarrow> local_transaction_horizons \<Rightarrow> u64 \<Rightarrow> row_version_metadata \<Rightarrow> bool" where
  "reclaimable rq h horizon m \<longleftrightarrow>
    is_ok (ValidateRowVersionMetadata m) \<and> IsKnownFinalCreatorOutcome m \<and> IsCleanupReclaimableByKind m rq \<and>
    creator_id m < oldest_interesting_transaction h \<and> creator_id m < oldest_active_transaction h \<and>
    creator_id m < oldest_snapshot_transaction h \<and>
    list_all (\<lambda>x. horizon_authoritative x \<and> creator_id m < horizon_transaction x) (wr_additional_holds rq) \<and>
    list_all (\<lambda>x. rh_authoritative x \<and> creator_id m < rh_horizon_transaction x) (wr_history_retention_horizons rq) \<and>
    (version_state m = RV_committed \<longrightarrow>
      successor_transaction_local_id m \<noteq> 0 \<and> successor_transaction_local_id m < horizon \<and>
      (\<exists>e. FindInventoryEntry (wr_inventory rq) (successor_transaction_local_id m) = Some e \<and>
           entry_state e = TS_committed))"

lemma version_retained_iff: "version_retained rq h horizon m \<longleftrightarrow> \<not> reclaimable rq h horizon m"
proof (cases "cd_decision (EvaluateLocalCleanupWithRetentionHolds m (Some h) (wr_additional_holds rq)
    (wr_history_retention_horizons rq)) = CE_eligible_authoritative")
  case True
  have "version_state m = RV_committed \<Longrightarrow> IsCleanupReclaimableByKind m rq \<Longrightarrow> has_next (chain m)"
    by (simp add: IsCleanupReclaimableByKind_def split: if_splits)
  with True eligible_status [of m "wr_inventory rq" horizon] show ?thesis
    by (auto simp: version_retained_def version_decision_def Let_def reclaimable_def WithRetention_eligible
        WithHorizons_eligible Successor_eligible)
next
  case False
  then show ?thesis
    by (simp add: version_retained_def version_decision_def Let_def reclaimable_def)
      (auto simp: WithRetention_eligible WithHorizons_eligible)
qed

section \<open>Lemmas: the workset\<close>

lemma refused_not_ok [simp]: "\<not> workset_ok (refused_workset st d)" "\<not> workset_ok (workset_error c k x)"
  by (simp_all add: workset_ok_def refused_workset_def workset_error_def)

lemma check_holds_None:
  "check_holds hs = None \<longleftrightarrow> list_all (\<lambda>h. horizon_authoritative h \<and> horizon_transaction h \<noteq> 0) hs"
  by (induction hs) (auto simp: local_id_valid_def kInvalidLocalTransactionId_def)

lemma check_retention_None:
  "check_retention hs = None \<longleftrightarrow> list_all (\<lambda>h. rh_authoritative h \<and> rh_horizon_transaction h \<noteq> 0) hs"
  by (induction hs) (auto simp: local_id_valid_def kInvalidLocalTransactionId_def)

lemma check_holds_not_ok: "check_holds hs = Some r \<Longrightarrow> \<not> workset_ok r"
  by (induction hs) (auto split: if_splits)

lemma check_retention_not_ok: "check_retention hs = Some r \<Longrightarrow> \<not> workset_ok r"
  by (induction hs) (auto split: if_splits)

lemma limit_exceeded_not_ok [simp]: "\<not> status_ok (ws_status (limit_exceeded c k l r))"
  by (simp add: limit_exceeded_def CleanupErrorStatus_def TransactionErrorStatus_def status_ok_def)

lemma retain_version_fields [simp]:
  "ws_retained_row_versions (retain_version rq d m r) =
    ws_retained_row_versions r @ (if wr_retain_row_versions_in_result rq then [m] else [])"
  "ws_retained_row_version_count (retain_version rq d m r) = ws_retained_row_version_count r + 1"
  "ws_reclaimed_row_version_count (retain_version rq d m r) = ws_reclaimed_row_version_count r"
  "ws_reclaim_evidence_records (retain_version rq d m r) = ws_reclaim_evidence_records r"
  "ws_horizons (retain_version rq d m r) = ws_horizons r"
  "ws_cleanup_horizon_authoritative (retain_version rq d m r) = ws_cleanup_horizon_authoritative r"
  "ws_authoritative_cleanup_horizon_local_transaction_id (retain_version rq d m r) =
    ws_authoritative_cleanup_horizon_local_transaction_id r"
  by (simp_all add: retain_version_def)

lemma workset_loop_ok:
  assumes "status_ok (ws_status (workset_loop rq h horizon ms r))"
  shows "ws_retained_row_versions (workset_loop rq h horizon ms r) =
      ws_retained_row_versions r @
      (if wr_retain_row_versions_in_result rq then filter (\<lambda>m. \<not> reclaimable rq h horizon m) ms else []) \<and>
    ws_retained_row_version_count (workset_loop rq h horizon ms r) =
      ws_retained_row_version_count r + of_nat (length (filter (\<lambda>m. \<not> reclaimable rq h horizon m) ms)) \<and>
    ws_reclaimed_row_version_count (workset_loop rq h horizon ms r) =
      ws_reclaimed_row_version_count r + of_nat (length (filter (reclaimable rq h horizon) ms)) \<and>
    ws_reclaim_evidence_records (workset_loop rq h horizon ms r) =
      ws_reclaim_evidence_records r @
      (if wr_emit_reclaim_evidence_records rq
       then map (\<lambda>m. MakeReclaimEvidenceRecord m horizon) (filter (reclaimable rq h horizon) ms) else [])"
  using assms
proof (induction rq h horizon ms r rule: workset_loop.induct)
  case (1 rq h horizon r)
  then show ?case by simp
next
  case (2 rq h horizon m ms r)
  show ?case
  proof (cases "reclaimable rq h horizon m")
    case True
    then show ?thesis
      using "2.prems" "2.IH"(2,3) by (auto simp: version_retained_iff Let_def split: if_splits)
  next
    case False
    then show ?thesis
      using "2.prems" "2.IH"(1) by (auto simp: version_retained_iff split: if_splits)
  qed
qed

lemma workset_loop_fields:
  "ws_horizons (workset_loop rq h horizon ms r) = ws_horizons r \<and>
   ws_cleanup_horizon_authoritative (workset_loop rq h horizon ms r) = ws_cleanup_horizon_authoritative r \<and>
   ws_authoritative_cleanup_horizon_local_transaction_id (workset_loop rq h horizon ms r) =
     ws_authoritative_cleanup_horizon_local_transaction_id r"
  by (induction rq h horizon ms r rule: workset_loop.induct) (auto simp: limit_exceeded_def Let_def)


lemma fold_min_le: "fold (\<lambda>h m. min m (f h)) hs (x :: 'a :: linorder) \<le> x"
  by (induction hs arbitrary: x) (auto intro: order_trans [OF _ min.cobounded1])

lemma effective_cleanup_horizon_le: "effective_cleanup_horizon rq x \<le> x"
  unfolding effective_cleanup_horizon_def by (rule order_trans [OF fold_min_le fold_min_le])

lemma effective_horizon_greater:
  "k < effective_cleanup_horizon rq i \<longleftrightarrow> k < i \<and> (\<forall>x \<in> set (wr_additional_holds rq). k < horizon_transaction x) \<and>
    (\<forall>x \<in> set (wr_history_retention_horizons rq). k < rh_horizon_transaction x)"
proof -
  have f: "k < fold (\<lambda>h m. min m (g h)) xs i \<longleftrightarrow> k < i \<and> (\<forall>x \<in> set xs. k < g x)" for g :: "'a \<Rightarrow> u64" and xs i
    by (induction xs arbitrary: i) auto
  show ?thesis by (auto simp: effective_cleanup_horizon_def f)
qed

lemma authoritative_result_fields [simp]:
  "ah_horizons (authoritative_result rq snapshots h) = h"
  "ah_cleanup_horizon (authoritative_result rq snapshots h) =
    min (min (oldest_interesting_transaction h) (oldest_active_transaction h)) (oldest_snapshot_transaction h)"
  by (simp_all add: authoritative_result_def Let_def)

text \<open>What a successful workset was computed from, and the whole of its answer.\<close>

lemma Apply_ok:
  fixes rq :: cleanup_workset_request
  assumes "workset_ok (ApplyLocalCleanupWithAuthoritativeInventory rq reg)"
  obtains published h where
    "valid_inventory (wr_inventory rq)"
    "PublishedSnapshotRetentionHorizons (wr_inventory rq) reg = Inr published"
    "ComputeLocalTransactionHorizonsWithSnapshots (wr_inventory rq)
       (wr_active_snapshot_horizons rq @ published) = Inr h"
    "ws_horizons (ApplyLocalCleanupWithAuthoritativeInventory rq reg) = Some h"
    "ws_authoritative_cleanup_horizon_local_transaction_id (ApplyLocalCleanupWithAuthoritativeInventory rq reg) =
       effective_cleanup_horizon rq (min (min (oldest_interesting_transaction h) (oldest_active_transaction h))
         (oldest_snapshot_transaction h))"
    "\<exists>r. ApplyLocalCleanupWithAuthoritativeInventory rq reg =
        workset_loop rq h (ws_authoritative_cleanup_horizon_local_transaction_id
          (ApplyLocalCleanupWithAuthoritativeInventory rq reg)) (wr_row_versions rq) r \<and>
      ws_retained_row_versions r = [] \<and> ws_retained_row_version_count r = 0 \<and>
      ws_reclaimed_row_version_count r = 0 \<and> ws_reclaim_evidence_records r = []"
proof -
  let ?w = "ApplyLocalCleanupWithAuthoritativeInventory rq reg"
  have g: "wr_inventory_authoritative rq" "check_holds (wr_additional_holds rq) = None"
    "check_retention (wr_history_retention_horizons rq) = None"
    using assms by (auto simp: ApplyLocalCleanupWithAuthoritativeInventory_def
        dest: check_holds_not_ok check_retention_not_ok split: if_splits option.splits)
  obtain a where a: "ComputeAuthoritativeCleanupHorizon (workset_horizon_request rq) reg = Inr a"
    using assms g by (cases "ComputeAuthoritativeCleanupHorizon (workset_horizon_request rq) reg")
      (auto simp: ApplyLocalCleanupWithAuthoritativeInventory_def)
  let ?hz = "effective_cleanup_horizon rq (ah_cleanup_horizon a)"
  let ?r = "(refused_workset TransactionOkStatus (ah_diagnostic a))
     \<lparr>ws_horizons := Some (ah_horizons a), ws_authoritative_cleanup_horizon_local_transaction_id := ?hz,
      ws_cleanup_horizon_authoritative := True, ws_diagnostic := None\<rparr>"
  have w: "?w = workset_loop rq (ah_horizons a) ?hz (wr_row_versions rq) ?r"
    using g a by (simp add: ApplyLocalCleanupWithAuthoritativeInventory_def Let_def)
  have f: "ws_horizons ?w = Some (ah_horizons a)" "ws_authoritative_cleanup_horizon_local_transaction_id ?w = ?hz"
    by (simp_all add: w workset_loop_fields)
  have r: "ws_retained_row_versions ?r = [] \<and> ws_retained_row_version_count ?r = 0 \<and>
      ws_reclaimed_row_version_count ?r = 0 \<and> ws_reclaim_evidence_records ?r = []"
    by (simp add: refused_workset_def)
  then have e: "\<exists>r. ?w = workset_loop rq (ah_horizons a) (ws_authoritative_cleanup_horizon_local_transaction_id ?w)
        (wr_row_versions rq) r \<and>
      ws_retained_row_versions r = [] \<and> ws_retained_row_version_count r = 0 \<and>
      ws_reclaimed_row_version_count r = 0 \<and> ws_reclaim_evidence_records r = []"
    using w unfolding f(2) by blast
  obtain published h where p: "valid_inventory (wr_inventory rq)"
    "PublishedSnapshotRetentionHorizons (wr_inventory rq) reg = Inr published"
    "ComputeLocalTransactionHorizonsWithSnapshots (wr_inventory rq)
       (wr_active_snapshot_horizons rq @ published) = Inr h"
    "a = authoritative_result (workset_horizon_request rq) (wr_active_snapshot_horizons rq @ published) h"
    using a by (auto simp: Compute_authoritative_Inr workset_horizon_request_def)
  have a': "ah_horizons a = h" "ah_cleanup_horizon a = min (min (oldest_interesting_transaction h)
      (oldest_active_transaction h)) (oldest_snapshot_transaction h)"
    by (simp_all add: p(4))
  show thesis
    by (rule that [OF p(1-3) f [unfolded a'] e [unfolded a'(1)]])
qed

lemma Apply_result:
  assumes "workset_ok (ApplyLocalCleanupWithAuthoritativeInventory rq reg)"
    and "ws_horizons (ApplyLocalCleanupWithAuthoritativeInventory rq reg) = Some h"
  defines "w \<equiv> ApplyLocalCleanupWithAuthoritativeInventory rq reg"
    and "lost \<equiv> reclaimable rq h (ws_authoritative_cleanup_horizon_local_transaction_id
          (ApplyLocalCleanupWithAuthoritativeInventory rq reg))"
  shows "ws_retained_row_versions w =
      (if wr_retain_row_versions_in_result rq then filter (\<lambda>m. \<not> lost m) (wr_row_versions rq) else [])"
    "ws_retained_row_version_count w = of_nat (length (filter (\<lambda>m. \<not> lost m) (wr_row_versions rq)))"
    "ws_reclaimed_row_version_count w = of_nat (length (filter lost (wr_row_versions rq)))"
    "ws_reclaim_evidence_records w =
      (if wr_emit_reclaim_evidence_records rq
       then map (\<lambda>m. MakeReclaimEvidenceRecord m (ws_authoritative_cleanup_horizon_local_transaction_id w))
         (filter lost (wr_row_versions rq)) else [])"
proof -
  obtain r where r: "ApplyLocalCleanupWithAuthoritativeInventory rq reg =
        workset_loop rq h (ws_authoritative_cleanup_horizon_local_transaction_id
          (ApplyLocalCleanupWithAuthoritativeInventory rq reg)) (wr_row_versions rq) r"
    and z: "ws_retained_row_versions r = []" "ws_retained_row_version_count r = 0"
      "ws_reclaimed_row_version_count r = 0" "ws_reclaim_evidence_records r = []"
    by (rule Apply_ok [OF assms(1)]) (use assms(2) in auto)
  have ok: "status_ok (ws_status (workset_loop rq h (ws_authoritative_cleanup_horizon_local_transaction_id
          (ApplyLocalCleanupWithAuthoritativeInventory rq reg)) (wr_row_versions rq) r))"
    using assms(1) r by (simp add: workset_ok_def)
  note l = workset_loop_ok [OF ok, folded r, unfolded z, folded w_def]
  show "ws_retained_row_versions w =
      (if wr_retain_row_versions_in_result rq then filter (\<lambda>m. \<not> lost m) (wr_row_versions rq) else [])"
    "ws_retained_row_version_count w = of_nat (length (filter (\<lambda>m. \<not> lost m) (wr_row_versions rq)))"
    "ws_reclaimed_row_version_count w = of_nat (length (filter lost (wr_row_versions rq)))"
    "ws_reclaim_evidence_records w =
      (if wr_emit_reclaim_evidence_records rq
       then map (\<lambda>m. MakeReclaimEvidenceRecord m (ws_authoritative_cleanup_horizon_local_transaction_id w))
         (filter lost (wr_row_versions rq)) else [])"
    using l by (simp_all add: lost_def w_def)
qed


lemma workset_loop_bounds:
  "(wr_retain_row_versions_in_result rq \<longrightarrow> wr_max_retained_row_versions rq \<noteq> 0 \<longrightarrow>
     length (ws_retained_row_versions r) \<le> unat (wr_max_retained_row_versions rq) \<longrightarrow>
     length (ws_retained_row_versions (workset_loop rq h horizon ms r)) \<le> unat (wr_max_retained_row_versions rq)) \<and>
   (length (ws_reclaim_evidence_records r) \<le> unat (wr_max_reclaim_evidence_records rq) \<longrightarrow>
     length (ws_reclaim_evidence_records (workset_loop rq h horizon ms r)) \<le> unat (wr_max_reclaim_evidence_records rq))"
proof (induction rq h horizon ms r rule: workset_loop.induct)
  case (1 rq h horizon r)
  then show ?case by simp
next
  case (2 rq h horizon m ms r)
  then show ?case
    by (cases "version_retained rq h horizon m") (auto simp: limit_exceeded_def Let_def)
qed

lemma Apply_bounds:
  assumes "workset_ok (ApplyLocalCleanupWithAuthoritativeInventory rq reg)"
  shows "wr_retain_row_versions_in_result rq \<Longrightarrow> wr_max_retained_row_versions rq \<noteq> 0 \<Longrightarrow>
      length (ws_retained_row_versions (ApplyLocalCleanupWithAuthoritativeInventory rq reg)) \<le>
        unat (wr_max_retained_row_versions rq)"
    "length (ws_reclaim_evidence_records (ApplyLocalCleanupWithAuthoritativeInventory rq reg)) \<le>
        unat (wr_max_reclaim_evidence_records rq)"
proof -
  obtain h k r where r: "ApplyLocalCleanupWithAuthoritativeInventory rq reg =
      workset_loop rq h k (wr_row_versions rq) r"
    and z: "ws_retained_row_versions r = []" "ws_reclaim_evidence_records r = []"
    by (rule Apply_ok [OF assms]) blast
  show "wr_retain_row_versions_in_result rq \<Longrightarrow> wr_max_retained_row_versions rq \<noteq> 0 \<Longrightarrow>
      length (ws_retained_row_versions (ApplyLocalCleanupWithAuthoritativeInventory rq reg)) \<le>
        unat (wr_max_retained_row_versions rq)"
    "length (ws_reclaim_evidence_records (ApplyLocalCleanupWithAuthoritativeInventory rq reg)) \<le>
        unat (wr_max_reclaim_evidence_records rq)"
    using workset_loop_bounds [of rq r h k "wr_row_versions rq"] unfolding r by (simp_all add: z)
qed

lemma Sweep_ok:
  assumes "sweep_ok (RunLocalGarbageCollectionSweep rq reg)"
  defines "ws \<equiv> (sw_workset rq)\<lparr>wr_max_retained_row_versions := sw_max_retained_row_versions rq,
    wr_retain_row_versions_in_result := sw_retain_row_versions_in_result rq\<rparr>"
  shows "sr_cleanup (RunLocalGarbageCollectionSweep rq reg) = Some (ApplyLocalCleanupWithAuthoritativeInventory ws reg)"
    "workset_ok (ApplyLocalCleanupWithAuthoritativeInventory ws reg)"
    "of_nat (length (wr_row_versions ws)) \<le> sw_max_candidate_row_versions rq"
    "sw_retain_row_versions_in_result rq \<longrightarrow> sw_max_retained_row_versions rq \<noteq> 0"
    "list_all (InventoryContainsCreator (wr_inventory ws)) (wr_row_versions ws)"
proof -
  have bad: "\<not> sweep_ok (CleanupSweepError f n c k d)" for f n c k d
    by (simp add: sweep_ok_def CleanupSweepError_def)
  note d = assms(1) [unfolded RunLocalGarbageCollectionSweep_def Let_def]
  have f: "find (\<lambda>m. \<not> InventoryContainsCreator (wr_inventory (sw_workset rq)) m) (wr_row_versions (sw_workset rq)) = None"
    using d by (auto simp: bad split: if_splits option.splits)
  have g: "sw_engine_mga_authoritative rq" "IsKnownSweepFamily (sw_family rq)" "sw_max_candidate_row_versions rq \<noteq> 0"
    "\<not> sw_max_candidate_row_versions rq < of_nat (length (wr_row_versions (sw_workset rq)))"
    "sw_retain_row_versions_in_result rq \<longrightarrow> sw_max_retained_row_versions rq \<noteq> 0"
    using d by (auto simp: bad split: if_splits)
  have run: "RunLocalGarbageCollectionSweep rq reg =
    (let cleanup = ApplyLocalCleanupWithAuthoritativeInventory ws reg in
     \<lparr>sr_status = ws_status cleanup, sr_cleanup = Some cleanup, sr_family = sw_family rq,
      sr_scanned_row_version_count = of_nat (length (wr_row_versions (sw_workset rq))),
      sr_bounded_memory_enforced = True, sr_diagnostic = ws_diagnostic cleanup\<rparr>)"
    using g f by (auto simp: RunLocalGarbageCollectionSweep_def Let_def ws_def)
  show "sr_cleanup (RunLocalGarbageCollectionSweep rq reg) = Some (ApplyLocalCleanupWithAuthoritativeInventory ws reg)"
    by (simp add: run Let_def)
  show "workset_ok (ApplyLocalCleanupWithAuthoritativeInventory ws reg)"
    using assms(1) by (simp add: run Let_def sweep_ok_def)
  show "of_nat (length (wr_row_versions ws)) \<le> sw_max_candidate_row_versions rq"
    "sw_retain_row_versions_in_result rq \<longrightarrow> sw_max_retained_row_versions rq \<noteq> 0"
    using g by (simp_all add: ws_def not_less)
  show "list_all (InventoryContainsCreator (wr_inventory ws)) (wr_row_versions ws)"
    using f by (auto simp: find_None_iff list_all_iff ws_def)
qed

section \<open>Properties\<close>

text \<open>
  C2. A sweep is bounded and accounts for every version. A sweep that succeeds scanned at most the
  permitted number of versions, each created by a transaction of the inventory; the lists it returns
  stay within their limits; and retained and reclaimed versions add up to the versions scanned,
  without any counter wrapping around.
\<close>

theorem sweep_is_bounded_and_exact:
  assumes "sweep_ok (RunLocalGarbageCollectionSweep rq reg)"
    and "length (wr_row_versions (sw_workset rq)) < 2 ^ 64"
  shows "\<exists>c. sr_cleanup (RunLocalGarbageCollectionSweep rq reg) = Some c \<and>
    length (wr_row_versions (sw_workset rq)) \<le> unat (sw_max_candidate_row_versions rq) \<and>
    list_all (InventoryContainsCreator (wr_inventory (sw_workset rq))) (wr_row_versions (sw_workset rq)) \<and>
    length (ws_retained_row_versions c) \<le> unat (sw_max_retained_row_versions rq) \<and>
    length (ws_reclaim_evidence_records c) \<le> unat (wr_max_reclaim_evidence_records (sw_workset rq)) \<and>
    unat (ws_retained_row_version_count c) + unat (ws_reclaimed_row_version_count c) =
      length (wr_row_versions (sw_workset rq)) \<and>
    (sw_retain_row_versions_in_result rq \<longrightarrow>
      length (ws_retained_row_versions c) = unat (ws_retained_row_version_count c)) \<and>
    (wr_emit_reclaim_evidence_records (sw_workset rq) \<longrightarrow>
      length (ws_reclaim_evidence_records c) = unat (ws_reclaimed_row_version_count c))"
proof -
  define ws where "ws = (sw_workset rq)\<lparr>wr_max_retained_row_versions := sw_max_retained_row_versions rq,
    wr_retain_row_versions_in_result := sw_retain_row_versions_in_result rq\<rparr>"
  let ?c = "ApplyLocalCleanupWithAuthoritativeInventory ws reg"
  let ?vs = "wr_row_versions (sw_workset rq)"
  have ws: "wr_row_versions ws = ?vs" "wr_max_retained_row_versions ws = sw_max_retained_row_versions rq"
    "wr_retain_row_versions_in_result ws = sw_retain_row_versions_in_result rq"
    "wr_inventory ws = wr_inventory (sw_workset rq)"
    "wr_emit_reclaim_evidence_records ws = wr_emit_reclaim_evidence_records (sw_workset rq)"
    "wr_max_reclaim_evidence_records ws = wr_max_reclaim_evidence_records (sw_workset rq)"
    by (simp_all add: ws_def)
  note s = Sweep_ok [OF assms(1), folded ws_def, unfolded ws]
  obtain h where h: "ws_horizons ?c = Some h" by (rule Apply_ok [OF s(2)])
  let ?lost = "reclaimable ws h (ws_authoritative_cleanup_horizon_local_transaction_id ?c)"
  have small: "length (filter P ?vs) < 2 ^ 64" for P
    using le_less_trans [OF length_filter_le assms(2)] .
  have sum: "length (filter (\<lambda>m. \<not> ?lost m) ?vs) + length (filter ?lost ?vs) = length ?vs"
    using sum_length_filter_compl [of ?lost ?vs] by simp
  note a = Apply_result [OF s(2) h, unfolded ws]
  have n: "unat (ws_retained_row_version_count ?c) = length (filter (\<lambda>m. \<not> ?lost m) ?vs)"
    "unat (ws_reclaimed_row_version_count ?c) = length (filter ?lost ?vs)"
    using small by (simp_all add: a(2,3) u64_of_nat)
  have b: "length (ws_retained_row_versions ?c) \<le> unat (sw_max_retained_row_versions rq)"
    using Apply_bounds(1) [OF s(2), unfolded ws] s(4) a(1) by (cases "sw_retain_row_versions_in_result rq") simp_all
  have b': "length (ws_reclaim_evidence_records ?c) \<le> unat (wr_max_reclaim_evidence_records (sw_workset rq))"
    using Apply_bounds(2) [OF s(2), unfolded ws] .
  have c: "length ?vs \<le> unat (sw_max_candidate_row_versions rq)"
    using s(3) assms(2) by (simp add: word_le_nat_alt u64_of_nat)
  show ?thesis
    by (rule exI [of _ ?c]) (use s(1,5) b b' c n sum a(1,4) in simp)
qed


text \<open>
  Two committed transactions, the second of which replaced a version of the first, and an active
  stable reader.
\<close>

definition sample_gc_inventory :: local_transaction_inventory where
  "sample_gc_inventory = sample_inventory\<lparr>next_commit_sequence := 3,
     entries := [sample_entry 1 1 TS_committed 0 1, sample_entry 2 2 TS_committed 0 2,
                 (sample_entry 3 3 TS_active 2 0)\<lparr>stable_snapshot := True\<rparr>]\<rparr>"

definition sample_old_version :: row_version_metadata where
  "sample_old_version = (sample_version 1 1 50 7 RV_committed TS_committed 1)
     \<lparr>successor_transaction_local_id := 2,
      chain := \<lparr>previous_version_uuid = default_typed_uuid, next_version_uuid = sample_transaction 51,
                previous_version_sequence = 0, next_version_sequence = 8\<rparr>\<rparr>"

definition sample_workset :: cleanup_workset_request where
  "sample_workset =
    \<lparr>wr_inventory = sample_gc_inventory, wr_inventory_authoritative = True, wr_inventory_complete = True,
     wr_active_snapshot_horizons = [], wr_active_snapshot_inventory_authoritative = True,
     wr_always_in_transaction_policy = False, wr_always_active_session_inventory_authoritative = False,
     wr_always_active_sessions = [], wr_additional_holds = [], wr_history_retention_horizons = [],
     wr_row_versions = [sample_old_version, sample_version 2 2 51 8 RV_committed TS_committed 2],
     wr_max_retained_row_versions = 4, wr_retain_row_versions_in_result = True,
     wr_emit_reclaim_evidence_records = True, wr_max_reclaim_evidence_records = 4,
     wr_reclaim_rolled_back_versions = True, wr_reclaim_delete_markers = True,
     wr_reclaim_obsolete_committed_versions = True\<rparr>"

definition sample_sweep :: garbage_collection_sweep_request where
  "sample_sweep =
    \<lparr>sw_workset = sample_workset, sw_family = SF_cooperative, sw_engine_mga_authoritative = True,
     sw_max_candidate_row_versions = 8, sw_max_retained_row_versions = 4, sw_retain_row_versions_in_result = True\<rparr>"

theorem sweep_is_bounded_and_exact_witness:
  "\<exists>c. sr_cleanup (RunLocalGarbageCollectionSweep sample_sweep []) = Some c \<and>
     ws_reclaimed_row_version_count c = 1 \<and>
     unat (ws_retained_row_version_count c) + unat (ws_reclaimed_row_version_count c) = 2"
proof -
  have ok: "sweep_ok (RunLocalGarbageCollectionSweep sample_sweep [])"
    "map_option ws_reclaimed_row_version_count (sr_cleanup (RunLocalGarbageCollectionSweep sample_sweep [])) = Some 1"
    by code_simp+
  have n: "length (wr_row_versions (sw_workset sample_sweep)) = 2"
    by (simp add: sample_sweep_def sample_workset_def)
  show ?thesis using sweep_is_bounded_and_exact [OF ok(1)] ok(2) unfolding n by auto
qed

end
