(* ===== verification/ReaderSafety.thy ===== *)
theory ReaderSafety
  imports TransactionCleanup
begin

text \<open>
  Readers against cleanup. The inventory and the registry of published snapshots change together: an
  operation on the inventory, or one on the registry, in any order, with every publication taken from
  the current inventory. The lemmas show that what a published snapshot needs stays protected along
  every such run, and that cleanup gives up no version a reader could still need.
\<close>

section \<open>Runs of the inventory and the registry\<close>

type_synonym store_state = "local_transaction_inventory \<times> registry_state"

inductive store_step :: "store_state \<Rightarrow> store_state \<Rightarrow> bool" where
  store_inventory: "inventory_step ivt ivt' \<Longrightarrow> store_step (ivt, rs) (ivt', rs)"
| store_publish: "PublishStatementStableSnapshotVector rng ivt owning millis reg = (r, reg') \<Longrightarrow>
    store_step (ivt, reg, L) (ivt, reg', L)"
| store_retain: "RetainPublishedSnapshotVector t reg = (Some k, reg') \<Longrightarrow>
    store_step (ivt, reg, L) (ivt, reg', add_mset k L)"
| store_drop: "k \<in># L \<Longrightarrow> store_step (ivt, reg, L) (ivt, ReleaseLease k reg, L - {#k#})"
| store_release: "store_step (ivt, reg, L) (ivt, ReleasePublishedSnapshotVector t reg, L)"
| store_revoke: "store_step (ivt, reg, L) (ivt, RevokePublishedSnapshotVector t reg, L)"
| store_revoke_for: "store_step (ivt, reg, L) (ivt, RevokePublishedSnapshotVectorsForTransaction t owning reg, L)"

text \<open>
  What a descriptor relies on: below its retention boundary every transaction is resolved, and each
  one that committed is admitted by the descriptor's watermark and exclusion lists.
\<close>

definition admits :: "snapshot_vector_descriptor \<Rightarrow> u64 \<Rightarrow> bool" where
  "admits d = lists_admit (sv_visible_committed_high_watermark d) (sv_active_excluded d) (sv_in_doubt_excluded d)"

definition settled_below :: "snapshot_vector_descriptor \<Rightarrow> u64 \<Rightarrow> transaction_inventory_entry \<Rightarrow> bool" where
  "settled_below d b e \<longleftrightarrow> entry_id e < b \<longrightarrow> \<not> unresolved e \<and> (HasCommittedInventoryOutcome e \<longrightarrow> admits d (entry_id e))"

definition protected_by :: "local_transaction_inventory \<Rightarrow> snapshot_vector_descriptor \<Rightarrow> bool" where
  "protected_by ivt d \<longleftrightarrow> SnapshotRetentionBoundary d \<le> next_local_transaction_id ivt \<and>
    list_all (settled_below d (SnapshotRetentionBoundary d)) (entries ivt)"

definition store_ok :: "store_state \<Rightarrow> bool" where
  "store_ok s \<longleftrightarrow> valid_inventory (fst s) \<and> registry_ok (snd s) \<and>
    (\<forall>k p. registry_find (fst (snd s)) k = Some p \<longrightarrow> protected_by (fst s) (pub_descriptor p))"

section \<open>Lemmas: protection\<close>

lemma published_protected:
  assumes "PublishStatementStableSnapshotVector rng ivt owning millis reg = (Inr d, reg')"
  shows "protected_by ivt d"
proof -
  obtain owner snap vis h t where v: "valid_inventory ivt" and f: "FindEntry ivt owning = Some owner"
    and c: "CreateLocalTransactionSnapshot ivt owning = Inr (snap, vis)"
    and h: "ComputeLocalTransactionHorizons ivt = Inr h"
    and d: "d = (statement_descriptor ivt owner owning (snap, vis) h)
      \<lparr>sv_snapshot_uuid := t, sv_inventory_authoritative := True, sv_complete := True\<rparr>"
    using assms by (rule Publish_Inr) auto
  let ?b = "SnapshotRetentionBoundary d" and ?cut = "CommitBoundary ivt owner"
  have oit: "sv_oldest_interesting_transaction d = oit_of ivt"
    using h Project_Inr by (auto simp: d statement_descriptor_def Let_def ComputeLocalTransactionHorizons_def Calculate_Inr)
  then have b: "?b \<le> oit_of ivt" using retention_le(1) [of d] by simp
  obtain vis_eq: "snap_visible_through_local_transaction snap = VisibleHighWatermark ivt ?cut"
    "active_excluded_local_transaction_ids vis = sort (map entry_id (filter (ActiveExclusion ?cut) (entries ivt)))"
    "in_doubt_excluded_local_transaction_ids vis = sort (map entry_id (filter (InDoubtExclusion ?cut) (entries ivt)))"
    using f by (auto intro: Create_Inr [OF c])
  have lists: "admits d = cut_lists_admit ivt ?cut"
    "sv_active_excluded d = sort (map entry_id (filter (ActiveExclusion ?cut) (entries ivt)))"
    by (simp_all add: admits_def d statement_descriptor_def Let_def cut_lists_admit_def vis_eq)
  have "settled_below d ?b e" if e: "e \<in> set (entries ivt)" for e
  proof (unfold settled_below_def, intro impI conjI)
    assume less: "entry_id e < ?b"
    with b have "entry_id e < oit_of ivt" by simp
    then show "\<not> unresolved e" by (rule below_oit_resolved [OF v e])
    assume com: "HasCommittedInventoryOutcome e"
    have "entry_id e \<notin> set (sv_active_excluded d)" using retention_le(3) [of "entry_id e" d] less by auto
    then have "\<not> ActiveExclusion ?cut e" using e by (auto simp: lists(2))
    then have "commit_sequence e \<le> ?cut" using com by (auto simp: ActiveExclusion_def)
    then show "admits d (entry_id e)" unfolding lists(1) by (rule committed_not_excluded [OF v e com])
  qed
  then show ?thesis using b oit_le_next [of ivt] by (auto simp: protected_by_def list_all_iff intro: order_trans)
qed


lemma settled_history: "keeps_history old e \<Longrightarrow> settled_below d b old \<Longrightarrow> settled_below d b e"
  by (auto simp: keeps_history_def settled_below_def unresolved_def IsTerminalTransactionState_def
      HasCommittedInventoryOutcome_def)

lemma protected_step:
  assumes st: "inventory_step ivt ivt'" and v: "valid_inventory ivt" and p: "protected_by ivt d"
  shows "protected_by ivt' d"
proof -
  have le: "SnapshotRetentionBoundary d \<le> next_local_transaction_id ivt" using p by (simp add: protected_by_def)
  have "settled_below d (SnapshotRetentionBoundary d) e" if e: "e \<in> set (entries ivt')" for e
    using step_history [OF st v e]
  proof
    assume "\<exists>old \<in> set (entries ivt). keeps_history old e"
    then show ?thesis using p by (auto simp: protected_by_def list_all_iff intro: settled_history)
  next
    assume "next_local_transaction_id ivt \<le> entry_id e"
    with le have "\<not> entry_id e < SnapshotRetentionBoundary d" by simp
    then show ?thesis by (simp add: settled_below_def)
  qed
  with le step_next_mono [OF st v] show ?thesis by (auto simp: protected_by_def list_all_iff intro: order_trans)
qed

text \<open>Apart from a publication, no operation of the registry brings in a descriptor.\<close>

lemma registry_keeps_descriptors:
  "registry_find (ReleaseLease k reg) k' = Some p \<Longrightarrow>
    \<exists>q. registry_find reg k' = Some q \<and> pub_descriptor q = pub_descriptor p"
  "registry_find (ReleasePublishedSnapshotVector t reg) k' = Some p \<Longrightarrow>
    \<exists>q. registry_find reg k' = Some q \<and> pub_descriptor q = pub_descriptor p"
  "registry_find (RevokePublishedSnapshotVector t reg) k' = Some p \<Longrightarrow>
    \<exists>q. registry_find reg k' = Some q \<and> pub_descriptor q = pub_descriptor p"
  "registry_find (RevokePublishedSnapshotVectorsForTransaction t owning reg) k' = Some p \<Longrightarrow>
    \<exists>q. registry_find reg k' = Some q \<and> pub_descriptor q = pub_descriptor p"
  by (auto simp: ReleaseLease_def ReleasePublishedSnapshotVector_def RevokePublishedSnapshotVector_def
      RevokePublishedSnapshotVectorsForTransaction_def registry_find_map Let_def
      split: if_splits option.splits)

lemma retain_keeps_descriptors:
  "RetainPublishedSnapshotVector t reg = (Some k, reg') \<Longrightarrow> registry_find reg' k' = Some p \<Longrightarrow>
    \<exists>q. registry_find reg k' = Some q \<and> pub_descriptor q = pub_descriptor p"
  by (auto simp: RetainPublishedSnapshotVector_def split: if_splits option.splits)

lemma publish_descriptors:
  assumes "PublishStatementStableSnapshotVector rng ivt owning millis reg = (r, reg')" "registry_find reg' k = Some p"
  shows "protected_by ivt (pub_descriptor p) \<or> registry_find reg k = Some p"
  using Publish_changes [OF assms(1)] assms published_protected
  by (auto simp: registry_find_emplace split: if_splits)

lemma store_step_ok: "store_step s s' \<Longrightarrow> store_ok s \<Longrightarrow> store_ok s'"
proof (induction rule: store_step.induct)
  case (store_inventory ivt ivt' rs)
  then show ?case using step_valid [of ivt ivt'] protected_step [of ivt ivt'] by (auto simp: store_ok_def)
next
  case (store_publish rng ivt owning millis reg r reg' L)
  then show ?case
    using publish_ok [of reg L] publish_descriptors [OF store_publish(1)] by (fastforce simp: store_ok_def)
next
  case (store_retain t reg k reg' ivt L)
  then show ?case
    using retain_ok [of reg L] retain_keeps_descriptors [OF store_retain(1)] by (fastforce simp: store_ok_def)
next
  case (store_drop k L ivt reg)
  then show ?case
    using drop_ok [of reg L k] registry_keeps_descriptors(1) [of k reg] by (fastforce simp: store_ok_def)
next
  case (store_release ivt reg L t)
  then show ?case
    using release_ok [of reg L t] registry_keeps_descriptors(2) [of t reg] by (fastforce simp: store_ok_def)
next
  case (store_revoke ivt reg L t)
  then show ?case
    using revoke_ok [of reg L t] registry_keeps_descriptors(3) [of t reg] by (fastforce simp: store_ok_def)
next
  case (store_revoke_for ivt reg L t owning)
  then show ?case
    using revoke_for_ok [of reg L t owning] registry_keeps_descriptors(4) [of t owning reg]
    by (fastforce simp: store_ok_def)
qed

interpretation store_run: invariant_system store_step store_ok
  by unfold_locales (rule store_step_ok)

lemma initial_store_ok: "valid_inventory ivt \<Longrightarrow> store_ok (ivt, [], {#})"
  by (simp add: store_ok_def registry_ok_def registry_find_def)


section \<open>Lemmas: cleanup against readers\<close>

text \<open>The snapshot horizon of a cleanup lies at or below the boundary of every live published snapshot.\<close>

lemma horizon_below_published:
  assumes ok: "registry_ok (reg, L)" and hs: "PublishedSnapshotRetentionHorizons ivt reg = Inr published"
    and h: "ComputeLocalTransactionHorizonsWithSnapshots ivt (snaps @ published) = Inr h"
    and p: "registry_find reg k = Some p" "\<not> pub_revoked p"
    and owner: "LookupLocalTransaction ivt (sv_owning_transaction (pub_descriptor p)) = Inr owner"
      "entry_uuid owner = uuid_value (sv_owning_transaction_uuid (pub_descriptor p))"
  shows "oldest_snapshot_transaction h \<le> SnapshotRetentionBoundary (pub_descriptor p)"
proof -
  let ?d = "pub_descriptor p"
  have "SnapshotVectorStructurallyComplete ?d" using ok p(1) by (auto simp: registry_ok_def vector_ok_def)
  then have ret: "sv_retention_horizon_transaction ?d = SnapshotRetentionBoundary ?d"
    by (auto simp: SnapshotVectorStructurallyComplete_def Let_def)
  have v: "valid_inventory ivt" and r: "retention_horizons ivt reg [] = Some published"
    using hs by (auto simp: PublishedSnapshotRetentionHorizons_def structure_valid_iff split: if_splits option.splits)
  have o: "owner \<in> set (entries ivt)" "entry_id owner = sv_owning_transaction ?d"
    using owner(1) FindEntry_Some by (auto simp: Lookup_Inr)
  have kind: "uuid_kind (transaction_uuid (identity owner)) = UK_transaction"
    using valid_entry [OF v o(1)] by (simp add: entry_ok_def transaction_identity_valid_def)
  have mem: "(k, p) \<in> set reg" using p(1) by (simp add: registry_find_def map_of_SomeD)
  have "SnapshotRetentionBoundary ?d \<in> set published"
    using retention_horizons_mem [OF r mem p(2) o kind owner(2)] by (simp add: ret)
  then show ?thesis using ost_le_snapshots [OF h] by simp
qed

text \<open>A committed transaction below the snapshot horizon is admitted by every live published snapshot.\<close>

lemma below_horizon_published:
  assumes ok: "store_ok (ivt, reg, L)" and hs: "PublishedSnapshotRetentionHorizons ivt reg = Inr published"
    and h: "ComputeLocalTransactionHorizonsWithSnapshots ivt (snaps @ published) = Inr h"
    and s: "s \<in> set (entries ivt)" "HasCommittedInventoryOutcome s" "entry_id s < oldest_snapshot_transaction h"
    and p: "registry_find reg k = Some p" "\<not> pub_revoked p"
      "LookupLocalTransaction ivt (sv_owning_transaction (pub_descriptor p)) = Inr owner"
      "entry_uuid owner = uuid_value (sv_owning_transaction_uuid (pub_descriptor p))"
  shows "admits (pub_descriptor p) (entry_id s)"
proof -
  have r: "registry_ok (reg, L)" and q: "protected_by ivt (pub_descriptor p)"
    using ok p(1) by (auto simp: store_ok_def)
  have "entry_id s < SnapshotRetentionBoundary (pub_descriptor p)"
    using less_le_trans [OF s(3) horizon_below_published [OF r hs h p]] .
  then show ?thesis using q s(1,2) by (auto simp: protected_by_def list_all_iff settled_below_def)
qed

text \<open>A committed transaction below the snapshot horizon is seen by every snapshot an active transaction takes.\<close>

lemma below_horizon_seen:
  assumes h: "ComputeLocalTransactionHorizonsWithSnapshots ivt snaps = Inr h"
    and s: "s \<in> set (entries ivt)" "HasCommittedInventoryOutcome s" "entry_id s < oldest_snapshot_transaction h"
    and c: "CreateLocalTransactionSnapshot ivt reader = Inr (snap, vis)"
    and r: "FindEntry ivt reader = Some r" "entry_state r = TS_active \<or> entry_state r = TS_read_only_active"
  shows "snapshot_admits vis (entry_id s) (commit_sequence s)"
proof -
  have v: "valid_inventory ivt" by (rule Create_Inr [OF c])
  have b: "snap_visible_through_commit_sequence snap = CommitBoundary ivt r"
    by (rule Create_Inr [OF c]) (use r(1) in simp)
  have mem: "r \<in> set (entries ivt)" using FindEntry_Some [OF r(1)] by simp
  have "commit_sequence s \<le> CommitBoundary ivt r"
  proof (cases "stable_snapshot r")
    case True
    from snapshot_horizon_protects_stable_readers [OF h mem True r(2) s(1,3)] s(2) True show ?thesis
      by (auto simp: CommitBoundary_def HasCommittedInventoryOutcome_def)
  next
    case False
    then show ?thesis using valid_entry [OF v s(1)] s(2) valid_next_cs [OF v]
      by (simp add: CommitBoundary_def entry_ok_def u64_le_dec_iff)
  qed
  then show ?thesis
    unfolding snapshot_admits_cut [OF c] b
    using committed_not_excluded [OF v s(1,2)] committed_cs_pos [OF v s(1,2)] by blast
qed

text \<open>
  A stable reader keeps the boundary of its begin, so what its snapshots see is the same at every moment of
  its life: a committed transaction below the snapshot horizon is seen by the ones it took earlier, too.
\<close>

lemma below_horizon_seen_earlier:
  assumes h: "ComputeLocalTransactionHorizonsWithSnapshots ivt snaps = Inr h"
    and s: "s \<in> set (entries ivt)" "HasCommittedInventoryOutcome s" "entry_id s < oldest_snapshot_transaction h"
    and c: "CreateLocalTransactionSnapshot ivt1 reader = Inr (snap, vis)" and run: "inventory_step\<^sup>*\<^sup>* ivt1 ivt"
    and r: "FindEntry ivt reader = Some r" "entry_state r = TS_active \<or> entry_state r = TS_read_only_active"
      "stable_snapshot r"
  shows "snapshot_admits vis (entry_id s) (commit_sequence s)"
proof -
  obtain e where v: "valid_inventory ivt1" and e: "FindEntry ivt1 reader = Some e"
    and b: "snap_visible_through_commit_sequence snap = CommitBoundary ivt1 e"
    by (rule Create_Inr [OF c])
  note m = FindEntry_Some [OF r(1)] FindEntry_Some [OF e]
  have "keeps_history e r" by (rule run_tracks [OF run v]) (use m in auto)
  then have cut: "CommitBoundary ivt1 e = begin_visible_through_commit_sequence r"
    "begin_visible_through_commit_sequence r = begin_visible_through_commit_sequence e"
    using r(3) by (auto simp: CommitBoundary_def keeps_history_def begin_changed_def)
  have le: "commit_sequence s \<le> begin_visible_through_commit_sequence r"
    using snapshot_horizon_protects_stable_readers [OF h _ r(3,2) s(1,3)] m s(2)
    by (auto simp: HasCommittedInventoryOutcome_def)
  also have "\<dots> < next_commit_sequence ivt1" using valid_entry [OF v, of e] m cut(2) by (simp add: entry_ok_def)
  finally obtain s1 where s1: "s1 \<in> set (entries ivt1)" "entry_id s1 = entry_id s" "HasCommittedInventoryOutcome s1"
    "commit_sequence s1 = commit_sequence s"
    using commit_order.run_since [OF run v] s(1,2) by (auto simp: commits_since_def)
  then show ?thesis
    unfolding snapshot_admits_cut [OF c] b cut(1)
    using le committed_not_excluded [OF v s1(1,3)] committed_cs_pos [OF v s1(1,3)] by simp
qed

section \<open>Lemmas: versions nothing holds\<close>

text \<open>No open transaction, active stable reader, snapshot, hold or retention rule keeps the versions up to a number.\<close>

definition nothing_else_holds :: "cleanup_workset_request \<Rightarrow> snapshot_registry \<Rightarrow> u64 \<Rightarrow> bool" where
  "nothing_else_holds rq reg i \<longleftrightarrow>
    list_all (\<lambda>e. (unresolved e \<longrightarrow> i < entry_id e) \<and> (stable_snapshot e \<longrightarrow> \<not> IsActiveForOat (entry_state e)))
      (entries (wr_inventory rq)) \<and>
    (case PublishedSnapshotRetentionHorizons (wr_inventory rq) reg of
       Inr published \<Rightarrow> list_all (\<lambda>x. i < x) (wr_active_snapshot_horizons rq @ published)
     | Inl _ \<Rightarrow> False) \<and>
    list_all (\<lambda>x. horizon_authoritative x \<and> i < horizon_transaction x) (wr_additional_holds rq) \<and>
    list_all (\<lambda>x. rh_authoritative x \<and> i < rh_horizon_transaction x) (wr_history_retention_horizons rq)"

lemma unheld_version_is_given_up:
  assumes ok: "workset_ok (ApplyLocalCleanupWithAuthoritativeInventory rq reg)"
    and m: "is_ok (ValidateRowVersionMetadata m)" "version_state m = RV_committed" "IsKnownFinalCreatorOutcome m"
      "IsCleanupReclaimableByKind m rq" "creator_id m \<le> successor_transaction_local_id m"
    and s: "FindInventoryEntry (wr_inventory rq) (successor_transaction_local_id m) = Some s" "entry_state s = TS_committed"
    and free: "nothing_else_holds rq reg (successor_transaction_local_id m)"
  shows "m \<notin> set (ws_retained_row_versions (ApplyLocalCleanupWithAuthoritativeInventory rq reg))"
proof -
  let ?i = "successor_transaction_local_id m"
  obtain published h where v: "valid_inventory (wr_inventory rq)"
    and p: "PublishedSnapshotRetentionHorizons (wr_inventory rq) reg = Inr published"
    and h: "ComputeLocalTransactionHorizonsWithSnapshots (wr_inventory rq)
       (wr_active_snapshot_horizons rq @ published) = Inr h"
    and w: "ws_horizons (ApplyLocalCleanupWithAuthoritativeInventory rq reg) = Some h"
    and k: "ws_authoritative_cleanup_horizon_local_transaction_id (ApplyLocalCleanupWithAuthoritativeInventory rq reg) =
       effective_cleanup_horizon rq (min (min (oldest_interesting_transaction h) (oldest_active_transaction h))
         (oldest_snapshot_transaction h))"
    by (rule Apply_ok [OF ok])
  have mem: "s \<in> set (entries (wr_inventory rq))" "entry_id s = ?i"
    using s(1) by (auto simp: FindInventoryEntry_def find_Some_iff)
  have above: "?i < oldest_interesting_transaction h \<and> ?i < oldest_active_transaction h \<and> ?i < oldest_snapshot_transaction h"
    using free valid_id_less [OF v mem(1)] mem(2)
    by (intro below_open_below_horizons [OF h]) (auto simp: nothing_else_holds_def p list_all_iff)
  have "?i \<noteq> 0" using entry_id_pos [OF v mem(1)] mem(2) by simp
  then have "reclaimable rq h (ws_authoritative_cleanup_horizon_local_transaction_id
      (ApplyLocalCleanupWithAuthoritativeInventory rq reg)) m"
    using m s above free order.strict_trans1 [OF m(5)]
    by (auto simp: reclaimable_def k effective_horizon_greater nothing_else_holds_def list_all_iff)
  then show ?thesis using Apply_result(1) [OF ok w] by simp
qed

end
