(* ===== verification/Isolation.thy ===== *)
theory Isolation
  imports TransactionSnapshot "HOL-Library.List_Lexorder" "HOL-Library.Char_ord"
begin

text \<open>
  Isolation levels and the serializable conflict tracker: \<^verbatim>\<open>transaction/mga/isolation.{hpp,cpp}\<close>. Keys
  are compared as \<^verbatim>\<open>std::string\<close> does, by unsigned bytes from the left. The tracker is the vector of
  admitted accesses in recording order.
\<close>

section \<open>Data\<close>

datatype isolation_level =
    IL_read_committed | IL_repeatable_read | IL_serializable | IL_reference_compatibility | IL_unknown

datatype serializable_access_kind =
    SA_point_read | SA_range_read | SA_predicate_read | SA_insert | SA_update | SA_delete_row | SA_unknown

datatype serializable_conflict_kind =
    SK_none | SK_phantom_insert | SK_read_write | SK_write_write | SK_external_authority_refused
  | SK_inventory_authority_required | SK_invalid_request | SK_unknown

datatype serializable_retry_class =
    SR_none | SR_serialization_retry | SR_wait_for_transaction | SR_recovery_required | SR_invalid_request

record serializable_key_range =
  relation_uuid :: typed_uuid
  lower_bound :: string
  upper_bound :: string
  lower_unbounded :: bool
  upper_unbounded :: bool
  lower_inclusive :: bool
  upper_inclusive :: bool
  full_relation :: bool
  predicate_digest :: string

record serializable_access_record =
  access_local_id :: local_transaction_id
  access_transaction_state :: transaction_state
  access_kind :: serializable_access_kind
  access_range :: serializable_key_range
  access_sequence :: u64
  access_durable_inventory_authoritative :: bool
  access_parser_or_reference_authority :: bool

record serializable_conflict_result =
  conflict_status :: status
  conflict_kind :: serializable_conflict_kind
  conflict_retry_class :: serializable_retry_class
  admitted :: bool
  conflict_diagnostic :: "diagnostic_record option"
  conflict_evidence :: "string list"

definition conflict_ok :: "serializable_conflict_result \<Rightarrow> bool" where
  "conflict_ok r \<longleftrightarrow> status_ok (conflict_status r) \<and> admitted r"

section \<open>Names\<close>

fun IsolationLevelName :: "isolation_level \<Rightarrow> string" where
  "IsolationLevelName IL_read_committed = ''read_committed''"
| "IsolationLevelName IL_repeatable_read = ''repeatable_read''"
| "IsolationLevelName IL_serializable = ''serializable''"
| "IsolationLevelName IL_reference_compatibility = ''reference_compatibility''"
| "IsolationLevelName IL_unknown = ''unknown''"

fun SerializableAccessKindName :: "serializable_access_kind \<Rightarrow> string" where
  "SerializableAccessKindName SA_point_read = ''point_read''"
| "SerializableAccessKindName SA_range_read = ''range_read''"
| "SerializableAccessKindName SA_predicate_read = ''predicate_read''"
| "SerializableAccessKindName SA_insert = ''insert''"
| "SerializableAccessKindName SA_update = ''update''"
| "SerializableAccessKindName SA_delete_row = ''delete_row''"
| "SerializableAccessKindName SA_unknown = ''unknown''"

fun SerializableConflictKindName :: "serializable_conflict_kind \<Rightarrow> string" where
  "SerializableConflictKindName SK_none = ''none''"
| "SerializableConflictKindName SK_phantom_insert = ''phantom_insert''"
| "SerializableConflictKindName SK_read_write = ''read_write''"
| "SerializableConflictKindName SK_write_write = ''write_write''"
| "SerializableConflictKindName SK_external_authority_refused = ''external_authority_refused''"
| "SerializableConflictKindName SK_inventory_authority_required = ''inventory_authority_required''"
| "SerializableConflictKindName SK_invalid_request = ''invalid_request''"
| "SerializableConflictKindName SK_unknown = ''unknown''"

fun SerializableRetryClassName :: "serializable_retry_class \<Rightarrow> string" where
  "SerializableRetryClassName SR_none = ''none''"
| "SerializableRetryClassName SR_serialization_retry = ''serialization_retry''"
| "SerializableRetryClassName SR_wait_for_transaction = ''wait_for_transaction''"
| "SerializableRetryClassName SR_recovery_required = ''recovery_required''"
| "SerializableRetryClassName SR_invalid_request = ''invalid_request''"

section \<open>Isolation levels\<close>

definition ValidateLocalIsolationLevel :: "isolation_level \<Rightarrow> isolation_level result" where
  "ValidateLocalIsolationLevel level =
    (if level = IL_read_committed \<or> level = IL_repeatable_read \<or> level = IL_serializable then Inr level
     else Inl (MakeTransactionSnapshotDiagnostic TransactionErrorStatus ''SB-SNTXN-ISOLATION-UNSUPPORTED''
                 ''transaction.isolation.unsupported'' (IsolationLevelName level)))"

text \<open>The exclusion lists of a default constructed \<^verbatim>\<open>VisibilitySnapshot\<close> are empty.\<close>

definition SnapshotPolicyForIsolation :: "isolation_level \<Rightarrow> local_transaction_snapshot \<Rightarrow> visibility_snapshot" where
  "SnapshotPolicyForIsolation level s =
    \<lparr>reader_transaction = snap_reader_transaction s,
     visible_through_local_transaction_id =
       (if level = IL_read_committed then snap_visible_through_local_transaction s
        else snap_transaction_start_visible_through_local_transaction s),
     visible_through_local_transaction_id_is_boundary = True,
     allow_reader_own_uncommitted = True, recovery_context = False,
     active_excluded_local_transaction_ids = [], in_doubt_excluded_local_transaction_ids = [],
     visible_through_commit_sequence =
       (if level = IL_read_committed then snap_visible_through_commit_sequence s
        else snap_transaction_start_visible_through_commit_sequence s),
     visible_through_commit_sequence_is_boundary = True\<rparr>"

section \<open>Key ranges\<close>

text \<open>The default member initialisers of \<^verbatim>\<open>SerializableKeyRange\<close>.\<close>

definition default_key_range :: "typed_uuid \<Rightarrow> serializable_key_range" where
  "default_key_range rel =
    \<lparr>relation_uuid = rel, lower_bound = [], upper_bound = [], lower_unbounded = False,
     upper_unbounded = False, lower_inclusive = True, upper_inclusive = True, full_relation = False,
     predicate_digest = []\<rparr>"

definition MakeSerializablePointRange :: "typed_uuid \<Rightarrow> string \<Rightarrow> serializable_key_range" where
  "MakeSerializablePointRange rel key = (default_key_range rel)\<lparr>lower_bound := key, upper_bound := key\<rparr>"

definition MakeSerializableBoundedRange :: "typed_uuid \<Rightarrow> string \<Rightarrow> string \<Rightarrow> serializable_key_range" where
  "MakeSerializableBoundedRange rel lo hi = (default_key_range rel)\<lparr>lower_bound := lo, upper_bound := hi\<rparr>"

definition MakeSerializablePredicateRange :: "typed_uuid \<Rightarrow> string \<Rightarrow> serializable_key_range" where
  "MakeSerializablePredicateRange rel digest =
    (default_key_range rel)\<lparr>lower_unbounded := True, upper_unbounded := True, full_relation := True,
      predicate_digest := digest\<rparr>"

definition SameRelation :: "serializable_key_range \<Rightarrow> serializable_key_range \<Rightarrow> bool" where
  "SameRelation l r \<longleftrightarrow> uuid_kind (relation_uuid l) = uuid_kind (relation_uuid r) \<and>
    uuid_value (relation_uuid l) = uuid_value (relation_uuid r)"

text \<open>\<^verbatim>\<open>left_before_right\<close>; \<^verbatim>\<open>right_before_left\<close> is the same with the ranges exchanged.\<close>

definition range_before :: "serializable_key_range \<Rightarrow> serializable_key_range \<Rightarrow> bool" where
  "range_before l r \<longleftrightarrow> \<not> upper_unbounded l \<and> \<not> lower_unbounded r \<and>
    (upper_bound l < lower_bound r \<or>
     (upper_bound l = lower_bound r \<and> (\<not> upper_inclusive l \<or> \<not> lower_inclusive r)))"

definition BoundsOverlap :: "serializable_key_range \<Rightarrow> serializable_key_range \<Rightarrow> bool" where
  "BoundsOverlap l r =
    (if \<not> SameRelation l r then False
     else if full_relation l \<or> full_relation r then True
     else if predicate_digest l \<noteq> [] \<or> predicate_digest r \<noteq> [] then
       predicate_digest l = [] \<or> predicate_digest r = [] \<or> predicate_digest l = predicate_digest r
     else \<not> range_before l r \<and> \<not> range_before r l)"

section \<open>Conflicts\<close>

definition IsWriteKind :: "serializable_access_kind \<Rightarrow> bool" where
  "IsWriteKind k \<longleftrightarrow> k = SA_insert \<or> k = SA_update \<or> k = SA_delete_row"

definition IsReadKind :: "serializable_access_kind \<Rightarrow> bool" where
  "IsReadKind k \<longleftrightarrow> k = SA_point_read \<or> k = SA_range_read \<or> k = SA_predicate_read"

definition IsPendingFinality :: "transaction_state \<Rightarrow> bool" where
  "IsPendingFinality s \<longleftrightarrow> s = TS_active \<or> s = TS_preparing \<or> s = TS_prepared \<or> s = TS_committing"

definition IsRecoveryState :: "transaction_state \<Rightarrow> bool" where
  "IsRecoveryState s \<longleftrightarrow> s = TS_limbo \<or> s = TS_recovering"

definition IsValidRelationUuid :: "typed_uuid \<Rightarrow> bool" where
  "IsValidRelationUuid t \<longleftrightarrow> uuid_kind t = UK_object \<and> typed_uuid_valid t \<and> IsEngineIdentityUuid (uuid_value t)"

definition SerializableAdmitted :: "string \<Rightarrow> serializable_conflict_result" where
  "SerializableAdmitted evidence =
    \<lparr>conflict_status = TransactionOkStatus, conflict_kind = SK_none, conflict_retry_class = SR_none,
     admitted = True, conflict_diagnostic = None,
     conflict_evidence = [evidence,
       ''serializable.inventory_authority=durable_transaction_inventory'',
       ''serializable.parser_or_reference_authority=false'']\<rparr>"

definition SerializableRefused ::
  "serializable_conflict_kind \<Rightarrow> serializable_retry_class \<Rightarrow> string \<Rightarrow> string \<Rightarrow> string \<Rightarrow>
   serializable_conflict_result" where
  "SerializableRefused k c code key detail =
    \<lparr>conflict_status = TransactionErrorStatus, conflict_kind = k, conflict_retry_class = c,
     admitted = False,
     conflict_diagnostic = Some (MakeTransactionSnapshotDiagnostic TransactionErrorStatus code key detail),
     conflict_evidence = [''serializable.conflict='' @ SerializableConflictKindName k,
       ''serializable.retry_class='' @ SerializableRetryClassName c,
       ''serializable.inventory_authority=durable_transaction_inventory'']\<rparr>"

definition ValidateSerializableAccess :: "serializable_access_record \<Rightarrow> serializable_conflict_result" where
  "ValidateSerializableAccess a =
    (let r = access_range a in
     if access_parser_or_reference_authority a then
       SerializableRefused SK_external_authority_refused SR_invalid_request
         ''SB-SNTXN-SERIALIZABLE-EXTERNAL-AUTHORITY-REFUSED''
         ''transaction.serializable.external_authority_refused'' ''''
     else if \<not> access_durable_inventory_authoritative a then
       SerializableRefused SK_inventory_authority_required SR_invalid_request
         ''SB-SNTXN-SERIALIZABLE-INVENTORY-AUTHORITY-REQUIRED''
         ''transaction.serializable.inventory_authority_required'' ''''
     else if \<not> local_id_valid (access_local_id a) \<or> access_sequence a = 0 \<or> access_kind a = SA_unknown \<or>
             (\<not> IsReadKind (access_kind a) \<and> \<not> IsWriteKind (access_kind a)) \<or>
             \<not> IsValidRelationUuid (relation_uuid r) then
       SerializableRefused SK_invalid_request SR_invalid_request ''SB-SNTXN-SERIALIZABLE-INVALID-ACCESS''
         ''transaction.serializable.invalid_access'' ''''
     else if \<not> full_relation r \<and> predicate_digest r = [] \<and> (lower_bound r = [] \<or> upper_bound r = []) \<and>
             (\<not> lower_unbounded r \<or> \<not> upper_unbounded r) then
       SerializableRefused SK_invalid_request SR_invalid_request ''SB-SNTXN-SERIALIZABLE-RANGE-INVALID''
         ''transaction.serializable.range_invalid'' ''''
     else SerializableAdmitted ''serializable.access_valid=true'')"

text \<open>
  The body of the loop for one existing access of another transaction: \<open>None\<close> continues. Every kind
  that passed the validation ends in one of the branches.
\<close>

definition existing_conflict ::
  "serializable_access_record \<Rightarrow> serializable_access_record \<Rightarrow> serializable_conflict_result option" where
  "existing_conflict existing write =
    (if access_local_id existing = access_local_id write then None
     else if \<not> conflict_ok (ValidateSerializableAccess existing) then Some (ValidateSerializableAccess existing)
     else if \<not> BoundsOverlap (access_range existing) (access_range write) then None
     else if IsRecoveryState (access_transaction_state existing) \<or> IsRecoveryState (access_transaction_state write) then
       Some (SerializableRefused SK_read_write SR_recovery_required ''SB-SNTXN-SERIALIZABLE-RECOVERY-REQUIRED''
               ''transaction.serializable.recovery_required'' '''')
     else if IsWriteKind (access_kind existing) then
       Some (SerializableRefused SK_write_write
               (if IsPendingFinality (access_transaction_state existing) then SR_wait_for_transaction
                else SR_serialization_retry)
               ''SB-SNTXN-SERIALIZABLE-WRITE-WRITE-CONFLICT''
               ''transaction.serializable.write_write_conflict''
               (SerializableAccessKindName (access_kind existing)))
     else if access_kind existing = SA_predicate_read \<or> access_kind existing = SA_range_read then
       (let conflict = (if access_kind write = SA_insert then SK_phantom_insert else SK_read_write) in
        Some (SerializableRefused conflict SR_serialization_retry
                (if conflict = SK_phantom_insert then ''SB-SNTXN-SERIALIZABLE-PHANTOM-REFUSED''
                 else ''SB-SNTXN-SERIALIZABLE-READ-WRITE-CONFLICT'')
                (if conflict = SK_phantom_insert then ''transaction.serializable.phantom_refused''
                 else ''transaction.serializable.read_write_conflict'')
                (SerializableAccessKindName (access_kind write))))
     else if access_kind existing = SA_point_read then
       Some (SerializableRefused SK_read_write SR_serialization_retry
               ''SB-SNTXN-SERIALIZABLE-READ-WRITE-CONFLICT''
               ''transaction.serializable.read_write_conflict''
               (SerializableAccessKindName (access_kind write)))
     else None)"

fun first_conflict ::
  "serializable_access_record list \<Rightarrow> serializable_access_record \<Rightarrow> serializable_conflict_result option" where
  "first_conflict [] write = None"
| "first_conflict (a # as) write =
    (case existing_conflict a write of Some r \<Rightarrow> Some r | None \<Rightarrow> first_conflict as write)"

definition EvaluateSerializableWriteConflict ::
  "serializable_access_record list \<Rightarrow> serializable_access_record \<Rightarrow> serializable_conflict_result" where
  "EvaluateSerializableWriteConflict existing write =
    (if \<not> conflict_ok (ValidateSerializableAccess write) then ValidateSerializableAccess write
     else if \<not> IsWriteKind (access_kind write) then
       SerializableRefused SK_invalid_request SR_invalid_request ''SB-SNTXN-SERIALIZABLE-WRITE-REQUIRED''
         ''transaction.serializable.write_required'' (SerializableAccessKindName (access_kind write))
     else case first_conflict existing write of
       Some r \<Rightarrow> r
     | None \<Rightarrow> SerializableAdmitted ''serializable.write_admitted=true'')"

section \<open>The tracker\<close>

type_synonym conflict_tracker = "serializable_access_record list"

definition AddEvidence :: "serializable_conflict_result \<Rightarrow> string \<Rightarrow> serializable_conflict_result" where
  "AddEvidence r s = r\<lparr>conflict_evidence := conflict_evidence r @ [s]\<rparr>"

definition CheckWrite :: "conflict_tracker \<Rightarrow> serializable_access_record \<Rightarrow> serializable_conflict_result" where
  "CheckWrite t write = EvaluateSerializableWriteConflict t write"

definition RecordWrite ::
  "serializable_access_record \<Rightarrow> conflict_tracker \<Rightarrow> serializable_conflict_result \<times> conflict_tracker" where
  "RecordWrite write t =
    (let r = CheckWrite t write in
     if \<not> conflict_ok r then (r, t)
     else (AddEvidence (AddEvidence r (''serializable.access_kind='' @ SerializableAccessKindName (access_kind write)))
             ''serializable.write_recorded=true'', t @ [write]))"

definition RecordAccess ::
  "serializable_access_record \<Rightarrow> conflict_tracker \<Rightarrow> serializable_conflict_result \<times> conflict_tracker" where
  "RecordAccess a t =
    (let valid = ValidateSerializableAccess a in
     if \<not> conflict_ok valid then (valid, t)
     else if IsWriteKind (access_kind a) then RecordWrite a t
     else (AddEvidence (SerializableAdmitted ''serializable.read_recorded=true'')
             (''serializable.access_kind='' @ SerializableAccessKindName (access_kind a)), t @ [a]))"

definition access_count :: "conflict_tracker \<Rightarrow> u64" where
  "access_count t = of_nat (length t)"

section \<open>Lemmas: ranges\<close>

text \<open>The keys a range covers. A range over a whole relation covers every key.\<close>

definition key_in_range :: "string \<Rightarrow> serializable_key_range \<Rightarrow> bool" where
  "key_in_range k r \<longleftrightarrow> full_relation r \<or>
    ((lower_unbounded r \<or> lower_bound r < k \<or> lower_inclusive r \<and> lower_bound r = k) \<and>
     (upper_unbounded r \<or> k < upper_bound r \<or> upper_inclusive r \<and> k = upper_bound r))"

lemma range_before_disjoint:
  "range_before l r \<Longrightarrow> \<not> full_relation l \<Longrightarrow> \<not> full_relation r \<Longrightarrow> key_in_range k l \<Longrightarrow> \<not> key_in_range k r"
  by (auto simp: range_before_def key_in_range_def dest: less_trans)

text \<open>What it takes not to overlap: a digest on either side is compared instead of the keys.\<close>

lemma apart_ranges:
  assumes "\<not> BoundsOverlap l r" "SameRelation l r"
  shows "\<not> full_relation l \<and> \<not> full_relation r \<and>
    (if predicate_digest l = [] \<and> predicate_digest r = [] then \<nexists>k. key_in_range k l \<and> key_in_range k r
     else predicate_digest l \<noteq> [] \<and> predicate_digest r \<noteq> [] \<and> predicate_digest l \<noteq> predicate_digest r)"
  using assms range_before_disjoint [of l r] range_before_disjoint [of r l]
  by (auto simp: BoundsOverlap_def split: if_splits)

section \<open>Lemmas: the tracker\<close>

lemma conflict_ok_simps [simp]:
  "conflict_ok (SerializableAdmitted e)" "\<not> conflict_ok (SerializableRefused k c code key d)"
  "conflict_ok (AddEvidence r e) = conflict_ok r"
  by (simp_all add: conflict_ok_def SerializableAdmitted_def SerializableRefused_def AddEvidence_def
      status_ok_def TransactionOkStatus_def)

lemma valid_access_kind:
  "conflict_ok (ValidateSerializableAccess a) \<Longrightarrow> IsReadKind (access_kind a) \<or> IsWriteKind (access_kind a)"
  by (auto simp: ValidateSerializableAccess_def Let_def split: if_splits)

lemma existing_conflict_None:
  "existing_conflict a w = None \<longleftrightarrow>
    access_local_id a = access_local_id w \<or>
    (conflict_ok (ValidateSerializableAccess a) \<and> \<not> BoundsOverlap (access_range a) (access_range w))"
  using valid_access_kind [of a]
  by (auto simp: existing_conflict_def Let_def IsReadKind_def)

lemma first_conflict_None:
  "first_conflict as w = None \<longleftrightarrow> list_all (\<lambda>a. existing_conflict a w = None) as"
  by (induction as) (auto split: option.splits)

lemma existing_conflict_refuses: "existing_conflict a w = Some r \<Longrightarrow> \<not> conflict_ok r"
  by (auto simp: existing_conflict_def Let_def split: if_splits)

lemma first_conflict_refuses: "first_conflict as w = Some r \<Longrightarrow> \<not> conflict_ok r"
  by (induction as) (auto dest: existing_conflict_refuses split: option.splits)

lemma CheckWrite_ok:
  "conflict_ok (CheckWrite t w) \<longleftrightarrow>
    conflict_ok (ValidateSerializableAccess w) \<and> IsWriteKind (access_kind w) \<and>
    list_all (\<lambda>a. existing_conflict a w = None) t"
  by (auto simp: CheckWrite_def EvaluateSerializableWriteConflict_def first_conflict_None [symmetric]
      dest: first_conflict_refuses split: option.splits)

lemma RecordAccess_read:
  assumes "conflict_ok (ValidateSerializableAccess a)" "IsReadKind (access_kind a)"
  shows "conflict_ok (fst (RecordAccess a t)) \<and> snd (RecordAccess a t) = t @ [a]"
  using assms by (auto simp: RecordAccess_def Let_def IsReadKind_def IsWriteKind_def)

lemma RecordAccess_write:
  assumes "IsWriteKind (access_kind w)"
  shows "conflict_ok (fst (RecordAccess w t)) \<longleftrightarrow>
      conflict_ok (ValidateSerializableAccess w) \<and> list_all (\<lambda>a. existing_conflict a w = None) t"
    "conflict_ok (fst (RecordAccess w t)) \<Longrightarrow> snd (RecordAccess w t) = t @ [w]"
  using assms CheckWrite_ok [of t w]
  by (cases "conflict_ok (ValidateSerializableAccess w)"; simp add: RecordAccess_def RecordWrite_def Let_def split: if_splits)+

text \<open>An access that was recorded before a write of another transaction does not overlap it.\<close>

definition no_conflict_after :: "serializable_access_record \<Rightarrow> serializable_access_record \<Rightarrow> bool" where
  "no_conflict_after a b \<longleftrightarrow> (IsWriteKind (access_kind b) \<and> access_local_id a \<noteq> access_local_id b \<longrightarrow>
    \<not> BoundsOverlap (access_range a) (access_range b))"

definition tracker_ok :: "conflict_tracker \<Rightarrow> bool" where
  "tracker_ok t \<longleftrightarrow> list_all (\<lambda>a. conflict_ok (ValidateSerializableAccess a)) t \<and> sorted_wrt no_conflict_after t"

inductive tracker_step :: "conflict_tracker \<Rightarrow> conflict_tracker \<Rightarrow> bool" where
  tracker_access: "RecordAccess a t = (r, t') \<Longrightarrow> tracker_step t t'"
| tracker_write: "RecordWrite a t = (r, t') \<Longrightarrow> tracker_step t t'"

lemma RecordWrite_ok: "tracker_ok t \<Longrightarrow> tracker_ok (snd (RecordWrite a t))"
  by (auto simp: RecordWrite_def Let_def CheckWrite_ok tracker_ok_def sorted_wrt_append no_conflict_after_def
      list_all_iff existing_conflict_None)

lemma RecordAccess_ok: "tracker_ok t \<Longrightarrow> tracker_ok (snd (RecordAccess a t))"
  using RecordWrite_ok [of t a]
  by (auto simp: RecordAccess_def Let_def tracker_ok_def sorted_wrt_append no_conflict_after_def)

lemma tracker_step_ok: "tracker_step t t' \<Longrightarrow> tracker_ok t \<Longrightarrow> tracker_ok t'"
  by (induction rule: tracker_step.induct) (metis RecordAccess_ok RecordWrite_ok snd_conv)+

interpretation tracker_run: invariant_system tracker_step tracker_ok
  by unfold_locales (rule tracker_step_ok)

lemma tracker_empty_ok: "tracker_ok []"
  by (simp add: tracker_ok_def)

section \<open>Lemmas: repeatable reads\<close>

lemma Create_start:
  assumes "CreateLocalTransactionSnapshot ivt reader = Inr (snap, vis)" "FindEntry ivt reader = Some e"
  shows "snap_transaction_start_visible_through_local_transaction snap = begin_visible_through_local_transaction_id e"
    "snap_transaction_start_visible_through_commit_sequence snap = begin_visible_through_commit_sequence e"
  using assms
  by (auto simp: CreateLocalTransactionSnapshot_def bind_result_eq_Inr Lookup_Inr Let_def split: if_splits)

lemma policy_admits:
  "level \<noteq> IL_read_committed \<Longrightarrow>
   snapshot_admits (SnapshotPolicyForIsolation level snap) i cs \<longleftrightarrow>
    i \<le> snap_transaction_start_visible_through_local_transaction snap \<and> cs \<noteq> 0 \<and>
    cs \<le> snap_transaction_start_visible_through_commit_sequence snap"
  by (auto simp: snapshot_admits_def SnapshotPolicyForIsolation_def)

lemma begin_boundaries:
  assumes "BeginLocalTransaction ivt0 uuid millis = Inr (ivt1, r)"
  shows "valid_inventory ivt0" "valid_inventory ivt1" "entries ivt1 = entries ivt0 @ [r]"
    "next_commit_sequence ivt1 = next_commit_sequence ivt0" "\<not> HasCommittedInventoryOutcome r"
    "begin_visible_through_local_transaction_id r = next_local_transaction_id ivt0 - 1"
    "begin_visible_through_commit_sequence r = next_commit_sequence ivt0 - 1"
    "entry_id r = next_local_transaction_id ivt0"
proof -
  show "valid_inventory ivt1" using assms by (auto simp: BeginLocalTransaction_def intro: Begin_valid)
qed (use assms in \<open>auto simp: BeginLocalTransaction_def Begin_Inr begun_entry_def committed_state\<close>)

lemma start_boundaries_fixed:
  assumes "BeginLocalTransaction ivt0 uuid millis = Inr (ivt1, r)" "inventory_step\<^sup>*\<^sup>* ivt1 ivt2"
    "CreateLocalTransactionSnapshot ivt2 (entry_id r) = Inr (snap, vis)"
  shows "snap_transaction_start_visible_through_local_transaction snap = next_local_transaction_id ivt0 - 1"
    "snap_transaction_start_visible_through_commit_sequence snap = next_commit_sequence ivt0 - 1"
proof -
  note b = begin_boundaries [OF assms(1)]
  from assms(3) obtain e where e: "FindEntry ivt2 (entry_id r) = Some e" by (rule Create_Inr)
  have "keeps_history r e"
    by (rule run_tracks [OF assms(2) b(2)]) (use b(3) FindEntry_Some [OF e] in auto)
  then show "snap_transaction_start_visible_through_local_transaction snap = next_local_transaction_id ivt0 - 1"
    "snap_transaction_start_visible_through_commit_sequence snap = next_commit_sequence ivt0 - 1"
    using Create_start [OF assms(3) e] b(6,7) by (auto simp: keeps_history_def begin_changed_def)
qed


section \<open>Sample data\<close>

definition sample_relation :: typed_uuid where
  "sample_relation = \<lparr>uuid_kind = UK_object, uuid_value = sample_uuid 200\<rparr>"

definition sample_access :: "u64 \<Rightarrow> serializable_access_kind \<Rightarrow> string \<Rightarrow> u64 \<Rightarrow> serializable_access_record" where
  "sample_access i kind key seq =
    \<lparr>access_local_id = i, access_transaction_state = TS_active, access_kind = kind,
     access_range = MakeSerializablePointRange sample_relation key, access_sequence = seq,
     access_durable_inventory_authoritative = True, access_parser_or_reference_authority = False\<rparr>"

definition record_all :: "serializable_access_record list \<Rightarrow> conflict_tracker" where
  "record_all as = fold (\<lambda>a t. snd (RecordAccess a t)) as []"

lemma record_all_run: "tracker_step\<^sup>*\<^sup>* [] (record_all as)"
proof (induction as rule: rev_induct)
  case Nil
  then show ?case by (simp add: record_all_def)
next
  case (snoc a as)
  have "tracker_step (record_all as) (record_all (as @ [a]))"
    by (rule tracker_access [of a _ "fst (RecordAccess a (record_all as))"]) (simp add: record_all_def)
  with snoc show ?case by (rule rtranclp.rtrancl_into_rtrancl)
qed

section \<open>Properties\<close>

text \<open>
  C33. Repeatable reads. The visibility policy of a repeatable-read or serializable transaction, taken
  from a snapshot created at any time of its life, admits a committed transaction exactly when that
  transaction had committed before the reader began, whatever operations run before and after the
  snapshot: every statement of the reader sees the same committed state.
\<close>

theorem repeatable_read_sees_begin_state:
  assumes "BeginLocalTransaction ivt0 uuid millis = Inr (ivt1, r)"
    and "inventory_step\<^sup>*\<^sup>* ivt1 ivt2" and "CreateLocalTransactionSnapshot ivt2 (entry_id r) = Inr (snap, vis)"
    and "level \<noteq> IL_read_committed" and "inventory_step\<^sup>*\<^sup>* ivt2 ivt3"
    and "e \<in> set (entries ivt3)" and "HasCommittedInventoryOutcome e"
  shows "snapshot_admits (SnapshotPolicyForIsolation level snap) (entry_id e) (commit_sequence e) \<longleftrightarrow>
    (\<exists>e0 \<in> set (entries ivt0). entry_id e0 = entry_id e \<and> HasCommittedInventoryOutcome e0)"
proof -
  note b = begin_boundaries [OF assms(1)]
  have run: "inventory_step\<^sup>*\<^sup>* ivt1 ivt3" using assms(2,5) by simp
  have v3: "valid_inventory ivt3" using run_valid [OF run b(2)] .
  note nz = valid_next [OF b(1)] valid_next_cs [OF b(1)]
  have adm: "snapshot_admits (SnapshotPolicyForIsolation level snap) (entry_id e) (commit_sequence e) \<longleftrightarrow>
      entry_id e < next_local_transaction_id ivt0 \<and> commit_sequence e < next_commit_sequence ivt0"
    using policy_admits [OF assms(4)] start_boundaries_fixed [OF assms(1-3)] committed_cs_pos [OF v3 assms(6,7)]
      u64_le_dec_iff [OF nz(1)] u64_le_dec_iff [OF nz(2)] by simp
  show ?thesis
  proof
    assume "snapshot_admits (SnapshotPolicyForIsolation level snap) (entry_id e) (commit_sequence e)"
    with adm b(4) obtain e0 where "e0 \<in> set (entries ivt1)" "entry_id e0 = entry_id e" "HasCommittedInventoryOutcome e0"
      using commit_order.run_since [OF run b(2)] assms(6,7) by (auto simp: commits_since_def)
    with b(3,5) show "\<exists>e0 \<in> set (entries ivt0). entry_id e0 = entry_id e \<and> HasCommittedInventoryOutcome e0" by auto
  next
    assume "\<exists>e0 \<in> set (entries ivt0). entry_id e0 = entry_id e \<and> HasCommittedInventoryOutcome e0"
    then obtain e0 where e0: "e0 \<in> set (entries ivt0)" "entry_id e = entry_id e0" "HasCommittedInventoryOutcome e0" by auto
    then have "keeps_history e0 e" using run_tracks [OF run b(2) _ assms(6) e0(2)] b(3) by simp
    with e0(3) have "commit_sequence e = commit_sequence e0"
      by (simp add: keeps_history_def HasCommittedInventoryOutcome_def IsTerminalTransactionState_def)
    with e0 valid_id_less [OF b(1) e0(1)] valid_entry [OF b(1) e0(1)] adm
    show "snapshot_admits (SnapshotPolicyForIsolation level snap) (entry_id e) (commit_sequence e)"
      by (simp add: entry_ok_def)
  qed
qed

theorem repeatable_read_sees_begin_state_witness:
  "\<exists>ivt1 r snap vis. BeginLocalTransaction sample_inventory (sample_transaction 9) 200 = Inr (ivt1, r) \<and>
     CreateLocalTransactionSnapshot ivt1 (entry_id r) = Inr (snap, vis) \<and>
     snapshot_admits (SnapshotPolicyForIsolation IL_repeatable_read snap) 1 1"
proof -
  let ?e = "sample_entry 1 1 TS_committed 0 1"
  have "case BeginLocalTransaction sample_inventory (sample_transaction 9) 200 of
      Inr (ivt1, r) \<Rightarrow> is_ok (CreateLocalTransactionSnapshot ivt1 (entry_id r)) | Inl _ \<Rightarrow> False" by code_simp
  then obtain ivt1 r snap vis where b: "BeginLocalTransaction sample_inventory (sample_transaction 9) 200 = Inr (ivt1, r)"
    and c: "CreateLocalTransactionSnapshot ivt1 (entry_id r) = Inr (snap, vis)"
    by (auto simp: is_ok_iff split: sum.splits)
  have e: "?e \<in> set (entries sample_inventory)" "HasCommittedInventoryOutcome ?e" "entry_id ?e = 1" "commit_sequence ?e = 1"
    by (simp_all add: sample_inventory_def committed_state sample_entry_def)
  then have "?e \<in> set (entries ivt1)" using begin_boundaries(3) [OF b] by simp
  from repeatable_read_sees_begin_state [OF b _ c _ _ this e(2), of IL_repeatable_read] e b c show ?thesis by auto
qed

text \<open>
  C34. Writes of the serializable tracker. In any tracker built by its methods, take a write and an access
  of another transaction to the same relation recorded before it. Neither covers the whole relation. If
  neither range carries a predicate digest, the two ranges have no key in common. Otherwise both carry
  one and the digests differ: two digests are compared instead of the keys, so ranges with different
  digests may share keys.
\<close>

theorem admitted_writes_touch_no_foreign_key:
  assumes "tracker_step\<^sup>*\<^sup>* [] t" and "i < j" "j < length t" and "IsWriteKind (access_kind (t ! j))"
    and "access_local_id (t ! i) \<noteq> access_local_id (t ! j)"
    and "SameRelation (access_range (t ! i)) (access_range (t ! j))"
  defines "a \<equiv> access_range (t ! i)" and "w \<equiv> access_range (t ! j)"
  shows "\<not> full_relation a \<and> \<not> full_relation w \<and>
    (if predicate_digest a = [] \<and> predicate_digest w = [] then \<nexists>k. key_in_range k a \<and> key_in_range k w
     else predicate_digest a \<noteq> [] \<and> predicate_digest w \<noteq> [] \<and> predicate_digest a \<noteq> predicate_digest w)"
proof -
  have "tracker_ok t" using tracker_run.run_keeps [OF assms(1) tracker_empty_ok] .
  then have "no_conflict_after (t ! i) (t ! j)"
    using sorted_wrt_nth_less [OF _ assms(2,3)] by (auto simp: tracker_ok_def)
  then have "\<not> BoundsOverlap a w" using assms(4,5) by (auto simp: no_conflict_after_def a_def w_def)
  then show ?thesis by (rule apart_ranges) (simp add: a_def w_def assms(6))
qed

theorem admitted_writes_touch_no_foreign_key_witness:
  "let t = record_all [sample_access 1 SA_point_read ''a'' 1, sample_access 2 SA_update ''b'' 2] in
   length t = 2 \<and> (\<nexists>k. key_in_range k (access_range (t ! 0)) \<and> key_in_range k (access_range (t ! 1)))"
proof -
  define t where "t = record_all [sample_access 1 SA_point_read ''a'' 1, sample_access 2 SA_update ''b'' 2]"
  have t: "t = [sample_access 1 SA_point_read ''a'' 1, sample_access 2 SA_update ''b'' 2]"
    unfolding t_def by code_simp
  have run: "tracker_step\<^sup>*\<^sup>* [] t" unfolding t_def by (rule record_all_run)
  have h: "IsWriteKind (access_kind (t ! 1))" "access_local_id (t ! 0) \<noteq> access_local_id (t ! 1)"
    "SameRelation (access_range (t ! 0)) (access_range (t ! 1))"
    "predicate_digest (access_range (t ! 0)) = []" "predicate_digest (access_range (t ! 1)) = []"
    unfolding t by code_simp+
  have l: "(0::nat) < 1" "1 < length t" by (simp_all add: t)
  show ?thesis
    using admitted_writes_touch_no_foreign_key [OF run l h(1-3)] h(4,5) l by (simp add: t_def [symmetric] Let_def) (simp add: t)
qed

text \<open>
  C35. A read is recorded without being checked against earlier writes, so a write skew passes. Take any
  tracker that admits a write of each of two transactions, one after the other, and a valid read of each
  whose range overlaps what the other one wrote. After the writes both reads are admitted and recorded.
  Had the same reads come first, both writes would have been refused: which of the accesses are admitted
  depends on their order alone.
\<close>

theorem write_skew_is_admitted:
  assumes "access_local_id w1 = i" "access_local_id r1 = i" "access_local_id w2 = j" "access_local_id r2 = j" "i \<noteq> j"
    and "IsWriteKind (access_kind w1)" "IsWriteKind (access_kind w2)"
    and "IsReadKind (access_kind r1)" "IsReadKind (access_kind r2)"
    and "conflict_ok (ValidateSerializableAccess r1)" "conflict_ok (ValidateSerializableAccess r2)"
    and "BoundsOverlap (access_range r2) (access_range w1)" "BoundsOverlap (access_range r1) (access_range w2)"
    and "conflict_ok (fst (RecordAccess w1 t))" "conflict_ok (fst (RecordAccess w2 (snd (RecordAccess w1 t))))"
  defines "writes \<equiv> snd (RecordAccess w2 (snd (RecordAccess w1 t)))"
    and "reads \<equiv> snd (RecordAccess r1 (snd (RecordAccess r2 t)))"
  shows "conflict_ok (fst (RecordAccess r2 writes)) \<and>
    conflict_ok (fst (RecordAccess r1 (snd (RecordAccess r2 writes)))) \<and>
    snd (RecordAccess r1 (snd (RecordAccess r2 writes))) = t @ [w1, w2, r2, r1] \<and>
    \<not> conflict_ok (fst (RecordAccess w1 reads)) \<and> \<not> conflict_ok (fst (RecordAccess w2 reads))"
proof -
  note r = RecordAccess_read [OF assms(10,8)] RecordAccess_read [OF assms(11,9)]
  have "writes = t @ [w1, w2]"
    using RecordAccess_write(2) [OF assms(6,14)] RecordAccess_write(2) [OF assms(7,15)] by (simp add: writes_def)
  moreover have "reads = t @ [r2, r1]" using r by (simp add: reads_def)
  moreover have "existing_conflict r2 w1 \<noteq> None" "existing_conflict r1 w2 \<noteq> None"
    using assms(1-5,12,13) by (auto simp: existing_conflict_None)
  ultimately show ?thesis using r by (simp add: RecordAccess_write [OF assms(6)] RecordAccess_write [OF assms(7)])
qed

theorem write_skew_is_admitted_witness:
  "let w1 = sample_access 1 SA_update ''a'' 1; w2 = sample_access 2 SA_update ''b'' 2;
       r2 = sample_access 2 SA_point_read ''a'' 3; r1 = sample_access 1 SA_point_read ''b'' 4
   in record_all [w1, w2, r2, r1] = [w1, w2, r2, r1]"
proof -
  let ?w1 = "sample_access 1 SA_update ''a'' 1" and ?w2 = "sample_access 2 SA_update ''b'' 2"
  let ?r2 = "sample_access 2 SA_point_read ''a'' 3" and ?r1 = "sample_access 1 SA_point_read ''b'' 4"
  have h: "access_local_id ?w1 = 1" "access_local_id ?r1 = 1" "access_local_id ?w2 = 2" "access_local_id ?r2 = 2"
    "(1::u64) \<noteq> 2" "IsWriteKind (access_kind ?w1)" "IsWriteKind (access_kind ?w2)"
    "IsReadKind (access_kind ?r1)" "IsReadKind (access_kind ?r2)"
    "conflict_ok (ValidateSerializableAccess ?r1)" "conflict_ok (ValidateSerializableAccess ?r2)"
    "BoundsOverlap (access_range ?r2) (access_range ?w1)" "BoundsOverlap (access_range ?r1) (access_range ?w2)"
    "conflict_ok (fst (RecordAccess ?w1 []))" "conflict_ok (fst (RecordAccess ?w2 (snd (RecordAccess ?w1 []))))"
    by code_simp+
  from write_skew_is_admitted [OF h] show ?thesis by (simp add: record_all_def Let_def)
qed

end
