(* ===== verification/ByteCodec.thy ===== *)
theory ByteCodec
  imports Prelude
begin

text \<open>
  Integers in byte buffers: the byte order functions of \<^verbatim>\<open>core/platform/runtime_platform.hpp\<close>, and the
  buffers the page codecs read and write. Offsets and sizes are natural numbers; a read or write
  outside the buffer does not occur in the code and is excluded where it matters.
\<close>

section \<open>Byte order\<close>

unbundle bit_operations_syntax

datatype host_endian = HE_little | HE_big

definition ByteSwap16 :: "u16 \<Rightarrow> u16" where
  "ByteSwap16 v = drop_bit 8 v OR push_bit 8 v"

definition ByteSwap32 :: "u32 \<Rightarrow> u32" where
  "ByteSwap32 v = push_bit 24 (v AND 0x000000ff) OR push_bit 8 (v AND 0x0000ff00) OR
    drop_bit 8 (v AND 0x00ff0000) OR drop_bit 24 (v AND 0xff000000)"

definition ByteSwap64 :: "u64 \<Rightarrow> u64" where
  "ByteSwap64 v = push_bit 56 (v AND 0x00000000000000ff) OR push_bit 40 (v AND 0x000000000000ff00) OR
    push_bit 24 (v AND 0x0000000000ff0000) OR push_bit 8 (v AND 0x00000000ff000000) OR
    drop_bit 8 (v AND 0x000000ff00000000) OR drop_bit 24 (v AND 0x0000ff0000000000) OR
    drop_bit 40 (v AND 0x00ff000000000000) OR drop_bit 56 (v AND 0xff00000000000000)"

definition HostToLittle16 :: "host_endian \<Rightarrow> u16 \<Rightarrow> u16" where
  "HostToLittle16 h v = (if h = HE_little then v else ByteSwap16 v)"

definition HostToLittle32 :: "host_endian \<Rightarrow> u32 \<Rightarrow> u32" where
  "HostToLittle32 h v = (if h = HE_little then v else ByteSwap32 v)"

definition HostToLittle64 :: "host_endian \<Rightarrow> u64 \<Rightarrow> u64" where
  "HostToLittle64 h v = (if h = HE_little then v else ByteSwap64 v)"

text \<open>
  The bytes of an integer, least significant first, and the integer with these bytes. An integer in
  memory has them in this order on a little-endian host and reversed on a big-endian one; \<^verbatim>\<open>memcpy\<close>
  copies them.
\<close>

definition le_bytes :: "nat \<Rightarrow> 'a :: len word \<Rightarrow> byte list" where
  "le_bytes n v = map (\<lambda>i. ucast (drop_bit (8 * i) v)) [0..<n]"

definition of_le_bytes :: "byte list \<Rightarrow> 'a :: len word" where
  "of_le_bytes bs = foldr (\<lambda>b v. ucast b OR push_bit 8 v) bs 0"

definition object_bytes :: "host_endian \<Rightarrow> nat \<Rightarrow> 'a :: len word \<Rightarrow> byte list" where
  "object_bytes h n v = (if h = HE_little then le_bytes n v else rev (le_bytes n v))"

definition of_object_bytes :: "host_endian \<Rightarrow> byte list \<Rightarrow> 'a :: len word" where
  "of_object_bytes h bs = of_le_bytes (if h = HE_little then bs else rev bs)"

definition StoreLittle16 :: "host_endian \<Rightarrow> u16 \<Rightarrow> byte list" where
  "StoreLittle16 h v = object_bytes h 2 (HostToLittle16 h v)"

definition StoreLittle32 :: "host_endian \<Rightarrow> u32 \<Rightarrow> byte list" where
  "StoreLittle32 h v = object_bytes h 4 (HostToLittle32 h v)"

definition StoreLittle64 :: "host_endian \<Rightarrow> u64 \<Rightarrow> byte list" where
  "StoreLittle64 h v = object_bytes h 8 (HostToLittle64 h v)"

definition LoadLittle16 :: "host_endian \<Rightarrow> byte list \<Rightarrow> u16" where
  "LoadLittle16 h bs = HostToLittle16 h (of_object_bytes h bs)"

definition LoadLittle32 :: "host_endian \<Rightarrow> byte list \<Rightarrow> u32" where
  "LoadLittle32 h bs = HostToLittle32 h (of_object_bytes h bs)"

definition LoadLittle64 :: "host_endian \<Rightarrow> byte list \<Rightarrow> u64" where
  "LoadLittle64 h bs = HostToLittle64 h (of_object_bytes h bs)"

section \<open>Lemmas: bytes of an integer\<close>

lemma length_le_bytes [simp]: "length (le_bytes n v) = n"
  by (simp add: le_bytes_def)

lemma of_le_bytes_Nil [simp]: "of_le_bytes [] = 0"
  and of_le_bytes_Cons: "of_le_bytes (b # bs) = ucast b OR push_bit 8 (of_le_bytes bs)"
  by (simp_all add: of_le_bytes_def)

lemma le_bytes_Suc: "le_bytes (Suc n) v = ucast v # le_bytes n (drop_bit 8 v)"
  by (simp add: le_bytes_def upt_conv_Cons map_Suc_upt [symmetric] o_def add.commute del: upt_Suc)

lemma of_le_bytes_le_bytes: "of_le_bytes (le_bytes n v) = take_bit (8 * n) (v :: 'a :: len word)"
proof (induction n arbitrary: v)
  case (Suc n)
  show ?case
    by (rule bit_word_eqI) (auto simp: le_bytes_Suc of_le_bytes_Cons Suc bit_simps)
qed (simp add: le_bytes_def)

lemma le_bytes_of_le_bytes:
  "8 * length bs \<le> LENGTH('a) \<Longrightarrow> le_bytes (length bs) (of_le_bytes bs :: 'a :: len word) = bs"
proof (induction bs)
  case (Cons b bs)
  have len: "8 * length bs + 8 \<le> LENGTH('a)" using Cons.prems by simp
  have "ucast (of_le_bytes (b # bs) :: 'a word) = b"
    by (rule bit_word_eqI) (use len in \<open>auto simp: of_le_bytes_Cons bit_simps\<close>)
  moreover have "drop_bit 8 (of_le_bytes (b # bs) :: 'a word) = take_bit (LENGTH('a) - 8) (of_le_bytes bs)"
    by (rule bit_word_eqI) (use len in \<open>auto simp: of_le_bytes_Cons bit_simps dest: bit_imp_le_length\<close>)
  moreover have "le_bytes (length bs) (take_bit (LENGTH('a) - 8) (of_le_bytes bs :: 'a word)) =
      le_bytes (length bs) (of_le_bytes bs :: 'a word)"
    unfolding le_bytes_def by (intro map_cong [OF refl] bit_word_eqI) (use len in \<open>auto simp: bit_simps\<close>)
  ultimately show ?case using Cons by (simp add: le_bytes_Suc)
qed (simp add: le_bytes_def)


lemma le_bytes_2: "le_bytes 2 v = [ucast v, ucast (drop_bit 8 v)]"
  and le_bytes_4: "le_bytes 4 v = [ucast v, ucast (drop_bit 8 v), ucast (drop_bit 16 v), ucast (drop_bit 24 v)]"
  and le_bytes_8: "le_bytes 8 v = [ucast v, ucast (drop_bit 8 v), ucast (drop_bit 16 v), ucast (drop_bit 24 v),
    ucast (drop_bit 32 v), ucast (drop_bit 40 v), ucast (drop_bit 48 v), ucast (drop_bit 56 v)]"
  by (simp_all add: le_bytes_def upt_rec)

lemma of_le_bytes_round [simp]:
  "of_le_bytes (le_bytes 2 (v :: u16)) = v" "of_le_bytes (le_bytes 4 (w :: u32)) = w"
  "of_le_bytes (le_bytes 8 (x :: u64)) = x"
  by (simp_all add: of_le_bytes_le_bytes take_bit_word_eq_self)

lemma le_bytes_round:
  "length bs = 2 \<Longrightarrow> le_bytes 2 (of_le_bytes bs :: u16) = bs"
  "length bs = 4 \<Longrightarrow> le_bytes 4 (of_le_bytes bs :: u32) = bs"
  "length bs = 8 \<Longrightarrow> le_bytes 8 (of_le_bytes bs :: u64) = bs"
  using le_bytes_of_le_bytes [where 'a = 16, of bs] le_bytes_of_le_bytes [where 'a = 32, of bs]
    le_bytes_of_le_bytes [where 'a = 64, of bs]
  by simp_all

lemma byte_eqI:
  "bit a 0 = bit b 0 \<Longrightarrow> bit a 1 = bit b 1 \<Longrightarrow> bit a 2 = bit b 2 \<Longrightarrow> bit a 3 = bit b 3 \<Longrightarrow>
   bit a 4 = bit b 4 \<Longrightarrow> bit a 5 = bit b 5 \<Longrightarrow> bit a 6 = bit b 6 \<Longrightarrow> bit a 7 = bit b 7 \<Longrightarrow> a = (b :: byte)"
proof (rule bit_word_eqI)
  fix n :: nat
  assume "n < LENGTH(8)"
  then have "n \<in> {0, 1, 2, 3, 4, 5, 6, 7}" by auto
  moreover assume "bit a 0 = bit b 0" "bit a 1 = bit b 1" "bit a 2 = bit b 2" "bit a 3 = bit b 3"
    "bit a 4 = bit b 4" "bit a 5 = bit b 5" "bit a 6 = bit b 6" "bit a 7 = bit b 7"
  ultimately show "bit a n = bit b n" by auto
qed

lemma swap16_bytes: "rev (le_bytes 2 (ByteSwap16 v)) = le_bytes 2 v"
  unfolding le_bytes_2 ByteSwap16_def
  by (simp only: rev.simps append.simps list.inject, intro conjI byte_eqI TrueI refl) (simp_all add: bit_simps)

lemma swap32_bytes: "rev (le_bytes 4 (ByteSwap32 v)) = le_bytes 4 v"
  unfolding le_bytes_4 ByteSwap32_def
  by (simp only: rev.simps append.simps list.inject, intro conjI byte_eqI TrueI refl) (simp_all add: bit_simps)

lemma swap64_bytes: "rev (le_bytes 8 (ByteSwap64 v)) = le_bytes 8 v"
  unfolding le_bytes_8 ByteSwap64_def
  by (simp only: rev.simps append.simps list.inject, intro conjI byte_eqI TrueI refl) (simp_all add: bit_simps)


text \<open>The byte order functions do not depend on the host: memory always holds the low byte first.\<close>

lemma Store_little:
  "StoreLittle16 h v = le_bytes 2 v" "StoreLittle32 h w = le_bytes 4 w" "StoreLittle64 h x = le_bytes 8 x"
  by (simp_all add: StoreLittle16_def StoreLittle32_def StoreLittle64_def object_bytes_def HostToLittle16_def
      HostToLittle32_def HostToLittle64_def swap16_bytes swap32_bytes swap64_bytes)

lemma Load_little:
  "length bs = 2 \<Longrightarrow> LoadLittle16 h bs = of_le_bytes bs"
  "length bs = 4 \<Longrightarrow> LoadLittle32 h bs = of_le_bytes bs"
  "length bs = 8 \<Longrightarrow> LoadLittle64 h bs = of_le_bytes bs"
proof -
  assume l: "length bs = 2"
  have "le_bytes 2 (ByteSwap16 (of_le_bytes (rev bs))) = bs"
    using swap16_bytes [of "of_le_bytes (rev bs)"] le_bytes_round(1) [of "rev bs"] l by (simp add: rev_swap)
  then have "ByteSwap16 (of_le_bytes (rev bs)) = of_le_bytes bs" by (metis of_le_bytes_round(1))
  then show "LoadLittle16 h bs = of_le_bytes bs" by (simp add: LoadLittle16_def of_object_bytes_def HostToLittle16_def)
next
  assume l: "length bs = 4"
  have "le_bytes 4 (ByteSwap32 (of_le_bytes (rev bs))) = bs"
    using swap32_bytes [of "of_le_bytes (rev bs)"] le_bytes_round(2) [of "rev bs"] l by (simp add: rev_swap)
  then have "ByteSwap32 (of_le_bytes (rev bs)) = of_le_bytes bs" by (metis of_le_bytes_round(2))
  then show "LoadLittle32 h bs = of_le_bytes bs" by (simp add: LoadLittle32_def of_object_bytes_def HostToLittle32_def)
next
  assume l: "length bs = 8"
  have "le_bytes 8 (ByteSwap64 (of_le_bytes (rev bs))) = bs"
    using swap64_bytes [of "of_le_bytes (rev bs)"] le_bytes_round(3) [of "rev bs"] l by (simp add: rev_swap)
  then have "ByteSwap64 (of_le_bytes (rev bs)) = of_le_bytes bs" by (metis of_le_bytes_round(3))
  then show "LoadLittle64 h bs = of_le_bytes bs" by (simp add: LoadLittle64_def of_object_bytes_def HostToLittle64_def)
qed

section \<open>Buffers\<close>

text \<open>Copying bytes into a buffer, reading a segment, and the values the codecs read at an offset.\<close>

definition store_at :: "nat \<Rightarrow> byte list \<Rightarrow> byte list \<Rightarrow> byte list" where
  "store_at off bs xs = take off xs @ bs @ drop (off + length bs) xs"

definition seg :: "nat \<Rightarrow> nat \<Rightarrow> byte list \<Rightarrow> byte list" where
  "seg off n xs = take n (drop off xs)"

definition load16 :: "nat \<Rightarrow> byte list \<Rightarrow> u16" where
  "load16 off xs = of_le_bytes (seg off 2 xs)"

definition load32 :: "nat \<Rightarrow> byte list \<Rightarrow> u32" where
  "load32 off xs = of_le_bytes (seg off 4 xs)"

definition load64 :: "nat \<Rightarrow> byte list \<Rightarrow> u64" where
  "load64 off xs = of_le_bytes (seg off 8 xs)"

definition all_zero :: "byte list \<Rightarrow> bool" where
  "all_zero bs \<longleftrightarrow> list_all (\<lambda>b. b = 0) bs"

lemma length_store_at [simp]: "off + length bs \<le> length xs \<Longrightarrow> length (store_at off bs xs) = length xs"
  by (simp add: store_at_def)

lemma length_seg [simp]: "length (seg off n xs) = min n (length xs - off)"
  by (simp add: seg_def)

lemma seg_store_same: "off + n \<le> length xs \<Longrightarrow> n = length bs \<Longrightarrow> seg off n (store_at off bs xs) = bs"
  by (simp add: seg_def store_at_def)

lemma seg_store_other:
  assumes "off + length bs \<le> length xs" "o' + n \<le> off \<or> off + length bs \<le> o'"
  shows "seg o' n (store_at off bs xs) = seg o' n xs"
  using assms(2)
proof
  assume le: "o' + n \<le> off"
  show ?thesis by (rule nth_equalityI) (use assms le in \<open>auto simp: seg_def store_at_def nth_append\<close>)
next
  assume le: "off + length bs \<le> o'"
  show ?thesis by (rule nth_equalityI) (use assms le in \<open>auto simp: seg_def store_at_def nth_append\<close>)
qed

lemma seg_replicate [simp]: "seg off n (replicate k x) = replicate (min n (k - off)) x"
  by (simp add: seg_def min.commute)

lemma seg_full: "length xs = n \<Longrightarrow> seg 0 n xs = xs"
  by (simp add: seg_def)

lemma all_zero_iff: "all_zero bs \<longleftrightarrow> bs = replicate (length bs) 0"
  unfolding all_zero_def list_all_iff by (metis in_set_replicate replicate_length_same)

text \<open>Buffers of one length that agree on consecutive segments that cover them are equal.\<close>

fun covers :: "nat \<Rightarrow> (nat \<times> nat) list \<Rightarrow> nat \<Rightarrow> bool" where
  "covers a [] b \<longleftrightarrow> a = b"
| "covers a ((off, n) # ps) b \<longleftrightarrow> off = a \<and> covers (a + n) ps b"

lemma covers_drop_eq:
  "covers a ps (length xs) \<Longrightarrow> length xs = length ys \<Longrightarrow>
   list_all (\<lambda>(off, n). seg off n xs = seg off n ys) ps \<Longrightarrow> drop a xs = drop a ys"
proof (induction a ps "length xs" rule: covers.induct)
  case (2 a off n ps)
  have "drop (a + n) xs = drop (a + n) ys" using 2 by simp
  moreover have "take n (drop a xs) = take n (drop a ys)" using 2 by (simp add: seg_def)
  ultimately show ?case by (metis append_take_drop_id drop_drop add.commute)
qed simp

lemma segments_eq:
  "covers 0 ps (length xs) \<Longrightarrow> length xs = length ys \<Longrightarrow>
   list_all (\<lambda>(off, n). seg off n xs = seg off n ys) ps \<Longrightarrow> xs = ys"
  using covers_drop_eq [of 0 ps xs ys] by simp

section \<open>Sequences of writes\<close>

text \<open>Writes to a buffer in the order of the list, and what a segment holds after them.\<close>

definition stores :: "(nat \<times> byte list) list \<Rightarrow> byte list \<Rightarrow> byte list" where
  "stores ws b = fold (\<lambda>(off, bs). store_at off bs) ws b"

fun seg_after :: "nat \<Rightarrow> nat \<Rightarrow> (nat \<times> byte list) list \<Rightarrow> byte list \<Rightarrow> byte list" where
  "seg_after off n [] x = x"
| "seg_after off n ((off', bs) # ws) x = seg_after off n ws (if off' = off \<and> length bs = n then bs else x)"

lemma stores_append: "stores (ws @ vs) b = stores vs (stores ws b)"
  by (simp add: stores_def)

lemma stores_single: "stores [(off, bs)] b = store_at off bs b"
  by (simp add: stores_def)

lemma length_stores: "list_all (\<lambda>(off, bs). off + length bs \<le> length b) ws \<Longrightarrow> length (stores ws b) = length b"
  by (induction ws arbitrary: b) (auto simp: stores_def)

lemma seg_stores:
  "list_all (\<lambda>(off', bs). off' + length bs \<le> length b \<and>
     (off' = off \<and> length bs = n \<or> off + n \<le> off' \<or> off' + length bs \<le> off)) ws \<Longrightarrow>
   seg off n (stores ws b) = seg_after off n ws (seg off n b)"
proof (induction ws arbitrary: b)
  case (Cons w ws)
  obtain off' bs where w: "w = (off', bs)" by force
  have "seg off n (store_at off' bs b) = (if off' = off \<and> length bs = n then bs else seg off n b)"
    using Cons.prems by (auto simp: w seg_store_same seg_store_other)
  then show ?case using Cons by (simp add: w stores_def list_all_iff)
qed (simp add: stores_def)

end
