(* ===== verification/NativePageHeader.thy ===== *)
theory NativePageHeader
  imports UuidModel ByteCodec
begin

text \<open>
  The common header of native pages: \<^verbatim>\<open>storage/disk/native_common_page_header.{hpp,cpp}\<close>, with the page
  size profiles of \<^verbatim>\<open>storage/disk/filespace_bootstrap.{hpp,cpp}\<close>. A pointer to header bytes is the list
  of these bytes; the null pointer, which the code refuses like a wrong size, is left out.
\<close>

section \<open>Data\<close>

record canonical_filespace_page_profile =
  profile_uuid :: uuid
  profile_page_size_bytes :: u32
  profile_layout_generation :: u32
  profile_alignment_bytes :: u32

definition kCanonicalFilespacePageProfiles :: "canonical_filespace_page_profile list" where
  "kCanonicalFilespacePageProfiles =
    [\<lparr>profile_uuid = Uuid [0, 0, 0, 0, 0, 0, 0x70, 0, 0x80, 0, 0, 0, 0, 0, 0x81, 0x92],
      profile_page_size_bytes = 8192, profile_layout_generation = 1, profile_alignment_bytes = 4096\<rparr>,
     \<lparr>profile_uuid = Uuid [0, 0, 0, 0, 0, 0, 0x70, 0, 0x80, 0, 0, 0, 0, 0x01, 0x63, 0x84],
      profile_page_size_bytes = 16384, profile_layout_generation = 1, profile_alignment_bytes = 4096\<rparr>,
     \<lparr>profile_uuid = Uuid [0, 0, 0, 0, 0, 0, 0x70, 0, 0x80, 0, 0, 0, 0, 0x03, 0x27, 0x68],
      profile_page_size_bytes = 32768, profile_layout_generation = 1, profile_alignment_bytes = 4096\<rparr>,
     \<lparr>profile_uuid = Uuid [0, 0, 0, 0, 0, 0, 0x70, 0, 0x80, 0, 0, 0, 0, 0x06, 0x55, 0x36],
      profile_page_size_bytes = 65536, profile_layout_generation = 1, profile_alignment_bytes = 4096\<rparr>,
     \<lparr>profile_uuid = Uuid [0, 0, 0, 0, 0, 0, 0x70, 0, 0x80, 0, 0, 0, 0, 0x13, 0x10, 0x72],
      profile_page_size_bytes = 131072, profile_layout_generation = 1, profile_alignment_bytes = 4096\<rparr>]"

definition FindCanonicalFilespacePageProfile :: "uuid \<Rightarrow> canonical_filespace_page_profile option" where
  "FindCanonicalFilespacePageProfile u = find (\<lambda>p. profile_uuid p = u) kCanonicalFilespacePageProfiles"

definition FindCanonicalFilespacePageProfileForSize :: "u32 \<Rightarrow> canonical_filespace_page_profile option" where
  "FindCanonicalFilespacePageProfileForSize n =
    find (\<lambda>p. profile_page_size_bytes p = n) kCanonicalFilespacePageProfiles"

record native_page_reference =
  ref_filespace_uuid :: uuid
  ref_page_number :: u64
  ref_page_generation :: u64
  ref_page_size_profile_uuid :: uuid

record native_common_page_header =
  page_size_bytes :: u32
  page_type :: u32
  database_uuid :: uuid
  filespace_uuid :: uuid
  page_uuid :: uuid
  page_number :: u64
  page_generation :: u64
  page_flags :: u64
  page_size_profile_uuid :: uuid

record filespace_bootstrap_binding =
  bind_database_uuid :: uuid
  bind_filespace_uuid :: uuid
  bind_page_size_profile_uuid :: uuid

record native_common_page_header_binding =
  bind_filespace :: filespace_bootstrap_binding
  bind_page_number :: u64
  bind_page_generation :: u64
  bind_page_type :: u32
  bind_page_uuid :: "uuid option"

datatype native_header_error =
    NH_invalid_framing | NH_checksum_mismatch | NH_invalid_extension | NH_reserved_nonzero
  | NH_unknown_flags | NH_invalid_identity | NH_unsupported_profile | NH_unregistered_type
  | NH_invalid_page_number | NH_invalid_generation | NH_invalid_binding | NH_binding_mismatch
  | NH_device_not_open | NH_invalid_extent | NH_io_failure | NH_resource_exhausted

section \<open>Checks\<close>

definition V7 :: "uuid \<Rightarrow> bool" where
  "V7 u \<longleftrightarrow> uuid_bytes u ! 6 AND 0xf0 = 0x70 \<and> uuid_bytes u ! 8 AND 0xc0 = 0x80"

definition IsRegisteredNativePageType :: "u32 \<Rightarrow> bool" where
  "IsRegisteredNativePageType code \<longleftrightarrow> code \<le> 0x13 \<or> (0x100 \<le> code \<and> code \<le> 0x108) \<or>
    (0x200 \<le> code \<and> code \<le> 0x20e) \<or> (0x300 \<le> code \<and> code \<le> 0x30e) \<or>
    (0x400 \<le> code \<and> code \<le> 0x408) \<or> (0x500 \<le> code \<and> code \<le> 0x518) \<or>
    (0x600 \<le> code \<and> code \<le> 0x602) \<or> code = 0xffe \<or> code = 0xfff"

definition PageNumberValid :: "u32 \<Rightarrow> u64 \<Rightarrow> bool" where
  "PageNumberValid type page \<longleftrightarrow> (page = 0) = (type = 1 \<or> type = 2)"

definition BindingValid :: "native_common_page_header_binding \<Rightarrow> bool" where
  "BindingValid b \<longleftrightarrow>
    V7 (bind_database_uuid (bind_filespace b)) \<and> V7 (bind_filespace_uuid (bind_filespace b)) \<and>
    FindCanonicalFilespacePageProfile (bind_page_size_profile_uuid (bind_filespace b)) \<noteq> None \<and>
    bind_page_generation b \<noteq> 0 \<and> IsRegisteredNativePageType (bind_page_type b) \<and>
    PageNumberValid (bind_page_type b) (bind_page_number b) \<and>
    (case bind_page_uuid b of None \<Rightarrow> True | Some u \<Rightarrow> V7 u)"

text \<open>The checks return \<open>None\<close> where the code returns \<^verbatim>\<open>Error::none\<close>.\<close>

definition ValidateIdentity :: "native_common_page_header \<Rightarrow> native_header_error option" where
  "ValidateIdentity h =
    (if page_flags h AND NOT 15 \<noteq> 0 then Some NH_unknown_flags
     else if (case FindCanonicalFilespacePageProfile (page_size_profile_uuid h) of
                None \<Rightarrow> True | Some p \<Rightarrow> profile_page_size_bytes p \<noteq> page_size_bytes h) then Some NH_unsupported_profile
     else if \<not> V7 (database_uuid h) \<or> \<not> V7 (filespace_uuid h) \<or> \<not> V7 (page_uuid h) then Some NH_invalid_identity
     else if page_generation h = 0 then Some NH_invalid_generation
     else None)"

definition ValidateLayout :: "native_common_page_header \<Rightarrow> native_header_error option" where
  "ValidateLayout h =
    (if \<not> IsRegisteredNativePageType (page_type h) then Some NH_unregistered_type
     else if \<not> PageNumberValid (page_type h) (page_number h) then Some NH_invalid_page_number
     else None)"

definition MatchIdentity ::
  "native_common_page_header \<Rightarrow> native_common_page_header_binding \<Rightarrow> native_header_error option" where
  "MatchIdentity h b =
    (if \<not> BindingValid b then Some NH_invalid_binding
     else if database_uuid h \<noteq> bind_database_uuid (bind_filespace b) \<or>
             filespace_uuid h \<noteq> bind_filespace_uuid (bind_filespace b) \<or>
             page_size_profile_uuid h \<noteq> bind_page_size_profile_uuid (bind_filespace b) \<or>
             page_number h \<noteq> bind_page_number b \<or> page_generation h \<noteq> bind_page_generation b \<or>
             (case bind_page_uuid b of None \<Rightarrow> False | Some u \<Rightarrow> page_uuid h \<noteq> u) then Some NH_binding_mismatch
     else None)"

section \<open>Codec\<close>

text \<open>The FNV-1a checksum; bytes 96 to 103, where it is stored, count as zero.\<close>

definition checksum_input :: "byte list \<Rightarrow> byte list" where
  "checksum_input bs = map (\<lambda>(i, b). if 96 \<le> i \<and> i < 104 then 0 else b) (enumerate 0 bs)"

definition ComputeNativeCommonPageHeaderChecksum :: "byte list \<Rightarrow> u64" where
  "ComputeNativeCommonPageHeaderChecksum bs =
    fold (\<lambda>b v. (v XOR ucast b) * 1099511628211) (checksum_input bs) 14695981039346656037"

definition kPageMagic :: "byte list" where
  "kPageMagic = [0x53, 0x42, 0x50, 0x47, 0x56, 0x30, 0x30, 0x32]"

definition header_fields :: "native_common_page_header \<Rightarrow> byte list" where
  "header_fields h =
    stores [(0, kPageMagic), (8, le_bytes 4 (128 :: u32)), (12, le_bytes 4 (page_size_bytes h)),
      (16, le_bytes 4 (page_type h)), (20, le_bytes 2 (1 :: u16)), (22, le_bytes 2 (1 :: u16)),
      (24, uuid_bytes (database_uuid h)), (40, uuid_bytes (filespace_uuid h)), (56, uuid_bytes (page_uuid h)),
      (72, le_bytes 8 (page_number h)), (80, le_bytes 8 (page_generation h)), (88, le_bytes 8 (page_flags h)),
      (104, uuid_bytes (page_size_profile_uuid h)), (120, le_bytes 2 (1 :: u16))] (replicate 128 0)"

definition EncodeNativeCommonPageHeader :: "native_common_page_header \<Rightarrow> native_header_error + byte list" where
  "EncodeNativeCommonPageHeader h =
    (case ValidateIdentity h of Some e \<Rightarrow> Inl e | None \<Rightarrow>
     (case ValidateLayout h of Some e \<Rightarrow> Inl e | None \<Rightarrow>
      Inr (let b = header_fields h in store_at 96 (le_bytes 8 (ComputeNativeCommonPageHeaderChecksum b)) b)))"

definition header_of :: "byte list \<Rightarrow> native_common_page_header" where
  "header_of b =
    \<lparr>page_size_bytes = load32 12 b, page_type = load32 16 b, database_uuid = Uuid (seg 24 16 b),
     filespace_uuid = Uuid (seg 40 16 b), page_uuid = Uuid (seg 56 16 b), page_number = load64 72 b,
     page_generation = load64 80 b, page_flags = load64 88 b, page_size_profile_uuid = Uuid (seg 104 16 b)\<rparr>"

definition DecodeNativeCommonPageHeader ::
  "byte list \<Rightarrow> native_common_page_header_binding option \<Rightarrow> native_header_error + native_common_page_header" where
  "DecodeNativeCommonPageHeader b expected =
    (if length b \<noteq> 128 then Inl NH_invalid_framing
     else if seg 0 8 b \<noteq> kPageMagic \<or> load32 8 b \<noteq> 128 then Inl NH_invalid_framing
     else if load64 96 b \<noteq> ComputeNativeCommonPageHeaderChecksum b then Inl NH_checksum_mismatch
     else if load16 20 b \<noteq> 1 \<or> load16 22 b \<noteq> 1 \<or> load16 120 b \<noteq> 1 then Inl NH_invalid_extension
     else if \<not> all_zero (seg 122 6 b) then Inl NH_reserved_nonzero
     else let h = header_of b in
       case ValidateIdentity h of Some e \<Rightarrow> Inl e | None \<Rightarrow>
       (case (case expected of None \<Rightarrow> None | Some x \<Rightarrow> MatchIdentity h x) of Some e \<Rightarrow> Inl e | None \<Rightarrow>
        (case ValidateLayout h of Some e \<Rightarrow> Inl e | None \<Rightarrow>
         (if (case expected of None \<Rightarrow> False | Some x \<Rightarrow> page_type h \<noteq> bind_page_type x)
          then Inl NH_binding_mismatch else Inr h))))"


section \<open>Reading from a device\<close>

text \<open>
  The bounds of \<^verbatim>\<open>BoundedExtentError\<close> in \<^verbatim>\<open>storage/disk/disk_device.cpp\<close>; \<^verbatim>\<open>std::streamoff\<close>,
  \<^verbatim>\<open>std::streamsize\<close> and \<^verbatim>\<open>off_t\<close> are signed 64-bit types.
\<close>

datatype bounded_io_error = BIO_offset_overflow | BIO_count_overflow | BIO_extent_overflow

definition kMaxStreamOffset :: u64 where
  "kMaxStreamOffset = 0x7fffffffffffffff"

definition BoundedExtentError :: "u64 \<Rightarrow> u64 \<Rightarrow> bounded_io_error option" where
  "BoundedExtentError off n =
    (if kMaxStreamOffset < off then Some BIO_offset_overflow
     else if kMaxStreamOffset < n then Some BIO_count_overflow
     else if kMaxStreamOffset - off < n then Some BIO_extent_overflow
     else None)"

text \<open>
  The device is a parameter: whether it is open, the two observations of its size and the bytes a
  read at an offset returns, \<open>None\<close> for a failed call.
\<close>

definition ReadNativeCommonPageHeaderFromOpenDevice ::
  "bool \<Rightarrow> u64 option \<Rightarrow> (u64 \<Rightarrow> nat \<Rightarrow> byte list option) \<Rightarrow> u64 option \<Rightarrow>
   native_common_page_header_binding \<Rightarrow> native_header_error + native_common_page_header" where
  "ReadNativeCommonPageHeaderFromOpenDevice opened size_before read_at size_after expected =
    (if \<not> BindingValid expected then Inl NH_invalid_binding
     else if \<not> opened then Inl NH_device_not_open
     else case FindCanonicalFilespacePageProfile (bind_page_size_profile_uuid (bind_filespace expected)) of
       None \<Rightarrow> Inl NH_io_failure
     | Some profile \<Rightarrow>
       let size = ucast (profile_page_size_bytes profile) :: u64; page = bind_page_number expected;
           page_offset = page * size in
       if u64_max div size < page then Inl NH_invalid_extent
       else if BoundedExtentError page_offset size \<noteq> None then Inl NH_invalid_extent
       else case size_before of None \<Rightarrow> Inl NH_io_failure | Some before \<Rightarrow>
       if before mod size \<noteq> 0 \<or> before < page_offset \<or> before - page_offset < size then Inl NH_invalid_extent
       else case read_at (page_offset + (if page = 0 then 4096 else 0)) 128 of
         None \<Rightarrow> Inl NH_io_failure
       | Some bytes \<Rightarrow>
         if length bytes \<noteq> 128 then Inl NH_io_failure
         else case DecodeNativeCommonPageHeader bytes (Some expected) of Inl e \<Rightarrow> Inl e | Inr h \<Rightarrow>
         (case size_after of None \<Rightarrow> Inl NH_io_failure | Some after \<Rightarrow>
          if after \<noteq> before then Inl NH_invalid_extent else Inr h))"

section \<open>Lemmas\<close>

definition wf_header :: "native_common_page_header \<Rightarrow> bool" where
  "wf_header h \<longleftrightarrow> wf_uuid (database_uuid h) \<and> wf_uuid (filespace_uuid h) \<and> wf_uuid (page_uuid h) \<and>
    wf_uuid (page_size_profile_uuid h)"

lemma length_kPageMagic [simp]: "length kPageMagic = 8"
  by (simp add: kPageMagic_def)

lemma length_header_fields [simp]: "wf_header h \<Longrightarrow> length (header_fields h) = 128"
  by (simp add: header_fields_def wf_header_def wf_uuid_def length_stores)

lemma header_fields_segs:
  assumes "wf_header h"
  shows "seg 0 8 (header_fields h) = kPageMagic" "seg 8 4 (header_fields h) = le_bytes 4 (128 :: u32)"
    "seg 12 4 (header_fields h) = le_bytes 4 (page_size_bytes h)"
    "seg 16 4 (header_fields h) = le_bytes 4 (page_type h)"
    "seg 20 2 (header_fields h) = le_bytes 2 (1 :: u16)" "seg 22 2 (header_fields h) = le_bytes 2 (1 :: u16)"
    "seg 24 16 (header_fields h) = uuid_bytes (database_uuid h)"
    "seg 40 16 (header_fields h) = uuid_bytes (filespace_uuid h)"
    "seg 56 16 (header_fields h) = uuid_bytes (page_uuid h)"
    "seg 72 8 (header_fields h) = le_bytes 8 (page_number h)"
    "seg 80 8 (header_fields h) = le_bytes 8 (page_generation h)"
    "seg 88 8 (header_fields h) = le_bytes 8 (page_flags h)"
    "seg 104 16 (header_fields h) = uuid_bytes (page_size_profile_uuid h)"
    "seg 120 2 (header_fields h) = le_bytes 2 (1 :: u16)" "seg 122 6 (header_fields h) = replicate 6 0"
  using assms unfolding wf_header_def wf_uuid_def header_fields_def
  by (simp_all add: seg_stores)

lemma checksum_input_store:
  assumes "length bs = 128" "length x = 8"
  shows "checksum_input (store_at 96 x bs) = checksum_input bs"
proof (rule nth_equalityI)
  show "length (checksum_input (store_at 96 x bs)) = length (checksum_input bs)"
    using assms by (simp add: checksum_input_def)
  fix i
  assume "i < length (checksum_input (store_at 96 x bs))"
  then have i: "i < 128" using assms by (simp add: checksum_input_def)
  then show "checksum_input (store_at 96 x bs) ! i = checksum_input bs ! i"
    using assms by (auto simp: checksum_input_def nth_enumerate_eq store_at_def nth_append)
qed

lemma checksum_store:
  "length bs = 128 \<Longrightarrow> length x = 8 \<Longrightarrow>
   ComputeNativeCommonPageHeaderChecksum (store_at 96 x bs) = ComputeNativeCommonPageHeaderChecksum bs"
  by (simp add: ComputeNativeCommonPageHeaderChecksum_def checksum_input_store)

abbreviation header_segments :: "(nat \<times> nat) list" where
  "header_segments \<equiv> [(0, 8), (8, 4), (12, 4), (16, 4), (20, 2), (22, 2), (24, 16), (40, 16), (56, 16), (72, 8),
    (80, 8), (88, 8), (96, 8), (104, 16), (120, 2), (122, 6)]"

text \<open>The frame checks of the decoder hold of an image exactly when it is the image of its header.\<close>

definition framed :: "byte list \<Rightarrow> bool" where
  "framed b \<longleftrightarrow> length b = 128 \<and> seg 0 8 b = kPageMagic \<and> load32 8 b = 128 \<and>
    load64 96 b = ComputeNativeCommonPageHeaderChecksum b \<and> load16 20 b = 1 \<and> load16 22 b = 1 \<and> load16 120 b = 1 \<and>
    all_zero (seg 122 6 b)"

definition header_image :: "native_common_page_header \<Rightarrow> byte list" where
  "header_image h =
    store_at 96 (le_bytes 8 (ComputeNativeCommonPageHeaderChecksum (header_fields h))) (header_fields h)"

lemma header_of_fields [simp]:
  "page_size_bytes (header_of b) = load32 12 b" "page_type (header_of b) = load32 16 b"
  "database_uuid (header_of b) = Uuid (seg 24 16 b)" "filespace_uuid (header_of b) = Uuid (seg 40 16 b)"
  "page_uuid (header_of b) = Uuid (seg 56 16 b)" "page_number (header_of b) = load64 72 b"
  "page_generation (header_of b) = load64 80 b" "page_flags (header_of b) = load64 88 b"
  "page_size_profile_uuid (header_of b) = Uuid (seg 104 16 b)"
  by (simp_all add: header_of_def)

lemma wf_header_of: "length b = 128 \<Longrightarrow> wf_header (header_of b)"
  by (simp add: wf_header_def header_of_def wf_uuid_def)

lemma le_bytes_load:
  "off + 2 \<le> length b \<Longrightarrow> le_bytes 2 (load16 off b) = seg off 2 b"
  "off + 4 \<le> length b \<Longrightarrow> le_bytes 4 (load32 off b) = seg off 4 b"
  "off + 8 \<le> length b \<Longrightarrow> le_bytes 8 (load64 off b) = seg off 8 b"
  by (simp_all add: load16_def load32_def load64_def le_bytes_round)

lemma image_framed:
  assumes h: "wf_header h"
  shows "framed (header_image h)" "header_of (header_image h) = h"
proof -
  note segs = header_fields_segs [OF h]
  have o: "seg off n (header_image h) = seg off n (header_fields h)" if "off + n \<le> 96 \<or> 104 \<le> off" for off n
    using that h by (simp add: header_image_def seg_store_other)
  have c: "seg 96 8 (header_image h) = le_bytes 8 (ComputeNativeCommonPageHeaderChecksum (header_fields h))"
    using h by (simp add: header_image_def seg_store_same)
  have k: "ComputeNativeCommonPageHeaderChecksum (header_image h) =
      ComputeNativeCommonPageHeaderChecksum (header_fields h)"
    using h by (simp add: header_image_def checksum_store)
  show "framed (header_image h)"
    using h by (simp add: framed_def o c k segs load16_def load32_def load64_def all_zero_iff)
      (simp add: header_image_def)
  show "header_of (header_image h) = h"
    by (simp add: header_of_def o segs load32_def load64_def)
qed

lemma framed_image:
  assumes f: "framed b"
  shows "header_image (header_of b) = b"
proof -
  let ?h = "header_of b"
  have l: "length b = 128" and h: "wf_header ?h" using f wf_header_of by (auto simp: framed_def)
  note segs = header_fields_segs [OF h]
  have r: "seg 8 4 b = le_bytes 4 (128 :: u32)" "seg 20 2 b = le_bytes 2 (1 :: u16)" "seg 22 2 b = le_bytes 2 (1 :: u16)"
    "seg 120 2 b = le_bytes 2 (1 :: u16)" "seg 122 6 b = replicate 6 0" "seg 0 8 b = kPageMagic"
    using f l by (auto simp: framed_def all_zero_iff simp flip: le_bytes_load)
  have eq: "store_at 96 (seg 96 8 b) (header_fields ?h) = b"
    by (rule segments_eq [of header_segments])
      (use l h in \<open>simp_all add: seg_store_same seg_store_other segs r le_bytes_load\<close>)
  then have "ComputeNativeCommonPageHeaderChecksum (header_fields ?h) = ComputeNativeCommonPageHeaderChecksum b"
    using checksum_store [of "header_fields ?h" "seg 96 8 b"] l h by simp
  moreover have "le_bytes 8 (ComputeNativeCommonPageHeaderChecksum b) = seg 96 8 b"
    using f l le_bytes_load(3) [of 96 b] by (simp add: framed_def)
  ultimately show ?thesis using eq by (simp add: header_image_def)
qed


lemma Decode_frame:
  "DecodeNativeCommonPageHeader b None = Inr h \<longleftrightarrow>
    framed b \<and> h = header_of b \<and> ValidateIdentity h = None \<and> ValidateLayout h = None"
  by (auto simp: DecodeNativeCommonPageHeader_def framed_def Let_def split: option.splits)

lemma Encode_image:
  "EncodeNativeCommonPageHeader h = Inr b \<longleftrightarrow>
    ValidateIdentity h = None \<and> ValidateLayout h = None \<and> b = header_image h"
  by (auto simp: EncodeNativeCommonPageHeader_def header_image_def Let_def split: option.splits)

lemma header_codec:
  "DecodeNativeCommonPageHeader b None = Inr h \<longleftrightarrow> wf_header h \<and> EncodeNativeCommonPageHeader h = Inr b"
  using framed_image [of b] image_framed [of h] wf_header_of [of b]
  by (auto simp: Decode_frame Encode_image framed_def)

text \<open>What a binding pins down.\<close>

definition binds :: "native_common_page_header_binding \<Rightarrow> native_common_page_header \<Rightarrow> bool" where
  "binds x h \<longleftrightarrow> database_uuid h = bind_database_uuid (bind_filespace x) \<and>
    filespace_uuid h = bind_filespace_uuid (bind_filespace x) \<and>
    page_size_profile_uuid h = bind_page_size_profile_uuid (bind_filespace x) \<and>
    page_number h = bind_page_number x \<and> page_generation h = bind_page_generation x \<and>
    page_type h = bind_page_type x \<and> (case bind_page_uuid x of None \<Rightarrow> True | Some u \<Rightarrow> page_uuid h = u)"

lemma Decode_bound:
  "DecodeNativeCommonPageHeader b (Some x) = Inr h \<longleftrightarrow>
    DecodeNativeCommonPageHeader b None = Inr h \<and> BindingValid x \<and> binds x h"
  unfolding Decode_frame
  by (auto simp: DecodeNativeCommonPageHeader_def framed_def Let_def MatchIdentity_def binds_def
      split: option.splits if_splits)

section \<open>Properties\<close>

text \<open>
  C16. The page header has one image. Bytes decode to a header exactly when they are what that header
  encodes to: every encoded header decodes to itself, and no second image, with other reserved bytes,
  framing or checksum, decodes at all. With an expected binding exactly the images whose header has
  the bound database, filespace, page size profile, number, generation, type and, where given, page
  identity are accepted.
\<close>

theorem page_header_codec_is_exact:
  "(DecodeNativeCommonPageHeader b None = Inr h \<longleftrightarrow>
     wf_header h \<and> EncodeNativeCommonPageHeader h = Inr b)
   \<and> (DecodeNativeCommonPageHeader b (Some x) = Inr h \<longleftrightarrow>
     wf_header h \<and> EncodeNativeCommonPageHeader h = Inr b \<and> BindingValid x \<and> binds x h)"
  by (simp add: Decode_bound header_codec)

end
