(* ===== verification/InventoryPage.thy ===== *)
theory InventoryPage
  imports TransactionHorizon NativePageHeader
begin

text \<open>
  The native inventory page of \<^verbatim>\<open>storage/page/transaction_inventory_page.{hpp,cpp}\<close>: the image in which a
  page of the transaction inventory is stored and read back. SHA-256 is a parameter: the digest of
  the concatenated parts, or \<open>None\<close> when the provider fails. Exhausted memory, alignment and overlap of
  caller-owned buffers are left out. A state or scope code without an enumerator is read as
  \<open>TS_none\<close> or \<open>Scope_unknown\<close>, which the structural validation refuses just as it refuses the code.
\<close>

unbundle bit_operations_syntax

section \<open>Data\<close>

record native_transaction_inventory_page =
  ip_header :: native_common_page_header
  ip_object_uuid :: uuid
  ip_inventory_generation :: u64
  ip_previous :: "native_page_reference option"
  ip_next :: "native_page_reference option"
  ip_inventory :: local_transaction_inventory

datatype native_inventory_error =
    NI_invalid_header | NI_invalid_family | NI_invalid_reference | NI_invalid_inventory
  | NI_invalid_integrity | NI_hash_failure | NI_resource_exhausted | NI_invalid_filespace
  | NI_binding_mismatch | NI_io_failure | NI_encrypted_requires_crypto_authority | NI_chain_mismatch
  | NI_invalid_backing

type_synonym sha256 = "byte list \<Rightarrow> byte list option"

section \<open>Codes of an entry\<close>

fun state_code :: "transaction_state \<Rightarrow> u16" where
  "state_code TS_none = 0" | "state_code TS_created = 1" | "state_code TS_active = 2"
| "state_code TS_preparing = 3" | "state_code TS_prepared = 4" | "state_code TS_committing = 5"
| "state_code TS_committed = 6" | "state_code TS_rolling_back = 7" | "state_code TS_rolled_back = 8"
| "state_code TS_limbo = 9" | "state_code TS_recovering = 10" | "state_code TS_failed_terminal = 11"
| "state_code TS_archived = 12" | "state_code TS_read_only_active = 13"

definition state_of_code :: "u16 \<Rightarrow> transaction_state" where
  "state_of_code c =
    (if c = 1 then TS_created else if c = 2 then TS_active else if c = 3 then TS_preparing
     else if c = 4 then TS_prepared else if c = 5 then TS_committing else if c = 6 then TS_committed
     else if c = 7 then TS_rolling_back else if c = 8 then TS_rolled_back else if c = 9 then TS_limbo
     else if c = 10 then TS_recovering else if c = 11 then TS_failed_terminal
     else if c = 12 then TS_archived else if c = 13 then TS_read_only_active else TS_none)"

fun scope_code :: "transaction_scope \<Rightarrow> u16" where
  "scope_code Scope_local_node = 0" | "scope_code Scope_cluster_global = 1" | "scope_code Scope_unknown = 2"

definition scope_of_code :: "u16 \<Rightarrow> transaction_scope" where
  "scope_of_code c = (if c = 0 then Scope_local_node else if c = 1 then Scope_cluster_global else Scope_unknown)"

definition archive_origin :: "transaction_state \<Rightarrow> u32" where
  "archive_origin s = (if s = TS_committed then 1 else if s = TS_rolled_back then 2
    else if s = TS_failed_terminal then 3 else 0)"

definition origin_state :: "u32 \<Rightarrow> transaction_state" where
  "origin_state c = (if c = 1 then TS_committed else if c = 2 then TS_rolled_back
    else if c = 3 then TS_failed_terminal else TS_none)"

definition EntryFlags :: "transaction_inventory_entry \<Rightarrow> u32" where
  "EntryFlags e =
    (if evidence_record_required e then 1 else 0) OR (if evidence_record_written e then 2 else 0) OR
    (if rollback_only e then 4 else 0) OR (if stable_snapshot e then 32 else 0) OR
    push_bit 3 (archive_origin (archived_from_state e))"

section \<open>One entry\<close>

definition kEntryBytes :: nat where
  "kEntryBytes = 72"

text \<open>The fields of an entry fill its 72 bytes without a gap, in the order of their offsets.\<close>

definition entry_bytes :: "transaction_inventory_entry \<Rightarrow> byte list" where
  "entry_bytes e =
    le_bytes 8 (entry_id e) @ uuid_bytes (entry_uuid e) @ le_bytes 2 (scope_code (scope (identity e))) @
    le_bytes 2 (state_code (entry_state e)) @ le_bytes 4 (EntryFlags e) @
    le_bytes 8 (begin_unix_epoch_millis e) @ le_bytes 8 (final_unix_epoch_millis e) @
    le_bytes 8 (begin_visible_through_local_transaction_id e) @
    le_bytes 8 (begin_visible_through_commit_sequence e) @ le_bytes 8 (commit_sequence e)"

text \<open>Reading the entry that starts at an offset; \<open>None\<close> when an unknown flag is set.\<close>

definition decoded_entry :: "nat \<Rightarrow> byte list \<Rightarrow> u32 \<Rightarrow> transaction_inventory_entry" where
  "decoded_entry off b flags =
    \<lparr>identity = \<lparr>local_id = load64 off b,
       transaction_uuid = \<lparr>uuid_kind = UK_transaction, uuid_value = Uuid (seg (off + 8) 16 b)\<rparr>,
       scope = scope_of_code (load16 (off + 24) b)\<rparr>,
     entry_state = state_of_code (load16 (off + 26) b),
     archived_from_state = origin_state (drop_bit 3 flags AND 3),
     begin_unix_epoch_millis = load64 (off + 32) b, final_unix_epoch_millis = load64 (off + 40) b,
     begin_visible_through_local_transaction_id = load64 (off + 48) b,
     begin_visible_through_commit_sequence = load64 (off + 56) b,
     commit_sequence = load64 (off + 64) b,
     evidence_record_required = (flags AND 1 \<noteq> 0), evidence_record_written = (flags AND 2 \<noteq> 0),
     rollback_only = (flags AND 4 \<noteq> 0), stable_snapshot = (flags AND 32 \<noteq> 0)\<rparr>"

definition entry_at :: "nat \<Rightarrow> byte list \<Rightarrow> transaction_inventory_entry option" where
  "entry_at off b =
    (let flags = load32 (off + 28) b in
     if flags AND NOT 63 \<noteq> 0 then None else Some (decoded_entry off b flags))"

fun entries_at :: "nat \<Rightarrow> nat \<Rightarrow> byte list \<Rightarrow> transaction_inventory_entry list option" where
  "entries_at off 0 b = Some []"
| "entries_at off (Suc n) b =
    (case entry_at off b of None \<Rightarrow> None
     | Some e \<Rightarrow> map_option ((#) e) (entries_at (off + kEntryBytes) n b))"

section \<open>References\<close>

definition ref_bytes :: "native_page_reference \<Rightarrow> byte list" where
  "ref_bytes r = uuid_bytes (ref_filespace_uuid r) @ le_bytes 8 (ref_page_number r) @
    le_bytes 8 (ref_page_generation r) @ uuid_bytes (ref_page_size_profile_uuid r)"

definition ref_at :: "nat \<Rightarrow> byte list \<Rightarrow> native_page_reference" where
  "ref_at off b = \<lparr>ref_filespace_uuid = Uuid (seg off 16 b), ref_page_number = load64 (off + 16) b,
    ref_page_generation = load64 (off + 24) b, ref_page_size_profile_uuid = Uuid (seg (off + 32) 16 b)\<rparr>"

definition RefValid :: "native_page_reference \<Rightarrow> bool" where
  "RefValid r \<longleftrightarrow> IsEngineIdentityUuid (ref_filespace_uuid r) \<and> ref_page_number r \<noteq> 0 \<and>
    ref_page_generation r \<noteq> 0 \<and>
    (case FindCanonicalFilespacePageProfile (ref_page_size_profile_uuid r) of None \<Rightarrow> False
     | Some p \<Rightarrow> let size = ucast (profile_page_size_bytes p) :: u64 in
         ref_page_number r < u64_max div size \<and> BoundedExtentError (ref_page_number r * size) size = None)"

definition SameSlot :: "native_page_reference \<Rightarrow> native_page_reference \<Rightarrow> bool" where
  "SameSlot a b \<longleftrightarrow> ref_filespace_uuid a = ref_filespace_uuid b \<and> ref_page_number a = ref_page_number b"

definition ProfilesAgree :: "native_page_reference \<Rightarrow> native_page_reference \<Rightarrow> bool" where
  "ProfilesAgree a b \<longleftrightarrow> ref_filespace_uuid a \<noteq> ref_filespace_uuid b \<or>
    ref_page_size_profile_uuid a = ref_page_size_profile_uuid b"

definition Self :: "native_transaction_inventory_page \<Rightarrow> native_page_reference" where
  "Self p = \<lparr>ref_filespace_uuid = filespace_uuid (ip_header p), ref_page_number = page_number (ip_header p),
    ref_page_generation = page_generation (ip_header p),
    ref_page_size_profile_uuid = page_size_profile_uuid (ip_header p)\<rparr>"

section \<open>Validation\<close>

definition neighbour_ok :: "native_page_reference \<Rightarrow> native_page_reference option \<Rightarrow> bool" where
  "neighbour_ok self n = (case n of None \<Rightarrow> True
    | Some r \<Rightarrow> RefValid r \<and> \<not> SameSlot self r \<and> ProfilesAgree self r)"

fun ascending_from :: "u64 \<Rightarrow> transaction_inventory_entry list \<Rightarrow> bool" where
  "ascending_from prior [] \<longleftrightarrow> True"
| "ascending_from prior (e # es) \<longleftrightarrow> prior < entry_id e \<and> ascending_from (entry_id e) es"

definition Validate ::
  "native_transaction_inventory_page \<Rightarrow> (local_transaction_inventory \<Rightarrow> string) \<Rightarrow> native_inventory_error option" where
  "Validate p validate_inventory =
    (if (case EncodeNativeCommonPageHeader (ip_header p) of Inl _ \<Rightarrow> True | Inr _ \<Rightarrow> False) \<or>
        page_type (ip_header p) \<noteq> 0x0301 then Some NI_invalid_header
     else if \<not> IsEngineIdentityUuid (ip_object_uuid p) \<or> ip_inventory_generation p = 0 \<or>
             (unat (page_size_bytes (ip_header p)) - 384) div kEntryBytes < length (entries (ip_inventory p))
       then Some NI_invalid_family
     else if \<not> RefValid (Self p) then Some NI_invalid_reference
     else if \<not> neighbour_ok (Self p) (ip_previous p) \<or> \<not> neighbour_ok (Self p) (ip_next p)
       then Some NI_invalid_reference
     else if (case (ip_previous p, ip_next p) of (Some a, Some b) \<Rightarrow> SameSlot a b \<or> \<not> ProfilesAgree a b | _ \<Rightarrow> False)
       then Some NI_invalid_reference
     else if validate_inventory (ip_inventory p) \<noteq> '''' then Some NI_invalid_inventory
     else if \<not> ascending_from 0 (entries (ip_inventory p)) then Some NI_invalid_inventory
     else None)"

section \<open>Images\<close>

definition kInventoryMagic :: "byte list" where
  "kInventoryMagic = [0x53, 0x42, 0x54, 0x49, 0x4e, 0x56, 0x30, 0x31]"

definition Digest :: "sha256 \<Rightarrow> byte list \<Rightarrow> byte list option" where
  "Digest sha bytes = sha (take 320 bytes @ replicate 32 0 @ drop 352 bytes)"

text \<open>The loop that writes the entries one after the other.\<close>

fun put_entries :: "nat \<Rightarrow> transaction_inventory_entry list \<Rightarrow> byte list \<Rightarrow> byte list" where
  "put_entries off [] b = b"
| "put_entries off (e # es) b = put_entries (off + kEntryBytes) es (store_at off (entry_bytes e) b)"

definition ref_write :: "nat \<Rightarrow> native_page_reference option \<Rightarrow> (nat \<times> byte list) list" where
  "ref_write off r = (case r of None \<Rightarrow> [] | Some r \<Rightarrow> [(off, ref_bytes r)])"

definition page_writes ::
  "native_transaction_inventory_page \<Rightarrow> local_transaction_horizons \<Rightarrow> byte list \<Rightarrow> (nat \<times> byte list) list" where
  "page_writes p h header =
    (let ivt = ip_inventory p in
     [(0, header), (128, kInventoryMagic), (136, le_bytes 2 (1 :: u16)), (138, le_bytes 2 (256 :: u16)),
      (140, le_bytes 4 (of_nat (384 + kEntryBytes * length (entries ivt)) :: u32)),
      (144, uuid_bytes (ip_object_uuid p)), (160, le_bytes 8 (ip_inventory_generation p)),
      (168, le_bytes 8 (next_local_transaction_id ivt)), (176, le_bytes 8 (next_commit_sequence ivt)),
      (184, le_bytes 4 (of_nat (length (entries ivt)) :: u32))] @
     ref_write 192 (ip_previous p) @ ref_write 240 (ip_next p) @
     [(288, le_bytes 8 (oldest_interesting_transaction h)), (296, le_bytes 8 (oldest_active_transaction h)),
      (304, le_bytes 8 (oldest_snapshot_transaction h))])"

definition page_fields ::
  "native_transaction_inventory_page \<Rightarrow> local_transaction_horizons \<Rightarrow> byte list \<Rightarrow> byte list" where
  "page_fields p h header =
    put_entries 384 (entries (ip_inventory p))
      (stores (page_writes p h header) (replicate (unat (page_size_bytes (ip_header p))) 0))"

definition EncodeValues ::
  "sha256 \<Rightarrow> native_transaction_inventory_page \<Rightarrow> local_transaction_horizons \<Rightarrow> native_inventory_error + byte list" where
  "EncodeValues sha p h =
    (case EncodeNativeCommonPageHeader (ip_header p) of Inl _ \<Rightarrow> Inl NI_invalid_header
     | Inr header \<Rightarrow>
       (let b = page_fields p h header in
        case Digest sha b of None \<Rightarrow> Inl NI_hash_failure | Some d \<Rightarrow> Inr (store_at 320 d b)))"

definition EncodeNativeTransactionInventoryPage ::
  "sha256 \<Rightarrow> native_transaction_inventory_page \<Rightarrow>
   native_inventory_error + native_transaction_inventory_page \<times> byte list" where
  "EncodeNativeTransactionInventoryPage sha p =
    (case Validate p ValidateLocalTransactionInventoryStructure of Some e \<Rightarrow> Inl e | None \<Rightarrow>
     (case ComputeLocalTransactionHorizons (ip_inventory p) of Inl _ \<Rightarrow> Inl NI_invalid_inventory
      | Inr h \<Rightarrow>
        (case EncodeValues sha p h of Inl e \<Rightarrow> Inl e
         | Inr b \<Rightarrow> Inr (p\<lparr>ip_inventory := (ip_inventory p)\<lparr>publication_base := None\<rparr>\<rparr>, b))))"

text \<open>
  The decoder of an owning page and of a view on a caller's buffer share their code; \<open>capacity\<close> is the
  number of entries the buffer holds, \<open>None\<close> for the owning page, whose vector grows. Below are the
  checks of the family header, and the page its fields and the entries make up.
\<close>

definition family_ok :: "byte list \<Rightarrow> nat \<Rightarrow> bool" where
  "family_ok bytes count \<longleftrightarrow>
    seg 128 8 bytes = kInventoryMagic \<and> load16 136 bytes = 1 \<and> load16 138 bytes = 256 \<and>
    count \<le> (length bytes - 384) div kEntryBytes \<and> unat (load32 140 bytes) = 384 + kEntryBytes * count \<and>
    all_zero (seg 188 4 bytes) \<and> all_zero (seg 312 8 bytes) \<and> all_zero (seg 352 32 bytes) \<and>
    all_zero (drop (384 + kEntryBytes * count) bytes)"

definition decoded_page ::
  "native_common_page_header \<Rightarrow> transaction_inventory_entry list \<Rightarrow> byte list \<Rightarrow> native_transaction_inventory_page" where
  "decoded_page header es bytes =
    \<lparr>ip_header = header, ip_object_uuid = Uuid (seg 144 16 bytes), ip_inventory_generation = load64 160 bytes,
     ip_previous = (if all_zero (seg 192 48 bytes) then None else Some (ref_at 192 bytes)),
     ip_next = (if all_zero (seg 240 48 bytes) then None else Some (ref_at 240 bytes)),
     ip_inventory = \<lparr>next_local_transaction_id = load64 168 bytes, next_commit_sequence = load64 176 bytes,
                     entries = es, publication_base = None\<rparr>\<rparr>"

definition horizons_stored :: "byte list \<Rightarrow> local_transaction_horizons \<Rightarrow> bool" where
  "horizons_stored bytes h \<longleftrightarrow> load64 288 bytes = oldest_interesting_transaction h \<and>
    load64 296 bytes = oldest_active_transaction h \<and> load64 304 bytes = oldest_snapshot_transaction h"

definition DecodeInventoryValues ::
  "sha256 \<Rightarrow> byte list \<Rightarrow> nat option \<Rightarrow> (local_transaction_inventory \<Rightarrow> string) \<Rightarrow>
   native_inventory_error + native_transaction_inventory_page" where
  "DecodeInventoryValues sha bytes capacity validate_inventory =
    (case DecodeNativeCommonPageHeader (take (min (length bytes) 128) bytes) None of
       Inl _ \<Rightarrow> Inl NI_invalid_header
     | Inr header \<Rightarrow>
       if page_type header \<noteq> 0x0301 \<or> length bytes \<noteq> unat (page_size_bytes header) then Inl NI_invalid_header
       else case Digest sha bytes of None \<Rightarrow> Inl NI_hash_failure | Some d \<Rightarrow>
       if d \<noteq> seg 320 32 bytes then Inl NI_invalid_integrity
       else if \<not> family_ok bytes (unat (load32 184 bytes)) then Inl NI_invalid_family
       else if (case capacity of None \<Rightarrow> False | Some c \<Rightarrow> c < unat (load32 184 bytes)) then Inl NI_resource_exhausted
       else case entries_at 384 (unat (load32 184 bytes)) bytes of None \<Rightarrow> Inl NI_invalid_inventory | Some es \<Rightarrow>
       let p = decoded_page header es bytes in
       case Validate p validate_inventory of Some e \<Rightarrow> Inl e | None \<Rightarrow>
       (case ProjectValidatedLocalHorizons (ip_inventory p) [] of Inl _ \<Rightarrow> Inl NI_invalid_inventory
        | Inr h \<Rightarrow> if horizons_stored bytes h then Inr p else Inl NI_invalid_inventory))"

definition DecodeNativeTransactionInventoryPage ::
  "sha256 \<Rightarrow> byte list \<Rightarrow> native_inventory_error + native_transaction_inventory_page \<times> byte list" where
  "DecodeNativeTransactionInventoryPage sha bytes =
    (case DecodeInventoryValues sha bytes None ValidateLocalTransactionInventoryStructure of
       Inl e \<Rightarrow> Inl e | Inr p \<Rightarrow> Inr (p, bytes))"


section \<open>Lemmas: entries\<close>

lemma seg_seg: "k + n \<le> m \<Longrightarrow> seg (off + k) n b = seg k n (seg off m b)"
proof -
  assume "k + n \<le> m"
  then have "min n (m - k) = n" by simp
  then show ?thesis by (simp add: seg_def drop_take add.commute)
qed

lemma seg_append:
  "seg off n (xs @ ys) = (if off + n \<le> length xs then seg off n xs
     else if length xs \<le> off then seg (off - length xs) n ys
     else drop off xs @ take (n + off - length xs) ys)"
  by (auto simp: seg_def)

definition wf_entry :: "transaction_inventory_entry \<Rightarrow> bool" where
  "wf_entry e \<longleftrightarrow> wf_uuid (entry_uuid e) \<and> uuid_kind (transaction_uuid (identity e)) = UK_transaction"

text \<open>The entries whose codes determine them: those the structural validation lets through.\<close>

definition coded_entry :: "transaction_inventory_entry \<Rightarrow> bool" where
  "coded_entry e \<longleftrightarrow> entry_state e \<noteq> TS_none \<and> scope (identity e) \<noteq> Scope_unknown \<and>
    archived_from_state e \<in> {TS_none, TS_committed, TS_rolled_back, TS_failed_terminal}"

lemma state_of_state_code [simp]: "state_of_code (state_code s) = s"
  by (cases s) (simp_all add: state_of_code_def)

lemma state_code_of_code: "state_of_code c \<noteq> TS_none \<Longrightarrow> state_code (state_of_code c) = c"
  by (auto simp: state_of_code_def split: if_splits)

lemma scope_of_scope_code [simp]: "scope_of_code (scope_code s) = s"
  by (cases s) (simp_all add: scope_of_code_def)

lemma scope_code_of_code: "scope_of_code c \<noteq> Scope_unknown \<Longrightarrow> scope_code (scope_of_code c) = c"
  by (auto simp: scope_of_code_def split: if_splits)

lemma flags_decode:
  assumes "archived_from_state e \<in> {TS_none, TS_committed, TS_rolled_back, TS_failed_terminal}"
  shows "EntryFlags e AND NOT 63 = 0" "(EntryFlags e AND 1 \<noteq> 0) = evidence_record_required e"
    "(EntryFlags e AND 2 \<noteq> 0) = evidence_record_written e" "(EntryFlags e AND 4 \<noteq> 0) = rollback_only e"
    "(EntryFlags e AND 32 \<noteq> 0) = stable_snapshot e"
    "origin_state (drop_bit 3 (EntryFlags e) AND 3) = archived_from_state e"
  using assms unfolding EntryFlags_def archive_origin_def origin_state_def
  by (cases "evidence_record_required e"; cases "evidence_record_written e"; cases "rollback_only e";
      cases "stable_snapshot e"; auto)+

lemma flags_below: "f AND NOT 63 = 0 \<Longrightarrow> \<exists>k < 64. f = of_nat k" for f :: u32
proof -
  assume z: "f AND NOT 63 = 0"
  have m: "(63 :: u32) = mask 6" by (simp add: mask_eq_exp_minus_1)
  have "\<not> bit (f AND NOT (mask 6)) n" for n using z unfolding m by simp
  then have "take_bit 6 f = f" by (intro bit_word_eqI) (auto simp: bit_simps)
  then have "take_bit 6 (unat f) = unat f" by (metis unsigned_take_bit_eq)
  then have "unat f < 64" using take_bit_nat_less_exp [of 6 "unat f"] by simp
  then show ?thesis by (intro exI [of _ "unat f"]) simp
qed

text \<open>The flags an entry gets whose flags were read from a word.\<close>

definition recoded_flags :: "u32 \<Rightarrow> u32" where
  "recoded_flags f =
     (if f AND 1 \<noteq> 0 then 1 else 0) OR (if f AND 2 \<noteq> 0 then 2 else 0) OR (if f AND 4 \<noteq> 0 then 4 else 0) OR
     (if f AND 32 \<noteq> 0 then 32 else 0) OR push_bit 3 (archive_origin (origin_state (drop_bit 3 f AND 3)))"

lemma recoded_table: "list_all (\<lambda>k. recoded_flags (of_nat k) = of_nat k) [0..<64]"
  by code_simp

lemma recoded_flags: "f AND NOT 63 = 0 \<Longrightarrow> recoded_flags f = f"
  using flags_below [of f] recoded_table by (auto simp: list_all_iff)

lemma length_entry_bytes [simp]: "wf_entry e \<Longrightarrow> length (entry_bytes e) = 72"
  by (simp add: entry_bytes_def wf_entry_def wf_uuid_def)

lemma entry_at_bytes:
  assumes b: "seg off 72 b = entry_bytes e" and w: "wf_entry e" and c: "coded_entry e"
  shows "entry_at off b = Some e"
proof -
  have u: "length (uuid_bytes (entry_uuid e)) = 16" using w by (simp add: wf_entry_def wf_uuid_def)
  have s: "seg (off + k) n b = seg k n (entry_bytes e)" if "k + n \<le> 72" for k n
    using seg_seg [OF that, of off b] b by simp
  have f: "seg off 8 b = le_bytes 8 (entry_id e)" "seg (off + 8) 16 b = uuid_bytes (entry_uuid e)"
    "seg (off + 24) 2 b = le_bytes 2 (scope_code (scope (identity e)))"
    "seg (off + 26) 2 b = le_bytes 2 (state_code (entry_state e))" "seg (off + 28) 4 b = le_bytes 4 (EntryFlags e)"
    "seg (off + 32) 8 b = le_bytes 8 (begin_unix_epoch_millis e)"
    "seg (off + 40) 8 b = le_bytes 8 (final_unix_epoch_millis e)"
    "seg (off + 48) 8 b = le_bytes 8 (begin_visible_through_local_transaction_id e)"
    "seg (off + 56) 8 b = le_bytes 8 (begin_visible_through_commit_sequence e)"
    "seg (off + 64) 8 b = le_bytes 8 (commit_sequence e)"
    using s [of 0 8] by (simp_all add: s) (simp_all add: entry_bytes_def seg_def u)
  have "archived_from_state e \<in> {TS_none, TS_committed, TS_rolled_back, TS_failed_terminal}"
    using c by (simp add: coded_entry_def)
  note fl = flags_decode [OF this]
  show ?thesis
    using w by (simp add: entry_at_def decoded_entry_def load64_def load32_def load16_def f fl fl(1) [simplified] Let_def wf_entry_def)
qed

abbreviation entry_segments :: "(nat \<times> nat) list" where
  "entry_segments \<equiv> [(0, 8), (8, 16), (24, 2), (26, 2), (28, 4), (32, 8), (40, 8), (48, 8), (56, 8), (64, 8)]"

lemma entry_bytes_at:
  assumes e: "entry_at off b = Some e" and l: "off + 72 \<le> length b" and c: "coded_entry e"
  shows "entry_bytes e = seg off 72 b" "wf_entry e"
proof -
  have z: "load32 (off + 28) b AND NOT 63 = 0" and d: "e = decoded_entry off b (load32 (off + 28) b)"
    using e by (auto simp: entry_at_def Let_def split: if_splits)
  have k: "state_code (entry_state e) = load16 (off + 26) b" "scope_code (scope (identity e)) = load16 (off + 24) b"
    using c state_code_of_code scope_code_of_code by (auto simp: coded_entry_def d decoded_entry_def)
  have "EntryFlags e = recoded_flags (load32 (off + 28) b)"
    unfolding d EntryFlags_def recoded_flags_def decoded_entry_def
    by (simp only: transaction_inventory_entry.simps)
  then have fl: "EntryFlags e = load32 (off + 28) b" using recoded_flags [OF z] by simp
  show w: "wf_entry e" using l by (simp add: d decoded_entry_def wf_entry_def wf_uuid_def)
  have f: "entry_id e = load64 off b" "entry_uuid e = Uuid (seg (off + 8) 16 b)"
    "begin_unix_epoch_millis e = load64 (off + 32) b" "final_unix_epoch_millis e = load64 (off + 40) b"
    "begin_visible_through_local_transaction_id e = load64 (off + 48) b"
    "begin_visible_through_commit_sequence e = load64 (off + 56) b" "commit_sequence e = load64 (off + 64) b"
    by (simp_all add: d decoded_entry_def)
  have u: "length (uuid_bytes (entry_uuid e)) = 16" using w by (simp add: wf_entry_def wf_uuid_def)
  show "entry_bytes e = seg off 72 b"
  proof (rule segments_eq [of entry_segments])
    have s: "seg k n (seg off 72 b) = seg (off + k) n b" if "k + n \<le> 72" for k n
      using seg_seg [OF that, of off b] by simp
    show "list_all (\<lambda>(o', n). seg o' n (entry_bytes e) = seg o' n (seg off 72 b)) entry_segments"
      using l by (simp add: s) (simp add: entry_bytes_def seg_def u fl k f le_bytes_load [unfolded seg_def])
  qed (use w l in simp_all)
qed


lemma length_entries_bytes: "list_all wf_entry es \<Longrightarrow> length (concat (map entry_bytes es)) = 72 * length es"
  by (induction es) auto

lemma store_at_append:
  "off + length xs + length ys \<le> length b \<Longrightarrow>
   store_at (off + length xs) ys (store_at off xs b) = store_at off (xs @ ys) b"
  by (simp add: store_at_def drop_append ac_simps)

lemma put_entries_eq:
  "list_all wf_entry es \<Longrightarrow> off + 72 * length es \<le> length b \<Longrightarrow>
   put_entries off es b = store_at off (concat (map entry_bytes es)) b"
proof (induction off es b rule: put_entries.induct)
  case (1 off b)
  then show ?case by (simp add: store_at_def)
next
  case (2 off e es b)
  then have l: "length (entry_bytes e) = 72" "length (concat (map entry_bytes es)) = 72 * length es"
    by (simp_all add: length_entries_bytes)
  then show ?case
    using 2 store_at_append [of off "entry_bytes e" "concat (map entry_bytes es)" b] by (simp add: kEntryBytes_def)
qed

lemma entries_at_bytes:
  "seg off (72 * length es) b = concat (map entry_bytes es) \<Longrightarrow> list_all wf_entry es \<Longrightarrow> list_all coded_entry es \<Longrightarrow>
   entries_at off (length es) b = Some es"
proof (induction es arbitrary: off)
  case (Cons e es)
  have l: "length (entry_bytes e) = 72" "length (concat (map entry_bytes es)) = 72 * length es"
    using Cons.prems by (simp_all add: length_entries_bytes)
  have "seg off 72 b = seg 0 72 (seg off (72 * length (e # es)) b)"
    using seg_seg [of 0 72 "72 * length (e # es)" off b] by simp
  also have "\<dots> = entry_bytes e" unfolding Cons.prems(1) using l by (simp add: seg_def)
  finally have e: "entry_at off b = Some e" using Cons.prems by (intro entry_at_bytes) auto
  have "seg (off + 72) (72 * length es) b = seg 72 (72 * length es) (seg off (72 * length (e # es)) b)"
    using seg_seg [of 72 "72 * length es" "72 * length (e # es)" off b] by simp
  also have "\<dots> = concat (map entry_bytes es)" unfolding Cons.prems(1) using l by (simp add: seg_def)
  finally show ?case using e Cons by (simp add: kEntryBytes_def)
qed simp

lemma entries_bytes_at:
  "entries_at off n b = Some es \<Longrightarrow> off + 72 * n \<le> length b \<Longrightarrow> list_all coded_entry es \<Longrightarrow>
   length es = n \<and> list_all wf_entry es \<and> concat (map entry_bytes es) = seg off (72 * n) b"
proof (induction off n b arbitrary: es rule: entries_at.induct)
  case (1 off b)
  then show ?case by (auto simp: seg_def)
next
  case (2 off n b)
  then obtain e fs where e: "entry_at off b = Some e" and fs: "entries_at (off + 72) n b = Some fs" "es = e # fs"
    by (auto simp: kEntryBytes_def split: option.splits)
  have l: "off + 72 \<le> length b" "off + 72 + 72 * n \<le> length b" using 2 by simp_all
  have c: "coded_entry e" "list_all coded_entry fs" using 2(4) by (simp_all add: fs)
  note eb = entry_bytes_at [OF e l(1) c(1)]
  have ih: "length fs = n \<and> list_all wf_entry fs \<and> concat (map entry_bytes fs) = seg (off + 72) (72 * n) b"
    using 2(1) [OF e, of fs] fs l c by (simp add: kEntryBytes_def)
  have "seg off (72 * Suc n) b = seg off 72 b @ seg (off + 72) (72 * n) b"
    by (simp add: seg_def take_add add.commute)
  then show ?case using ih eb by (simp add: fs)
qed

section \<open>Lemmas: references\<close>

definition wf_ref :: "native_page_reference \<Rightarrow> bool" where
  "wf_ref r \<longleftrightarrow> wf_uuid (ref_filespace_uuid r) \<and> wf_uuid (ref_page_size_profile_uuid r)"

definition ref_image :: "native_page_reference option \<Rightarrow> byte list" where
  "ref_image r = (case r of None \<Rightarrow> replicate 48 0 | Some r \<Rightarrow> ref_bytes r)"

lemma length_ref_bytes [simp]: "wf_ref r \<Longrightarrow> length (ref_bytes r) = 48"
  by (simp add: ref_bytes_def wf_ref_def wf_uuid_def)

lemma length_ref_image [simp]: "pred_option wf_ref r \<Longrightarrow> length (ref_image r) = 48"
  by (cases r) (simp_all add: ref_image_def)

lemma ref_at_bytes:
  assumes "seg off 48 b = ref_bytes r" "wf_ref r"
  shows "ref_at off b = r"
proof -
  have u: "length (uuid_bytes (ref_filespace_uuid r)) = 16" "length (uuid_bytes (ref_page_size_profile_uuid r)) = 16"
    using assms(2) by (simp_all add: wf_ref_def wf_uuid_def)
  have s: "seg (off + k) n b = seg k n (ref_bytes r)" if "k + n \<le> 48" for k n
    using seg_seg [OF that, of off b] assms(1) by simp
  have f: "seg off 16 b = uuid_bytes (ref_filespace_uuid r)" "seg (off + 16) 8 b = le_bytes 8 (ref_page_number r)"
    "seg (off + 24) 8 b = le_bytes 8 (ref_page_generation r)"
    "seg (off + 32) 16 b = uuid_bytes (ref_page_size_profile_uuid r)"
    using s [of 0 16] by (simp_all add: s) (simp_all add: ref_bytes_def seg_def u)
  show ?thesis by (simp add: ref_at_def load64_def f)
qed

lemma ref_bytes_at:
  assumes "off + 48 \<le> length b"
  shows "ref_bytes (ref_at off b) = seg off 48 b" "wf_ref (ref_at off b)"
proof -
  have s: "seg k n (seg off 48 b) = seg (off + k) n b" if "k + n \<le> 48" for k n
    using seg_seg [OF that, of off b] by simp
  show w: "wf_ref (ref_at off b)" using assms by (simp add: wf_ref_def ref_at_def wf_uuid_def)
  show "ref_bytes (ref_at off b) = seg off 48 b"
  proof (rule segments_eq [of "[(0, 16), (16, 8), (24, 8), (32, 16)]"])
    show "list_all (\<lambda>(o', n). seg o' n (ref_bytes (ref_at off b)) = seg o' n (seg off 48 b))
        [(0, 16), (16, 8), (24, 8), (32, 16)]"
      using assms by (simp add: s) (simp add: ref_bytes_def ref_at_def seg_def le_bytes_load [unfolded seg_def])
  qed (use w assms in simp_all)
qed

lemma le_bytes_zero: "le_bytes n 0 = replicate n 0"
  by (simp add: le_bytes_def map_replicate_const)

lemma ref_nonzero: "wf_ref r \<Longrightarrow> ref_page_number r \<noteq> 0 \<Longrightarrow> \<not> all_zero (ref_bytes r)"
proof
  assume r: "wf_ref r" "ref_page_number r \<noteq> 0" and z: "all_zero (ref_bytes r)"
  then have "le_bytes 8 (ref_page_number r) = le_bytes 8 (0 :: u64)"
    by (auto simp: ref_bytes_def all_zero_def list_all_iff le_bytes_zero intro: replicate_eqI)
  then show False using r by (metis of_le_bytes_round(3))
qed


section \<open>Lemmas: page images\<close>

definition wf_page :: "native_transaction_inventory_page \<Rightarrow> bool" where
  "wf_page p \<longleftrightarrow> wf_header (ip_header p) \<and> wf_uuid (ip_object_uuid p) \<and> pred_option wf_ref (ip_previous p) \<and>
    pred_option wf_ref (ip_next p) \<and> list_all wf_entry (entries (ip_inventory p))"

abbreviation page_length :: "native_transaction_inventory_page \<Rightarrow> nat" where
  "page_length p \<equiv> unat (page_size_bytes (ip_header p))"

abbreviation page_used :: "native_transaction_inventory_page \<Rightarrow> nat" where
  "page_used p \<equiv> 384 + 72 * length (entries (ip_inventory p))"

lemma length_kInventoryMagic [simp]: "length kInventoryMagic = 8"
  by (simp add: kInventoryMagic_def)

lemma page_writes_bounds:
  assumes "wf_page p" "384 \<le> N" "length header = 128"
  shows "list_all (\<lambda>(off, bs). off + length bs \<le> N) (page_writes p h header)"
  using assms unfolding page_writes_def ref_write_def Let_def
  by (cases "ip_previous p"; cases "ip_next p") (simp_all add: wf_page_def wf_uuid_def)

lemma page_fields_stores:
  assumes w: "wf_page p" and u: "page_used p \<le> page_length p" and hd: "length header = 128"
  shows "page_fields p h header =
    stores (page_writes p h header @ [(384, concat (map entry_bytes (entries (ip_inventory p))))])
      (replicate (page_length p) 0)"
proof -
  have "length (stores (page_writes p h header) (replicate (page_length p) 0)) = page_length p"
    using length_stores [OF page_writes_bounds [OF w, of "length (replicate (page_length p) 0)" header h]] u hd by simp
  then show ?thesis
    using w u by (simp add: page_fields_def put_entries_eq stores_append stores_single wf_page_def)
qed

lemma page_fields_bounds:
  assumes "wf_page p" "page_used p \<le> page_length p" "length header = 128"
  shows "list_all (\<lambda>(off, bs). off + length bs \<le> length (replicate (page_length p) (0 :: byte)))
    (page_writes p h header @ [(384, concat (map entry_bytes (entries (ip_inventory p))))])"
  using assms page_writes_bounds [of p "page_length p" header h] by (simp add: wf_page_def length_entries_bytes)

lemma length_page_fields:
  assumes "wf_page p" "page_used p \<le> page_length p" "length header = 128"
  shows "length (page_fields p h header) = page_length p"
  using length_stores [OF page_fields_bounds [OF assms, of h]] by (simp add: page_fields_stores [OF assms])

lemma page_fields_seg:
  assumes a: "wf_page p" "page_used p \<le> page_length p" "length header = 128"
    and d: "list_all (\<lambda>(off', bs). off' = off \<and> length bs = n \<or> off + n \<le> off' \<or> off' + length bs \<le> off)
      (page_writes p h header @ [(384, concat (map entry_bytes (entries (ip_inventory p))))])"
  shows "seg off n (page_fields p h header) =
    seg_after off n (page_writes p h header @ [(384, concat (map entry_bytes (entries (ip_inventory p))))])
      (replicate (min n (page_length p - off)) 0)"
  unfolding page_fields_stores [OF a]
  by (subst seg_stores) (use d page_fields_bounds [OF a, of h] in \<open>auto simp: list_all_iff\<close>)

end
