(* ===== verification/InventoryPageCodec.thy ===== *)
theory InventoryPageCodec
  imports InventoryPage
begin

text \<open>
  What the images of native inventory pages are: the segments of an image, that decoding inverts
  encoding, and that an image that decodes is the image of the page it decodes to.
\<close>

section \<open>Segments of an image\<close>

lemma seg_after_append: "seg_after off n (ws @ vs) x = seg_after off n vs (seg_after off n ws x)"
  by (induction ws arbitrary: x) auto

lemma seg_after_ref:
  "seg_after off n (ref_write off' r) x = (if off' = off \<and> n = 48 \<and> r \<noteq> None \<and> pred_option wf_ref r then ref_image r else x)"
  if "pred_option wf_ref r"
  using that by (cases r) (auto simp: ref_write_def ref_image_def)

lemma list_all_ref_write:
  "list_all P (ref_write off r) \<longleftrightarrow> (case r of None \<Rightarrow> True | Some r \<Rightarrow> P (off, ref_bytes r))"
  by (cases r) (simp_all add: ref_write_def)

lemma page_fields_segs:
  fixes p :: native_transaction_inventory_page and h :: local_transaction_horizons and header :: "byte list"
  assumes w: "wf_page p" and u: "page_used p \<le> page_length p" and hd: "length header = 128"
  defines "b \<equiv> page_fields p h header"
  shows "seg 0 128 b = header" "seg 128 8 b = kInventoryMagic" "seg 136 2 b = le_bytes 2 (1 :: u16)"
    "seg 138 2 b = le_bytes 2 (256 :: u16)" "seg 140 4 b = le_bytes 4 (of_nat (page_used p) :: u32)"
    "seg 144 16 b = uuid_bytes (ip_object_uuid p)" "seg 160 8 b = le_bytes 8 (ip_inventory_generation p)"
    "seg 168 8 b = le_bytes 8 (next_local_transaction_id (ip_inventory p))"
    "seg 176 8 b = le_bytes 8 (next_commit_sequence (ip_inventory p))"
    "seg 184 4 b = le_bytes 4 (of_nat (length (entries (ip_inventory p))) :: u32)" "seg 188 4 b = replicate 4 0"
    "seg 192 48 b = ref_image (ip_previous p)" "seg 240 48 b = ref_image (ip_next p)"
    "seg 288 8 b = le_bytes 8 (oldest_interesting_transaction h)"
    "seg 296 8 b = le_bytes 8 (oldest_active_transaction h)"
    "seg 304 8 b = le_bytes 8 (oldest_snapshot_transaction h)" "seg 312 8 b = replicate 8 0"
    "seg 320 32 b = replicate 32 0" "seg 352 32 b = replicate 32 0"
    "seg 384 (72 * length (entries (ip_inventory p))) b = concat (map entry_bytes (entries (ip_inventory p)))"
    "seg (page_used p) (page_length p - page_used p) b = replicate (page_length p - page_used p) 0"
proof -
  have o: "length (uuid_bytes (ip_object_uuid p)) = 16" using w by (simp add: wf_page_def wf_uuid_def)
  have r: "pred_option wf_ref (ip_previous p)" "pred_option wf_ref (ip_next p)" using w by (simp_all add: wf_page_def)
  have e: "length (concat (map entry_bytes (entries (ip_inventory p)))) = 72 * length (entries (ip_inventory p))"
    using w by (simp add: wf_page_def length_entries_bytes)
  have n: "ref_image None = replicate 48 0" by (simp add: ref_image_def)
  have ref: "r = None \<or> (\<exists>x. r = Some x \<and> length (ref_bytes x) = 48)" if "pred_option wf_ref r" for r
    using that by (cases r) auto
  note s = page_fields_seg [OF w u hd, where h = h, folded b_def]
  show "seg 0 128 b = header" "seg 128 8 b = kInventoryMagic" "seg 136 2 b = le_bytes 2 (1 :: u16)"
    "seg 138 2 b = le_bytes 2 (256 :: u16)" "seg 140 4 b = le_bytes 4 (of_nat (page_used p) :: u32)"
    "seg 144 16 b = uuid_bytes (ip_object_uuid p)" "seg 160 8 b = le_bytes 8 (ip_inventory_generation p)"
    "seg 168 8 b = le_bytes 8 (next_local_transaction_id (ip_inventory p))"
    "seg 176 8 b = le_bytes 8 (next_commit_sequence (ip_inventory p))"
    "seg 184 4 b = le_bytes 4 (of_nat (length (entries (ip_inventory p))) :: u32)" "seg 188 4 b = replicate 4 0"
    "seg 192 48 b = ref_image (ip_previous p)" "seg 240 48 b = ref_image (ip_next p)"
    "seg 288 8 b = le_bytes 8 (oldest_interesting_transaction h)"
    "seg 296 8 b = le_bytes 8 (oldest_active_transaction h)"
    "seg 304 8 b = le_bytes 8 (oldest_snapshot_transaction h)" "seg 312 8 b = replicate 8 0"
    "seg 320 32 b = replicate 32 0" "seg 352 32 b = replicate 32 0"
    "seg 384 (72 * length (entries (ip_inventory p))) b = concat (map entry_bytes (entries (ip_inventory p)))"
    "seg (page_used p) (page_length p - page_used p) b = replicate (page_length p - page_used p) 0"
    using ref [OF r(1)] ref [OF r(2)]
    by (subst s; use u hd o e in \<open>auto simp: page_writes_def Let_def list_all_ref_write kEntryBytes_def ref_write_def
        ref_image_def min_def\<close>)+
qed


section \<open>What the checks give\<close>

lemma profile_size:
  "FindCanonicalFilespacePageProfile u = Some p \<Longrightarrow> profile_page_size_bytes p \<in> {8192, 16384, 32768, 65536, 131072}"
  by (auto simp: FindCanonicalFilespacePageProfile_def kCanonicalFilespacePageProfiles_def split: if_splits)

lemma encoded_header:
  assumes "EncodeNativeCommonPageHeader h = Inr b"
  shows "8192 \<le> unat (page_size_bytes h)" "unat (page_size_bytes h) \<le> 131072" "wf_header h \<Longrightarrow> length b = 128"
proof -
  have "ValidateIdentity h = None" using assms by (simp add: Encode_image)
  then obtain p where "FindCanonicalFilespacePageProfile (page_size_profile_uuid h) = Some p"
    "page_size_bytes h = profile_page_size_bytes p"
    by (auto simp: ValidateIdentity_def split: if_splits option.splits)
  then have "page_size_bytes h \<in> {8192, 16384, 32768, 65536, 131072}" using profile_size by metis
  then show "8192 \<le> unat (page_size_bytes h)" "unat (page_size_bytes h) \<le> 131072" by auto
  show "wf_header h \<Longrightarrow> length b = 128" using assms by (simp add: Encode_image header_image_def)
qed

lemma Validate_None:
  assumes "Validate p vi = None"
  shows "\<exists>b. EncodeNativeCommonPageHeader (ip_header p) = Inr b" "page_type (ip_header p) = 0x0301"
    "page_used p \<le> page_length p" "vi (ip_inventory p) = ''''"
    "pred_option (\<lambda>r. ref_page_number r \<noteq> 0) (ip_previous p)" "pred_option (\<lambda>r. ref_page_number r \<noteq> 0) (ip_next p)"
proof -
  note v = assms [unfolded Validate_def]
  show b: "\<exists>b. EncodeNativeCommonPageHeader (ip_header p) = Inr b"
    using v by (cases "EncodeNativeCommonPageHeader (ip_header p)") auto
  show "page_type (ip_header p) = 0x0301" "vi (ip_inventory p) = ''''" using v by (auto split: if_splits)
  have n: "\<not> (page_length p - 384) div kEntryBytes < length (entries (ip_inventory p))" using v by (auto split: if_splits)
  obtain x where "EncodeNativeCommonPageHeader (ip_header p) = Inr x" using b by blast
  from encoded_header(1) [OF this] n show "page_used p \<le> page_length p"
    by (simp add: kEntryBytes_def not_less less_eq_div_iff_mult_less_eq)
  have "neighbour_ok (Self p) (ip_previous p)" "neighbour_ok (Self p) (ip_next p)" using v by (auto split: if_splits)
  then show "pred_option (\<lambda>r. ref_page_number r \<noteq> 0) (ip_previous p)" "pred_option (\<lambda>r. ref_page_number r \<noteq> 0) (ip_next p)"
    by (auto simp: neighbour_ok_def RefValid_def split: option.splits)
qed

lemma entry_ok_coded: "entry_ok nid ncs e \<Longrightarrow> coded_entry e"
  by (auto simp: coded_entry_def entry_ok_def transaction_identity_valid_def split: if_splits)

lemma valid_coded: "valid_inventory ivt \<Longrightarrow> list_all coded_entry (entries ivt)"
  using valid_entry [of ivt] entry_ok_coded by (auto simp: list_all_iff)

lemma Digest_store: "352 \<le> length b \<Longrightarrow> length d = 32 \<Longrightarrow> Digest sha (store_at 320 d b) = Digest sha b"
  by (simp add: Digest_def store_at_def)

lemma Encode_iff:
  "EncodeNativeTransactionInventoryPage sha p = Inr (q, b) \<longleftrightarrow>
    Validate p ValidateLocalTransactionInventoryStructure = None \<and>
    (\<exists>h hd d. ProjectValidatedLocalHorizons (ip_inventory p) [] = Inr h \<and>
       EncodeNativeCommonPageHeader (ip_header p) = Inr hd \<and> Digest sha (page_fields p h hd) = Some d \<and>
       b = store_at 320 d (page_fields p h hd)) \<and>
    q = p\<lparr>ip_inventory := (ip_inventory p)\<lparr>publication_base := None\<rparr>\<rparr>"
proof (cases "Validate p ValidateLocalTransactionInventoryStructure")
  case None
  obtain h where h: "ProjectValidatedLocalHorizons (ip_inventory p) [] = Inr h"
    by (auto simp: ProjectValidatedLocalHorizons_def Let_def)
  have c: "ComputeLocalTransactionHorizons (ip_inventory p) = Inr h"
    using Validate_None(4) [OF None] h by (simp add: ComputeLocalTransactionHorizons_def Calculate_Inr structure_valid_iff)
  obtain hd where hd: "EncodeNativeCommonPageHeader (ip_header p) = Inr hd" using Validate_None(1) [OF None] by blast
  show ?thesis
    using None h c hd
    by (cases "Digest sha (page_fields p h hd)") (auto simp: EncodeNativeTransactionInventoryPage_def EncodeValues_def Let_def)
qed (simp add: EncodeNativeTransactionInventoryPage_def)


lemma u32_of_nat: "n < 2 ^ 32 \<Longrightarrow> unat (of_nat n :: u32) = n"
  by (simp add: unat_of_nat)

lemma Decode_iff:
  "DecodeInventoryValues sha b capacity vi = Inr p \<longleftrightarrow>
    (\<exists>header d es h. DecodeNativeCommonPageHeader (take (min (length b) 128) b) None = Inr header \<and>
       page_type header = 0x0301 \<and> length b = unat (page_size_bytes header) \<and>
       Digest sha b = Some d \<and> d = seg 320 32 b \<and> family_ok b (unat (load32 184 b)) \<and>
       (\<forall>c. capacity = Some c \<longrightarrow> unat (load32 184 b) \<le> c) \<and>
       entries_at 384 (unat (load32 184 b)) b = Some es \<and> p = decoded_page header es b \<and> Validate p vi = None \<and>
       ProjectValidatedLocalHorizons (ip_inventory p) [] = Inr h \<and> horizons_stored b h)"
  by (auto simp: DecodeInventoryValues_def Let_def not_less split: sum.splits option.splits if_splits)

section \<open>Decoding inverts encoding\<close>

text \<open>An optional reference is read back from the bytes written for it.\<close>

lemma ref_option_at:
  assumes "seg off 48 b = ref_image r" "pred_option wf_ref r" "pred_option (\<lambda>r. ref_page_number r \<noteq> 0) r"
  shows "(if all_zero (seg off 48 b) then None else Some (ref_at off b)) = r"
  using assms ref_at_bytes [of off b] ref_nonzero
  by (cases r) (auto simp: ref_image_def all_zero_def list_all_iff)

text \<open>An image agrees with the fields written, away from the digest.\<close>

lemma image_segs:
  assumes "length bs = page_length p" "8192 \<le> page_length p" "length d = 32" "b = store_at 320 d bs"
  shows "length b = page_length p" "seg 320 32 b = d"
    "off + n \<le> 320 \<or> 352 \<le> off \<Longrightarrow> seg off n b = seg off n bs"
  using assms by (simp_all add: seg_store_other seg_store_same)

text \<open>The family header and the entries of an image.\<close>

lemma image_family:
  assumes w: "wf_page p" and u: "page_used p \<le> page_length p" and len: "8192 \<le> page_length p" "page_length p \<le> 131072"
    and lh: "length hb = 128" and lb: "length b = page_length p"
    and s: "\<And>off n. off + n \<le> 320 \<or> 352 \<le> off \<Longrightarrow> seg off n b = seg off n (page_fields p h hb)"
  shows "unat (load32 184 b) = length (entries (ip_inventory p))" "family_ok b (unat (load32 184 b))"
proof -
  note f = page_fields_segs [OF w u lh, of h]
  have small: "length (entries (ip_inventory p)) < 2 ^ 32" "page_used p < 2 ^ 32" using u len by simp_all
  have count: "unat (load32 184 b) = length (entries (ip_inventory p))" "unat (load32 140 b) = page_used p"
    using u32_of_nat [OF small(1)] u32_of_nat [OF small(2)] s [of 184 4] s [of 140 4] f(5,10)
    by (simp_all only: load32_def of_le_bytes_round) simp_all
  then show "unat (load32 184 b) = length (entries (ip_inventory p))" by simp
  have drop: "drop (page_used p) b = replicate (page_length p - page_used p) 0"
    using s [of "page_used p" "page_length p - page_used p"] f(21) lb by (simp add: seg_def)
  show "family_ok b (unat (load32 184 b))"
    unfolding family_ok_def count kEntryBytes_def using u len
    by (simp add: s f lb load16_def drop all_zero_def list_all_iff less_eq_div_iff_mult_less_eq)
qed

lemma encoded_decodes:
  assumes sha: "\<And>x d. sha x = Some d \<Longrightarrow> length d = 32" and w: "wf_page p"
    and base: "publication_base (ip_inventory p) = None"
    and enc: "EncodeNativeTransactionInventoryPage sha p = Inr (q, b)"
  shows "DecodeInventoryValues sha b None ValidateLocalTransactionInventoryStructure = Inr p"
proof -
  obtain h hd d where v: "Validate p ValidateLocalTransactionInventoryStructure = None"
    and h: "ProjectValidatedLocalHorizons (ip_inventory p) [] = Inr h"
    and hd: "EncodeNativeCommonPageHeader (ip_header p) = Inr hd"
    and d: "Digest sha (page_fields p h hd) = Some d" and b: "b = store_at 320 d (page_fields p h hd)"
    using enc by (auto simp: Encode_iff)
  have wh: "wf_header (ip_header p)" using w by (simp add: wf_page_def)
  note eh = encoded_header(1,2) [OF hd] encoded_header(3) [OF hd wh]
  note u = Validate_None(3) [OF v]
  note f = page_fields_segs [OF w u eh(3), of h]
  have l: "length (page_fields p h hd) = page_length p" by (rule length_page_fields [OF w u eh(3)])
  have ld: "length d = 32" using d sha by (simp add: Digest_def)
  note lb = image_segs(1,2) [OF l eh(1) ld b] and s = image_segs(3) [OF l eh(1) ld b]
  note fam = image_family [OF w u eh(1,2,3) lb(1) s]
  have es: "entries_at 384 (length (entries (ip_inventory p))) b = Some (entries (ip_inventory p))"
  proof (rule entries_at_bytes)
    show "list_all coded_entry (entries (ip_inventory p))"
      using Validate_None(4) [OF v] by (simp add: structure_valid_iff valid_coded)
  qed (use w in \<open>simp_all add: s f wf_page_def\<close>)
  have refs: "(if all_zero (seg 192 48 b) then None else Some (ref_at 192 b)) = ip_previous p"
    "(if all_zero (seg 240 48 b) then None else Some (ref_at 240 b)) = ip_next p"
    by (rule ref_option_at; use w Validate_None(5,6) [OF v] in \<open>simp add: s f wf_page_def\<close>)+
  have page: "decoded_page (ip_header p) (entries (ip_inventory p)) b = p"
    using base unfolding decoded_page_def refs by (simp add: s f load64_def)
  have "take 128 b = hd" using s [of 0 128] f(1) by (simp add: seg_def)
  then have head: "DecodeNativeCommonPageHeader (take (min (length b) 128) b) None = Inr (ip_header p)"
    using hd wh eh(1) lb(1) by (simp add: header_codec)
  have dig: "Digest sha b = Some d" using d l ld eh(1) by (simp add: b Digest_store)
  have hs: "horizons_stored b h" by (simp add: horizons_stored_def s f load64_def)
  show ?thesis
    unfolding Decode_iff fam(1)
    using head Validate_None(2) [OF v] lb dig fam es page v h hs by auto
qed

section \<open>Encoding inverts decoding\<close>

lemma family_facts:
  assumes "family_ok b count" "8192 \<le> length b"
  shows "384 + 72 * count \<le> length b" "seg 128 8 b = kInventoryMagic" "seg 136 2 b = le_bytes 2 (1 :: u16)"
    "seg 138 2 b = le_bytes 2 (256 :: u16)" "seg 140 4 b = le_bytes 4 (of_nat (384 + 72 * count) :: u32)"
    "seg 188 4 b = replicate 4 0" "seg 312 8 b = replicate 8 0" "seg 352 32 b = replicate 32 0"
    "seg (384 + 72 * count) (length b - (384 + 72 * count)) b = replicate (length b - (384 + 72 * count)) 0"
proof -
  note f = assms(1) [unfolded family_ok_def kEntryBytes_def]
  have "count * 72 \<le> length b - 384" using f by (simp add: less_eq_div_iff_mult_less_eq)
  then show "384 + 72 * count \<le> length b" using assms(2) by linarith
  show "seg 128 8 b = kInventoryMagic" using f by blast
  show "seg 136 2 b = le_bytes 2 (1 :: u16)" "seg 138 2 b = le_bytes 2 (256 :: u16)"
    using f assms(2) le_bytes_load(1) [of 136 b] le_bytes_load(1) [of 138 b] by simp_all
  have "load32 140 b = of_nat (unat (load32 140 b))" by simp
  also have "unat (load32 140 b) = 384 + 72 * count" using f by blast
  finally show "seg 140 4 b = le_bytes 4 (of_nat (384 + 72 * count) :: u32)"
    using assms(2) le_bytes_load(2) [of 140 b] by simp
  show "seg 188 4 b = replicate 4 0" "seg 312 8 b = replicate 8 0" "seg 352 32 b = replicate 32 0"
    using f assms(2) by (simp_all add: all_zero_iff)
  show "seg (384 + 72 * count) (length b - (384 + 72 * count)) b = replicate (length b - (384 + 72 * count)) 0"
    using f by (simp add: all_zero_iff seg_def)
qed

abbreviation page_segments :: "nat \<Rightarrow> nat \<Rightarrow> (nat \<times> nat) list" where
  "page_segments used len \<equiv> [(0, 128), (128, 8), (136, 2), (138, 2), (140, 4), (144, 16), (160, 8), (168, 8), (176, 8),
    (184, 4), (188, 4), (192, 48), (240, 48), (288, 8), (296, 8), (304, 8), (312, 8), (320, 32), (352, 32),
    (384, used - 384), (used, len - used)]"

lemma image_of_decoded:
  assumes l: "8192 \<le> length b" and lp: "page_length p = length b" and hb: "take 128 b = hb"
    and fam: "family_ok b (length es)" and n: "load32 184 b = of_nat (length es)"
    and es: "concat (map entry_bytes es) = seg 384 (72 * length es) b" and w: "wf_page p"
    and p: "p = decoded_page header es b" and h: "horizons_stored b h" and d: "d = seg 320 32 b"
  shows "store_at 320 d (page_fields p h hb) = b"
proof -
  have e: "entries (ip_inventory p) = es" "next_local_transaction_id (ip_inventory p) = load64 168 b"
    "next_commit_sequence (ip_inventory p) = load64 176 b" "uuid_bytes (ip_object_uuid p) = seg 144 16 b"
    "ip_inventory_generation p = load64 160 b"
    by (simp_all add: p decoded_page_def)
  have r: "ref_image (ip_previous p) = seg 192 48 b" "ref_image (ip_next p) = seg 240 48 b"
    using l by (auto simp: p decoded_page_def ref_image_def ref_bytes_at all_zero_iff)
  note ff = family_facts [OF fam l]
  have u: "page_used p \<le> page_length p" using ff(1) by (simp add: e lp)
  have lh: "length hb = 128" using l hb by auto
  note f = page_fields_segs [OF w u lh, of h]
  have lf: "length (page_fields p h hb) = length b" using length_page_fields [OF w u lh] lp by simp
  have ld: "length d = 32" using d l by simp
  have s: "seg off n (store_at 320 d (page_fields p h hb)) = seg off n (page_fields p h hb)"
    if "off + n \<le> 320 \<or> 352 \<le> off" for off n
    using that lf ld l by (simp add: seg_store_other)
  have c: "seg 184 4 b = le_bytes 4 (of_nat (length es) :: u32)" using n l le_bytes_load(2) [of 184 b] by simp
  have hs: "seg 288 8 b = le_bytes 8 (oldest_interesting_transaction h)"
    "seg 296 8 b = le_bytes 8 (oldest_active_transaction h)" "seg 304 8 b = le_bytes 8 (oldest_snapshot_transaction h)"
    using h l le_bytes_load(3) [of 288 b] le_bytes_load(3) [of 296 b] le_bytes_load(3) [of 304 b]
    by (simp_all add: horizons_stored_def)
  show ?thesis
  proof (rule segments_eq [of "page_segments (384 + 72 * length es) (length b)"])
    show "length (store_at 320 d (page_fields p h hb)) = length b" using lf ld l by simp
    show "covers 0 (page_segments (384 + 72 * length es) (length b)) (length (store_at 320 d (page_fields p h hb)))"
      using lf ld l ff(1) by simp
    have "seg 0 128 b = hb" using hb by (simp add: seg_def)
    moreover have "seg (384 + 72 * length es) (length b - (384 + 72 * length es)) (store_at 320 d (page_fields p h hb)) =
        seg (384 + 72 * length es) (length b - (384 + 72 * length es)) b"
      using f(21) ff(9) by (simp add: s e lp)
    moreover have "seg 140 4 (store_at 320 d (page_fields p h hb)) = seg 140 4 b"
      using f(5) ff(5) by (simp add: s e)
    moreover have "seg 320 32 (store_at 320 d (page_fields p h hb)) = seg 320 32 b"
      using lf ld l d by (simp add: seg_store_same)
    ultimately show "list_all (\<lambda>(off, n). seg off n (store_at 320 d (page_fields p h hb)) = seg off n b)
        (page_segments (384 + 72 * length es) (length b))"
      using l es by (simp add: s f(1-4,6-20) e r ff(2-4,6-8) c hs le_bytes_load f(20) [unfolded e])
  qed
qed


lemma decoded_encodes:
  assumes "DecodeInventoryValues sha b None ValidateLocalTransactionInventoryStructure = Inr p"
  shows "wf_page p" "publication_base (ip_inventory p) = None"
    "EncodeNativeTransactionInventoryPage sha p = Inr (p, b)"
proof -
  obtain header d es h where
    hd: "DecodeNativeCommonPageHeader (take (min (length b) 128) b) None = Inr header"
    and len: "length b = unat (page_size_bytes header)"
    and d: "Digest sha b = Some d" "d = seg 320 32 b" and fam: "family_ok b (unat (load32 184 b))"
    and es: "entries_at 384 (unat (load32 184 b)) b = Some es" and p: "p = decoded_page header es b"
    and v: "Validate p ValidateLocalTransactionInventoryStructure = None"
    and h: "ProjectValidatedLocalHorizons (ip_inventory p) [] = Inr h" "horizons_stored b h"
    using assms by (auto simp: Decode_iff)
  have wh: "wf_header header" and enc: "EncodeNativeCommonPageHeader header = Inr (take (min (length b) 128) b)"
    using hd by (simp_all add: header_codec)
  have l: "8192 \<le> length b" using encoded_header(1) [OF enc] len by simp
  have "list_all coded_entry (entries (ip_inventory p))"
    using Validate_None(4) [OF v] by (simp add: structure_valid_iff valid_coded)
  then have c: "list_all coded_entry es" by (simp add: p decoded_page_def)
  have eb: "length es = unat (load32 184 b) \<and> list_all wf_entry es \<and>
      concat (map entry_bytes es) = seg 384 (72 * unat (load32 184 b)) b"
    using entries_bytes_at [OF es _ c] family_facts(1) [OF fam l] by simp
  show w: "wf_page p"
    using wh eb l by (simp add: p decoded_page_def wf_page_def wf_uuid_def ref_bytes_at)
  show base: "publication_base (ip_inventory p) = None" by (simp add: p decoded_page_def)
  have img: "store_at 320 d (page_fields p h (take 128 b)) = b"
  proof (rule image_of_decoded [OF l _ refl _ _ _ w p h(2) d(2)])
    show "page_length p = length b" using len by (simp add: p decoded_page_def)
    show "family_ok b (length es)" "load32 184 b = of_nat (length es)"
      "concat (map entry_bytes es) = seg 384 (72 * length es) b"
      using fam eb by simp_all
  qed
  have "length (page_fields p h (take 128 b)) = length b"
    using length_page_fields [OF w Validate_None(3) [OF v], of "take 128 b" h] l len by (simp add: p decoded_page_def)
  then have "Digest sha (page_fields p h (take 128 b)) = Some d"
    using d l Digest_store [of "page_fields p h (take 128 b)" d sha] img by simp
  moreover have "EncodeNativeCommonPageHeader (ip_header p) = Inr (take 128 b)"
    using enc l by (simp add: p decoded_page_def min_def)
  moreover have "p\<lparr>ip_inventory := (ip_inventory p)\<lparr>publication_base := None\<rparr>\<rparr> = p"
    using base by simp
  ultimately show "EncodeNativeTransactionInventoryPage sha p = Inr (p, b)"
    using v h(1) img unfolding Encode_iff by metis
qed


text \<open>The publication base is not part of an image.\<close>

lemma structure_base [simp]:
  "ValidateLocalTransactionInventoryStructure (ivt\<lparr>publication_base := x\<rparr>) =
   ValidateLocalTransactionInventoryStructure ivt"
  by (simp add: ValidateLocalTransactionInventoryStructure_def)

lemma encoded_base:
  assumes "EncodeNativeTransactionInventoryPage sha p = Inr (q, b)"
  shows "EncodeNativeTransactionInventoryPage sha q = Inr (q, b)"
proof -
  let ?ivt = "(ip_inventory p)\<lparr>publication_base := None\<rparr>"
  have q: "q = p\<lparr>ip_inventory := ?ivt\<rparr>" using assms by (simp add: Encode_iff)
  have "Validate q ValidateLocalTransactionInventoryStructure = Validate p ValidateLocalTransactionInventoryStructure"
    by (simp add: q Validate_def Self_def cong: if_cong)
  moreover have "ProjectValidatedLocalHorizons (ip_inventory q) [] = ProjectValidatedLocalHorizons (ip_inventory p) []"
    by (simp add: q ProjectValidatedLocalHorizons_def StableCommitBoundary_def Let_def)
  moreover have "page_fields q = page_fields p"
    by (intro ext) (simp add: q page_fields_def page_writes_def Let_def)
  ultimately show ?thesis using assms by (simp add: Encode_iff q)
qed

section \<open>Properties\<close>

text \<open>
  C14. An inventory page has one image, for any hash with digests of 32 bytes. Bytes decode to a page
  exactly when they are what that page encodes to; so what was encoded decodes to the same page, with
  every counter, neighbour and entry, and bytes with a different reserved field, tail, flag, horizon
  or digest decode to nothing. The publication base of the encoded inventory is not stored.
\<close>

theorem inventory_page_codec_is_exact:
  assumes "\<And>x d. sha x = Some d \<Longrightarrow> length d = 32"
  shows "(DecodeNativeTransactionInventoryPage sha b = Inr (p, b') \<longleftrightarrow>
      b' = b \<and> wf_page p \<and> publication_base (ip_inventory p) = None \<and>
      EncodeNativeTransactionInventoryPage sha p = Inr (p, b))
    \<and> (wf_page r \<and> EncodeNativeTransactionInventoryPage sha r = Inr (q, b) \<longrightarrow>
      DecodeNativeTransactionInventoryPage sha b = Inr (q, b) \<and>
      q = r\<lparr>ip_inventory := (ip_inventory r)\<lparr>publication_base := None\<rparr>\<rparr>)"
proof (intro conjI impI)
  show iff: "DecodeNativeTransactionInventoryPage sha b = Inr (p, b') \<longleftrightarrow>
      b' = b \<and> wf_page p \<and> publication_base (ip_inventory p) = None \<and>
      EncodeNativeTransactionInventoryPage sha p = Inr (p, b)" for p b'
    using decoded_encodes [of sha b p] encoded_decodes [OF assms, where p = p and q = p and b = b]
    by (auto simp: DecodeNativeTransactionInventoryPage_def split: sum.splits)
  assume r: "wf_page r \<and> EncodeNativeTransactionInventoryPage sha r = Inr (q, b)"
  then show q: "q = r\<lparr>ip_inventory := (ip_inventory r)\<lparr>publication_base := None\<rparr>\<rparr>"
    by (simp add: Encode_iff)
  have "wf_page q" using r by (simp add: q wf_page_def)
  then show "DecodeNativeTransactionInventoryPage sha b = Inr (q, b)"
    unfolding iff using r encoded_base [of sha r q b] by (simp add: q)
qed

definition sample_header :: native_common_page_header where
  "sample_header =
    \<lparr>page_size_bytes = 8192, page_type = 0x0301, database_uuid = sample_uuid 1, filespace_uuid = sample_uuid 2,
     page_uuid = sample_uuid 3, page_number = 7, page_generation = 1, page_flags = 0,
     page_size_profile_uuid = Uuid [0, 0, 0, 0, 0, 0, 0x70, 0, 0x80, 0, 0, 0, 0, 0, 0x81, 0x92]\<rparr>"

definition sample_page :: native_transaction_inventory_page where
  "sample_page =
    \<lparr>ip_header = sample_header, ip_object_uuid = sample_uuid 4, ip_inventory_generation = 1,
     ip_previous = None,
     ip_next = Some \<lparr>ref_filespace_uuid = sample_uuid 2, ref_page_number = 8, ref_page_generation = 1,
       ref_page_size_profile_uuid = page_size_profile_uuid sample_header\<rparr>,
     ip_inventory = sample_inventory\<rparr>"

theorem inventory_page_codec_is_exact_witness:
  "\<exists>sha b. (\<forall>x d. sha x = Some d \<longrightarrow> length d = 32) \<and>
     DecodeNativeTransactionInventoryPage sha b = Inr (sample_page, b)"
proof -
  define sha :: sha256 where "sha = (\<lambda>_. Some (replicate 32 0))"
  have l: "length d = 32" if "sha x = Some d" for x d using that by (auto simp: sha_def)
  have v: "Validate sample_page ValidateLocalTransactionInventoryStructure = None" by code_simp
  have w: "wf_page sample_page"
    by (simp add: wf_page_def wf_header_def wf_ref_def wf_entry_def wf_uuid_def sample_page_def sample_header_def
        sample_uuid_def sample_inventory_def sample_entry_def sample_transaction_def)
  obtain h where h: "ProjectValidatedLocalHorizons (ip_inventory sample_page) [] = Inr h"
    by (auto simp: ProjectValidatedLocalHorizons_def Let_def)
  obtain x where x: "EncodeNativeCommonPageHeader (ip_header sample_page) = Inr x" using Validate_None(1) [OF v] by blast
  have q: "sample_page\<lparr>ip_inventory := (ip_inventory sample_page)\<lparr>publication_base := None\<rparr>\<rparr> = sample_page"
    by (simp add: sample_page_def sample_inventory_def)
  have "Digest sha (page_fields sample_page h x) = Some (replicate 32 0)" by (simp add: Digest_def sha_def)
  then have "\<exists>b. EncodeNativeTransactionInventoryPage sha sample_page = Inr (sample_page, b)"
    unfolding Encode_iff q using v h x by (metis q)
  then obtain b where b: "EncodeNativeTransactionInventoryPage sha sample_page = Inr (sample_page, b)" ..
  have "DecodeNativeTransactionInventoryPage sha b = Inr (sample_page, b)"
    using inventory_page_codec_is_exact [OF l, where r = sample_page and q = sample_page and b = b] w b by simp
  with l show ?thesis by blast
qed

end
