(* ===== verification/InventoryView.thy ===== *)
theory InventoryView
  imports InventoryPageCodec "HOL-Library.List_Lexorder" "HOL-Library.Product_Lexorder"
begin

text \<open>
  The inventory checks and page codecs of \<^verbatim>\<open>storage/page/transaction_inventory_page.cpp\<close> that work on
  buffers the caller owns: they find duplicates and predecessors by sorting indices instead of
  filling sets and maps. The lemmas show that they refine the owning checks, reason by reason.
  Alignment and overlap of the buffers are left out; their sizes are arguments. \<^verbatim>\<open>std::sort\<close> under an
  order without ties is the sorted list of the same indices, and \<^verbatim>\<open>std::lower_bound\<close> the length of the
  prefix below the value.
\<close>

unbundle bit_operations_syntax

section \<open>Structural validation with sorted indices\<close>

definition mark ::
  "transaction_inventory_entry list \<Rightarrow> (transaction_inventory_entry \<Rightarrow> 'k :: linorder) \<Rightarrow> byte \<Rightarrow>
   nat list \<times> byte list \<Rightarrow> nat list \<times> byte list" where
  "mark rows key flag st =
    (case st of (indices, markers) \<Rightarrow>
       if length rows < 2 then (indices, markers)
       else let indices = sort_key (\<lambda>i. (key (rows ! i), i)) indices in
         (indices,
          fold (\<lambda>i m. if key (rows ! (indices ! i)) = key (rows ! (indices ! (i - 1)))
                 then m[indices ! i := m ! (indices ! i) OR flag] else m) [1..<length rows] markers))"

text \<open>
  The rule loop of \<^verbatim>\<open>detail::ValidateInventoryStructure\<close> with uniqueness tests that look at the position
  of the entry.
\<close>

fun ValidateInventoryStructureAt ::
  "u64 \<Rightarrow> u64 \<Rightarrow> (nat \<Rightarrow> bool) \<Rightarrow> (nat \<Rightarrow> bool) \<Rightarrow> (nat \<Rightarrow> bool) \<Rightarrow> nat \<Rightarrow> transaction_inventory_entry list \<Rightarrow> string" where
  "ValidateInventoryStructureAt nid ncs commit_unique local_unique uuid_unique i [] = ''''"
| "ValidateInventoryStructureAt nid ncs commit_unique local_unique uuid_unique i (e # es) =
    (if ncs \<le> begin_visible_through_commit_sequence e then ''begin_commit_sequence_invalid''
     else if entry_state e = TS_archived \<and>
             archived_from_state e \<noteq> TS_committed \<and> archived_from_state e \<noteq> TS_rolled_back \<and>
             archived_from_state e \<noteq> TS_failed_terminal then ''archive_origin_invalid''
     else if entry_state e \<noteq> TS_archived \<and> archived_from_state e \<noteq> TS_none then ''nonarchived_origin''
     else if HasCommittedInventoryOutcome e \<and>
             (commit_sequence e = 0 \<or> ncs \<le> commit_sequence e \<or>
              commit_sequence e \<le> begin_visible_through_commit_sequence e)
          then ''commit_sequence_invalid''
     else if HasCommittedInventoryOutcome e \<and> \<not> commit_unique i then ''duplicate_commit_sequence''
     else if \<not> HasCommittedInventoryOutcome e \<and> commit_sequence e \<noteq> 0
          then ''noncommitted_commit_sequence''
     else if \<not> transaction_identity_valid (identity e) \<or> \<not> IsEngineIdentityUuid (entry_uuid e)
          then ''invalid_transaction_identity''
     else if scope (identity e) \<noteq> Scope_local_node \<and> scope (identity e) \<noteq> Scope_cluster_global
          then ''invalid_transaction_scope''
     else if nid \<le> entry_id e then ''future_transaction_in_inventory''
     else if \<not> local_unique i then ''duplicate_local_transaction_id''
     else if \<not> uuid_unique i then ''duplicate_transaction_uuid''
     else if entry_state e = TS_none then ''invalid_transaction_state''
     else ValidateInventoryStructureAt nid ncs commit_unique local_unique uuid_unique (Suc i) es)"

definition ValidateBorrowed :: "local_transaction_inventory \<Rightarrow> string" where
  "ValidateBorrowed ivt =
    (let rows = entries ivt;
         st = ([0..<length rows], replicate (length rows) 0);
         st = mark rows commit_sequence 1 st;
         st = mark rows entry_id 2 st;
         st = mark rows (\<lambda>e. uuid_bytes (entry_uuid e)) 4 st;
         markers = snd st in
     if next_local_transaction_id ivt = kInvalidLocalTransactionId then ''next_transaction_invalid''
     else if next_commit_sequence ivt = 0 then ''next_commit_sequence_invalid''
     else ValidateInventoryStructureAt (next_local_transaction_id ivt) (next_commit_sequence ivt)
            (\<lambda>i. markers ! i AND 1 = 0) (\<lambda>i. markers ! i AND 2 = 0) (\<lambda>i. markers ! i AND 4 = 0) 0 rows)"

text \<open>The result carries an error and the reason; no error is \<open>None\<close>.\<close>

definition ValidateNativeTransactionInventoryView ::
  "local_transaction_inventory \<Rightarrow> nat \<Rightarrow> nat \<Rightarrow> native_inventory_error option \<times> string" where
  "ValidateNativeTransactionInventoryView ivt n_indices n_markers =
    (if n_indices < length (entries ivt) \<or> n_markers < length (entries ivt)
     then (Some NI_resource_exhausted, ''insufficient_backing'')
     else let why = ValidateBorrowed ivt in (if why \<noteq> '''' then Some NI_invalid_inventory else None, why))"

section \<open>Successor check with sorted indices\<close>

definition lower_bound :: "('a \<Rightarrow> bool) \<Rightarrow> 'a list \<Rightarrow> nat" where
  "lower_bound below xs = length (takeWhile below xs)"

definition sorted_indices ::
  "transaction_inventory_entry list \<Rightarrow> (transaction_inventory_entry \<Rightarrow> 'k :: linorder) \<Rightarrow> nat list" where
  "sorted_indices old key =
    (if 1 < length old then sort_key (\<lambda>i. key (old ! i)) [0..<length old] else [0..<length old])"

definition find_index ::
  "transaction_inventory_entry list \<Rightarrow> (transaction_inventory_entry \<Rightarrow> 'k :: linorder) \<Rightarrow> nat list \<Rightarrow> 'k \<Rightarrow> nat option" where
  "find_index old key idx x =
    (let at = lower_bound (\<lambda>i. key (old ! i) < x) idx in
     if at = length idx \<or> key (old ! (idx ! at)) \<noteq> x then None else Some (idx ! at))"

fun ValidateInventoryEvolutionAt ::
  "local_transaction_inventory \<Rightarrow> nat list \<Rightarrow> nat list \<Rightarrow> byte list \<Rightarrow> transaction_inventory_entry list \<Rightarrow> string" where
  "ValidateInventoryEvolutionAt before locals uuids markers [] =
    (if list_ex (\<lambda>i. markers ! i = 0 \<and> unresolved (entries before ! i)) [0..<length (entries before)]
     then ''unresolved_transaction_removed'' else '''')"
| "ValidateInventoryEvolutionAt before locals uuids markers (e # es) =
    (case find_index (entries before) entry_id locals (entry_id e) of
       None \<Rightarrow>
         if entry_id e < next_local_transaction_id before then ''local_number_reused''
         else if find_index (entries before) (\<lambda>e. uuid_bytes (entry_uuid e)) uuids (uuid_bytes (entry_uuid e)) \<noteq> None
           then ''transaction_uuid_reused''
         else if HasCommittedInventoryOutcome e \<and> commit_sequence e < next_commit_sequence before
           then ''commit_sequence_reused''
         else ValidateInventoryEvolutionAt before locals uuids markers es
     | Some i \<Rightarrow> let old = entries before ! i in
         if entry_uuid old \<noteq> entry_uuid e \<or> scope (identity old) \<noteq> scope (identity e)
           then ''transaction_identity_changed''
         else if begin_changed old e then ''transaction_begin_changed''
         else if (evidence_record_required old \<and> \<not> evidence_record_required e) \<or>
                 (evidence_record_written old \<and> \<not> evidence_record_written e)
           then ''transaction_evidence_regressed''
         else if IsTerminalTransactionState (InventoryVisibilityState old) \<and>
                 (InventoryVisibilityState old \<noteq> InventoryVisibilityState e \<or>
                  final_unix_epoch_millis old \<noteq> final_unix_epoch_millis e \<or>
                  commit_sequence old \<noteq> commit_sequence e)
           then ''transaction_finality_changed''
         else if \<not> reachable (entry_state old) (entry_state e) \<or>
                 (entry_state e = TS_archived \<and> entry_state old \<noteq> TS_archived \<and>
                  \<not> reachable (entry_state old) (InventoryVisibilityState e))
           then ''transaction_state_regressed''
         else if \<not> HasCommittedInventoryOutcome old \<and> HasCommittedInventoryOutcome e \<and>
                 commit_sequence e < next_commit_sequence before
           then ''commit_sequence_reused''
         else ValidateInventoryEvolutionAt before locals uuids (markers[i := 1]) es)"

definition ValidateNativeTransactionInventoryEvolutionView ::
  "local_transaction_inventory \<Rightarrow> local_transaction_inventory \<Rightarrow> nat \<Rightarrow> nat \<Rightarrow> nat \<Rightarrow>
   native_inventory_error option \<times> string" where
  "ValidateNativeTransactionInventoryEvolutionView before after n_indices n_uuid_indices n_markers =
    (let count = length (entries before); maximum = max count (length (entries after)) in
     if n_indices < maximum \<or> n_markers < maximum \<or> n_uuid_indices < count
       then (Some NI_resource_exhausted, ''insufficient_backing'')
     else if ValidateBorrowed before \<noteq> '''' then (Some NI_invalid_inventory, ValidateBorrowed before)
     else if ValidateBorrowed after \<noteq> '''' then (Some NI_invalid_inventory, ValidateBorrowed after)
     else let why =
         (if next_local_transaction_id after < next_local_transaction_id before \<or>
             next_commit_sequence after < next_commit_sequence before then ''counter_regression''
          else ValidateInventoryEvolutionAt before (sorted_indices (entries before) entry_id)
                 (sorted_indices (entries before) (\<lambda>e. uuid_bytes (entry_uuid e))) (replicate count 0) (entries after))
       in (if why \<noteq> '''' then Some NI_invalid_inventory else None, why))"

section \<open>Codecs into buffers\<close>

text \<open>
  The encoder tells a short scratch buffer from an invalid inventory by a flag the validation callback
  sets; with a short buffer the callback is the only source of \<open>NI_invalid_inventory\<close>.
\<close>

definition EncodeNativeTransactionInventoryPageInto ::
  "sha256 \<Rightarrow> native_transaction_inventory_page \<Rightarrow> nat \<Rightarrow> nat \<Rightarrow> nat \<Rightarrow> native_inventory_error + byte list" where
  "EncodeNativeTransactionInventoryPageInto sha p n_output n_indices n_markers =
    (let n = length (entries (ip_inventory p));
         short_backing = n_indices < n \<or> n_markers < n;
         valid = Validate p (if short_backing then (\<lambda>_. ''insufficient_backing'') else ValidateBorrowed) in
     if short_backing \<and> valid = Some NI_invalid_inventory then Inl NI_resource_exhausted
     else case valid of Some e \<Rightarrow> Inl e | None \<Rightarrow>
       if n_output < unat (page_size_bytes (ip_header p)) then Inl NI_resource_exhausted
       else case ProjectValidatedLocalHorizons (ip_inventory p) [] of
         Inl _ \<Rightarrow> Inl NI_invalid_inventory
       | Inr horizons \<Rightarrow> EncodeValues sha p horizons)"

definition DecodeNativeTransactionInventoryPageInto ::
  "sha256 \<Rightarrow> byte list \<Rightarrow> nat \<Rightarrow> nat \<Rightarrow> nat \<Rightarrow> native_inventory_error + native_transaction_inventory_page" where
  "DecodeNativeTransactionInventoryPageInto sha bytes n_entries n_indices n_markers =
    DecodeInventoryValues sha bytes (Some (min n_entries (min n_indices n_markers))) ValidateBorrowed"

section \<open>Lemmas: duplicates by sorting\<close>

lemma mark_fold:
  assumes "distinct xs" "\<forall>i \<in> set js. i < length xs" "distinct js" "\<forall>x \<in> set xs. x < length m"
  shows "length (fold (\<lambda>i m. if P i then m[xs ! i := m ! (xs ! i) OR flag] else m) js m) = length m \<and>
    (\<forall>x < length m. fold (\<lambda>i m. if P i then m[xs ! i := m ! (xs ! i) OR flag] else m) js m ! x =
       (if \<exists>i \<in> set js. P i \<and> xs ! i = x then m ! x OR flag else m ! x))"
  using assms
proof (induction js arbitrary: m)
  case (Cons j js)
  let ?m = "if P j then m[xs ! j := m ! (xs ! j) OR flag] else m"
  have l: "length ?m = length m" by simp
  have u: "\<not> (\<exists>i \<in> set js. P i \<and> xs ! i = xs ! j)"
    using Cons.prems(1,2,3) by (auto simp: nth_eq_iff_index_eq)
  show ?case
    using Cons.IH [of ?m] Cons.prems u by (auto simp: nth_list_update)
qed simp

lemma index_length: "distinct is \<Longrightarrow> set is = {..<n} \<Longrightarrow> length is = n"
  using distinct_card [of "is"] by simp

lemma sorted_positions:
  fixes key :: "'a \<Rightarrow> 'k :: linorder" and xs :: "'a list"
  assumes "distinct is" "set is = {..<n}" "i < j" "j < n"
  defines "idx \<equiv> sort_key (\<lambda>i. (key (xs ! i), i)) is"
  shows "(key (xs ! (idx ! i)), idx ! i) < (key (xs ! (idx ! j)), idx ! j)"
proof -
  have d: "distinct idx" "length idx = n" using assms index_length [of "is" n] by (simp_all add: idx_def)
  have "sorted (map (\<lambda>i. (key (xs ! i), i)) idx)" unfolding idx_def by (rule sorted_sort_key)
  from sorted_nth_mono [OF this, of i j]
  have "(key (xs ! (idx ! i)), idx ! i) \<le> (key (xs ! (idx ! j)), idx ! j)" using assms(3,4) d(2) by simp
  moreover have "idx ! i \<noteq> idx ! j" using d assms(3,4) by (simp add: nth_eq_iff_index_eq)
  ultimately show ?thesis by (auto simp: less_le)
qed

text \<open>An index is marked exactly when an earlier entry has its key.\<close>

lemma neighbour_duplicate:
  fixes key :: "'a \<Rightarrow> 'k :: linorder" and xs :: "'a list"
  assumes "distinct is" "set is = {..<n}" "x < n"
  defines "idx \<equiv> sort_key (\<lambda>i. (key (xs ! i), i)) is"
  shows "(\<exists>i \<in> set [1..<n]. key (xs ! (idx ! i)) = key (xs ! (idx ! (i - 1))) \<and> idx ! i = x) \<longleftrightarrow>
    (\<exists>y < x. key (xs ! y) = key (xs ! x))"
proof
  note less = sorted_positions [OF assms(1,2), of _ _ key xs, folded idx_def]
  assume "\<exists>i \<in> set [1..<n]. key (xs ! (idx ! i)) = key (xs ! (idx ! (i - 1))) \<and> idx ! i = x"
  then obtain i where "1 \<le> i" "i < n" "key (xs ! x) = key (xs ! (idx ! (i - 1)))" "idx ! i = x" by auto
  with less [of "i - 1" i] show "\<exists>y < x. key (xs ! y) = key (xs ! x)" by (intro exI [of _ "idx ! (i - 1)"]) auto
next
  note less = sorted_positions [OF assms(1,2), of _ _ key xs, folded idx_def]
  assume "\<exists>y < x. key (xs ! y) = key (xs ! x)"
  then obtain y where y: "y < x" "key (xs ! y) = key (xs ! x)" by blast
  have "set idx = {..<n}" "length idx = n" using assms(1,2) index_length by (auto simp: idx_def)
  then obtain i j where i: "i < n" "idx ! i = x" and j: "j < n" "idx ! j = y"
    using assms(3) y(1) by (metis in_set_conv_nth lessThan_iff less_trans)
  have "j < i" using less [of i j] i j y by (cases i j rule: linorder_cases) auto
  have "key (xs ! y) \<le> key (xs ! (idx ! (i - 1)))"
  proof (cases "j = i - 1")
    case False
    then have "j < i - 1" "i - 1 < n" using \<open>j < i\<close> i(1) by linarith+
    from less [OF this] show ?thesis using j by auto
  qed (use j in simp)
  moreover have "key (xs ! (idx ! (i - 1))) \<le> key (xs ! x)"
    using less [of "i - 1" i] \<open>j < i\<close> i by auto
  ultimately have "key (xs ! (idx ! (i - 1))) = key (xs ! x)" using y(2) by simp
  with i \<open>j < i\<close> show "\<exists>i \<in> set [1..<n]. key (xs ! (idx ! i)) = key (xs ! (idx ! (i - 1))) \<and> idx ! i = x"
    by (intro bexI [of _ i]) auto
qed

definition repeats :: "('a \<Rightarrow> 'k) \<Rightarrow> 'a list \<Rightarrow> nat \<Rightarrow> bool" where
  "repeats key xs x \<longleftrightarrow> (\<exists>y < x. key (xs ! y) = key (xs ! x))"

lemma mark_spec:
  fixes key :: "transaction_inventory_entry \<Rightarrow> 'k :: linorder"
  assumes "distinct is" "set is = {..<length rows}" "length m = length rows" "mark rows key flag (is, m) = (is', m')"
  shows "distinct is' \<and> set is' = {..<length rows} \<and> length m' = length rows \<and>
    (\<forall>x < length rows. m' ! x = (if repeats key rows x then m ! x OR flag else m ! x))"
proof (cases "length rows < 2")
  case True
  then show ?thesis using assms by (auto simp: mark_def repeats_def)
next
  case False
  let ?i = "sort_key (\<lambda>i. (key (rows ! i), i)) is"
  have i: "is' = ?i" and m: "m' = fold (\<lambda>i m. if key (rows ! (?i ! i)) = key (rows ! (?i ! (i - 1)))
      then m[?i ! i := m ! (?i ! i) OR flag] else m) [1..<length rows] m"
    using assms(4) False by (auto simp: mark_def Let_def)
  have l: "length ?i = length rows" using index_length [OF assms(1,2)] by simp
  show ?thesis
    using mark_fold [of ?i "[1..<length rows]" m "\<lambda>i. key (rows ! (?i ! i)) = key (rows ! (?i ! (i - 1)))" flag]
      neighbour_duplicate [OF assms(1,2), of _ key rows] assms(1-3) l
    unfolding i m repeats_def by simp
qed

section \<open>The structural checks agree\<close>

lemma repeats_at: "repeats key (pre @ e # es) (length pre) \<longleftrightarrow> key e \<in> key ` set pre"
proof -
  have "repeats key (pre @ e # es) (length pre) \<longleftrightarrow> (\<exists>y < length pre. key (pre ! y) = key e)"
    by (simp add: repeats_def nth_append cong: conj_cong)
  then show ?thesis by (metis (no_types, lifting) imageE image_eqI in_set_conv_nth)
qed

lemma uuid_bytes_eq: "uuid_bytes u = uuid_bytes v \<longleftrightarrow> u = v"
  by (auto intro: uuid.expand)

lemma uuid_bytes_image: "uuid_bytes u \<in> (\<lambda>e. uuid_bytes (f e)) ` A \<longleftrightarrow> u \<in> f ` A"
  by (auto simp: image_iff intro: uuid.expand)

lemma structure_at:
  assumes "rows = pre @ es" "\<forall>e \<in> set pre. \<not> HasCommittedInventoryOutcome e \<longrightarrow> commit_sequence e = 0"
    and marks: "\<And>i. i < length rows \<Longrightarrow> cu i = (\<not> repeats commit_sequence rows i)"
      "\<And>i. i < length rows \<Longrightarrow> lu i = (\<not> repeats entry_id rows i)"
      "\<And>i. i < length rows \<Longrightarrow> uu i = (\<not> repeats (\<lambda>e. uuid_bytes (entry_uuid e)) rows i)"
  shows "ValidateInventoryStructureAt nid ncs cu lu uu (length pre) es =
    ValidateInventoryStructure nid ncs (commit_sequence ` {e \<in> set pre. HasCommittedInventoryOutcome e})
      (entry_id ` set pre) (entry_uuid ` set pre) es"
  using assms(1,2)
proof (induction es arbitrary: pre)
  case (Cons e es)
  have i: "length pre < length rows" using Cons.prems by simp
  have l: "lu (length pre) = (entry_id e \<notin> entry_id ` set pre)"
    "uu (length pre) = (entry_uuid e \<notin> entry_uuid ` set pre)"
    using marks(2,3) [OF i] unfolding Cons.prems(1) by (simp_all add: repeats_at uuid_bytes_image)
  have c: "cu (length pre) = (commit_sequence e \<notin> commit_sequence ` {e \<in> set pre. HasCommittedInventoryOutcome e})"
    if "commit_sequence e \<noteq> 0"
    using marks(1) [OF i] that Cons.prems(2) unfolding Cons.prems(1) by (auto simp: repeats_at)
  have step: "ValidateInventoryStructureAt nid ncs cu lu uu (Suc (length pre)) es =
      ValidateInventoryStructure nid ncs
        (if HasCommittedInventoryOutcome e
         then insert (commit_sequence e) (commit_sequence ` {e \<in> set pre. HasCommittedInventoryOutcome e})
         else commit_sequence ` {e \<in> set pre. HasCommittedInventoryOutcome e})
        (insert (entry_id e) (entry_id ` set pre)) (insert (entry_uuid e) (entry_uuid ` set pre)) es"
    if "\<not> HasCommittedInventoryOutcome e \<longrightarrow> commit_sequence e = 0"
  proof -
    have s: "{x. (x = e \<or> x \<in> set pre) \<and> HasCommittedInventoryOutcome x} =
        (if HasCommittedInventoryOutcome e then insert e else id) {x \<in> set pre. HasCommittedInventoryOutcome x}"
      by auto
    show ?thesis using Cons.IH [of "pre @ [e]"] Cons.prems that by (auto simp: s)
  qed
  show ?case using l c step by auto
qed simp

lemma borrowed_structure: "ValidateBorrowed ivt = ValidateLocalTransactionInventoryStructure ivt"
proof -
  let ?r = "entries ivt" and ?k = "\<lambda>e. uuid_bytes (entry_uuid e)"
  obtain i1 m1 where 1: "mark ?r commit_sequence 1 ([0..<length ?r], replicate (length ?r) 0) = (i1, m1)" by fastforce
  obtain i2 m2 where 2: "mark ?r entry_id 2 (i1, m1) = (i2, m2)" by fastforce
  obtain i3 m3 where 3: "mark ?r ?k 4 (i2, m2) = (i3, m3)" by fastforce
  have s1: "distinct i1 \<and> set i1 = {..<length ?r} \<and> length m1 = length ?r \<and>
      (\<forall>x < length ?r. m1 ! x = (if repeats commit_sequence ?r x then replicate (length ?r) 0 ! x OR 1
         else replicate (length ?r) 0 ! x))"
    by (rule mark_spec [OF _ _ _ 1]) auto
  have s2: "distinct i2 \<and> set i2 = {..<length ?r} \<and> length m2 = length ?r \<and>
      (\<forall>x < length ?r. m2 ! x = (if repeats entry_id ?r x then m1 ! x OR 2 else m1 ! x))"
    by (rule mark_spec [OF _ _ _ 2]) (use s1 in auto)
  have s3: "\<forall>x < length ?r. m3 ! x = (if repeats ?k ?r x then m2 ! x OR 4 else m2 ! x)"
    using mark_spec [OF _ _ _ 3] s2 by blast
  have m: "m3 ! x = (if repeats commit_sequence ?r x then 1 else 0) OR (if repeats entry_id ?r x then 2 else 0) OR
      (if repeats ?k ?r x then 4 else 0)" if "x < length ?r" for x
    using s1 s2 s3 that by (simp add: or.assoc)
  have "ValidateInventoryStructureAt (next_local_transaction_id ivt) (next_commit_sequence ivt)
      (\<lambda>i. m3 ! i AND 1 = 0) (\<lambda>i. m3 ! i AND 2 = 0) (\<lambda>i. m3 ! i AND 4 = 0) 0 ?r =
    ValidateInventoryStructure (next_local_transaction_id ivt) (next_commit_sequence ivt) {} {} {} ?r"
    using structure_at [where rows = ?r and pre = "[]" and es = ?r and nid = "next_local_transaction_id ivt"
        and ncs = "next_commit_sequence ivt" and cu = "\<lambda>i. m3 ! i AND 1 = 0" and lu = "\<lambda>i. m3 ! i AND 2 = 0"
        and uu = "\<lambda>i. m3 ! i AND 4 = 0"]
    by (simp add: m)
  then show ?thesis
    by (simp add: ValidateBorrowed_def ValidateLocalTransactionInventoryStructure_def 1 2 3 Let_def)
qed

section \<open>The successor checks agree\<close>

lemma sorted_indices_spec:
  "set (sorted_indices old key) = {..<length old}" "sorted (map (\<lambda>i. key (old ! i)) (sorted_indices old key))"
proof -
  show "set (sorted_indices old key) = {..<length old}" by (auto simp: sorted_indices_def)
  show "sorted (map (\<lambda>i. key (old ! i)) (sorted_indices old key))"
  proof (cases "1 < length old")
    case False
    then have "length old = 0 \<or> length old = 1" by linarith
    then show ?thesis by (auto simp: sorted_indices_def)
  qed (simp add: sorted_indices_def)
qed

lemma lower_bound_key:
  fixes key :: "'a \<Rightarrow> 'k :: linorder"
  assumes s: "sorted (map key xs)" and y: "y \<in> set xs" "key y = x"
  shows "lower_bound (\<lambda>i. key i < x) xs < length xs" "key (xs ! lower_bound (\<lambda>i. key i < x) xs) = x"
proof -
  let ?at = "lower_bound (\<lambda>i. key i < x) xs"
  obtain p where p: "p < length xs" "xs ! p = y" using y(1) by (auto simp: in_set_conv_nth)
  have le: "?at \<le> p"
  proof (rule ccontr)
    assume "\<not> ?at \<le> p"
    then have q: "p < length (takeWhile (\<lambda>i. key i < x) xs)" by (simp add: lower_bound_def)
    from set_takeWhileD [OF nth_mem [OF q]] have "key (xs ! p) < x" by (simp add: takeWhile_nth [OF q])
    then show False using p(2) y(2) by simp
  qed
  then show at: "?at < length xs" using p(1) by simp
  have "\<not> key (xs ! ?at) < x" using nth_length_takeWhile at unfolding lower_bound_def by fastforce
  moreover have "key (xs ! ?at) \<le> key (xs ! p)" using sorted_nth_mono [OF s le] p(1) at by simp
  ultimately show "key (xs ! ?at) = x" using p(2) y(2) by simp
qed

lemma find_index_iff:
  assumes "distinct (map key old)"
  shows "find_index old key (sorted_indices old key) x = Some i \<longleftrightarrow> i < length old \<and> key (old ! i) = x"
    and "find_index old key (sorted_indices old key) x = None \<longleftrightarrow> x \<notin> key ` set old"
proof -
  let ?idx = "sorted_indices old key"
  let ?at = "lower_bound (\<lambda>i. key (old ! i) < x) ?idx"
  note s = sorted_indices_spec [where old = old and key = key]
  have hit: "?at < length ?idx \<and> key (old ! (?idx ! ?at)) = x" if "i < length old" "key (old ! i) = x" for i
    using lower_bound_key [OF s(2), of i x] s(1) that by simp
  have in_range: "?idx ! ?at < length old" if "?at \<noteq> length ?idx"
  proof -
    have "?at \<le> length ?idx" by (simp add: lower_bound_def length_takeWhile_le)
    then have "?idx ! ?at \<in> set ?idx" using that by (intro nth_mem) simp
    then show ?thesis using s(1) by simp
  qed
  have inj: "i = j" if "i < length old" "j < length old" "key (old ! i) = key (old ! j)" for i j
    using assms that by (metis length_map nth_eq_iff_index_eq nth_map)
  show some: "find_index old key ?idx x = Some i \<longleftrightarrow> i < length old \<and> key (old ! i) = x" for i
    using hit [of i] in_range inj by (auto simp: find_index_def Let_def)
  have "find_index old key ?idx x = None \<longleftrightarrow> (\<forall>i. \<not> (i < length old \<and> key (old ! i) = x))"
    unfolding some [symmetric] by (cases "find_index old key ?idx x") auto
  also have "\<dots> \<longleftrightarrow> x \<notin> key ` set old" by (metis (no_types, lifting) imageE image_eqI in_set_conv_nth)
  finally show "find_index old key ?idx x = None \<longleftrightarrow> x \<notin> key ` set old" .
qed

text \<open>
  The entries not yet retained, as the owning check keeps them in its map and as the marks of the
  view tell.
\<close>

definition unmarked :: "transaction_inventory_entry list \<Rightarrow> byte list \<Rightarrow> transaction_inventory_entry list" where
  "unmarked old m = map ((!) old) (filter (\<lambda>i. m ! i = 0) [0..<length old])"

lemma set_unmarked: "set (unmarked old m) = {old ! i |i. i < length old \<and> m ! i = 0}"
  by (auto simp: unmarked_def)

lemma unmarked_mark:
  assumes "distinct (map entry_id old)" "i < length old" "length m = length old"
  shows "unmarked old (m[i := 1]) = filter (\<lambda>o'. entry_id o' \<noteq> entry_id (old ! i)) (unmarked old m)"
proof -
  have "entry_id (old ! j) = entry_id (old ! i) \<longleftrightarrow> j = i" if "j < length old" for j
    using assms(1,2) that by (metis length_map nth_eq_iff_index_eq nth_map)
  then show ?thesis
    unfolding unmarked_def using assms(2,3)
    by (auto simp: filter_map o_def nth_list_update intro!: arg_cong [where f = "map ((!) old)"] filter_cong)
qed

lemma find_unique: "x \<in> set xs \<Longrightarrow> P x \<Longrightarrow> \<forall>y \<in> set xs. P y \<longrightarrow> y = x \<Longrightarrow> find P xs = Some x"
proof (induction xs)
  case (Cons y ys)
  then show ?case by (cases "P y") (metis find.simps(2) list.set_intros(1), metis find.simps(2) list.set_intros(2) set_ConsD)
qed simp

lemma find_unmarked:
  assumes "distinct (map entry_id old)" "\<forall>i < length old. m ! i \<noteq> 0 \<longrightarrow> entry_id (old ! i) \<noteq> x"
  shows "find (\<lambda>o'. entry_id o' = x) (unmarked old m) =
    map_option ((!) old) (find_index old entry_id (sorted_indices old entry_id) x)"
proof (cases "find_index old entry_id (sorted_indices old entry_id) x")
  case None
  then show ?thesis using find_index_iff(2) [OF assms(1), of x] by (auto simp: find_None_iff set_unmarked image_iff)
next
  case (Some i)
  then have i: "i < length old" "entry_id (old ! i) = x" using find_index_iff(1) [OF assms(1)] by auto
  then have mem: "old ! i \<in> set (unmarked old m)" using assms(2) by (auto simp: set_unmarked)
  have uniq: "\<forall>o' \<in> set (unmarked old m). entry_id o' = x \<longrightarrow> o' = old ! i"
  proof (intro ballI impI)
    fix o' assume "o' \<in> set (unmarked old m)" "entry_id o' = x"
    then obtain j where "j < length old" "o' = old ! j" "entry_id (old ! j) = x" by (auto simp: set_unmarked)
    then show "o' = old ! i" using find_index_iff(1) [OF assms(1), of x j] Some by simp
  qed
  have "find (\<lambda>o'. entry_id o' = x) (unmarked old m) = Some (old ! i)" by (rule find_unique [OF mem i(2) uniq])
  then show ?thesis using Some by simp
qed

lemma evolution_at:
  assumes before: "distinct (map entry_id (entries before))" "distinct (map entry_uuid (entries before))"
    and "length m = length (entries before)" "distinct (map entry_id es)"
    and "\<forall>e \<in> set es. \<forall>i < length (entries before). m ! i \<noteq> 0 \<longrightarrow> entry_id (entries before ! i) \<noteq> entry_id e"
  shows "ValidateInventoryEvolutionAt before (sorted_indices (entries before) entry_id)
      (sorted_indices (entries before) (\<lambda>e. uuid_bytes (entry_uuid e))) m es =
    ValidateInventoryEvolutionEntries before (unmarked (entries before) m) es"
  using assms(3-5)
proof (induction es arbitrary: m)
  case Nil
  then show ?case by (auto simp: unmarked_def list_ex_iff)
next
  case (Cons e es)
  let ?old = "entries before"
  have u: "distinct (map (\<lambda>e. uuid_bytes (entry_uuid e)) ?old)"
    using before(2) by (auto simp: distinct_conv_nth intro: uuid.expand)
  have f: "find (\<lambda>o'. entry_id o' = entry_id e) (unmarked ?old m) =
      map_option ((!) ?old) (find_index ?old entry_id (sorted_indices ?old entry_id) (entry_id e))"
    using Cons.prems(3) by (intro find_unmarked [OF before(1)]) simp
  show ?case
  proof (cases "find_index ?old entry_id (sorted_indices ?old entry_id) (entry_id e)")
    case None
    have known: "(find_index ?old (\<lambda>e. uuid_bytes (entry_uuid e)) (sorted_indices ?old (\<lambda>e. uuid_bytes (entry_uuid e)))
        (uuid_bytes (entry_uuid e)) \<noteq> None) = list_ex (\<lambda>o'. entry_uuid o' = entry_uuid e) ?old"
      unfolding find_index_iff(2) [OF u] list_ex_iff image_iff uuid_bytes_eq not_not
      by (auto intro: sym)
    have "ValidateInventoryEvolutionAt before (sorted_indices ?old entry_id)
        (sorted_indices ?old (\<lambda>e. uuid_bytes (entry_uuid e))) m es =
      ValidateInventoryEvolutionEntries before (unmarked ?old m) es"
      using Cons.prems by (intro Cons.IH) simp_all
    then show ?thesis
      unfolding ValidateInventoryEvolutionAt.simps ValidateInventoryEvolutionEntries.simps f known None by simp
  next
    case (Some i)
    then have i: "i < length ?old" "entry_id (?old ! i) = entry_id e" using find_index_iff(1) [OF before(1)] by auto
    have "ValidateInventoryEvolutionAt before (sorted_indices ?old entry_id)
        (sorted_indices ?old (\<lambda>e. uuid_bytes (entry_uuid e))) (m[i := 1]) es =
      ValidateInventoryEvolutionEntries before (unmarked ?old (m[i := 1])) es"
      using Cons.prems i by (intro Cons.IH) (auto simp: nth_list_update)
    then show ?thesis
      unfolding ValidateInventoryEvolutionAt.simps ValidateInventoryEvolutionEntries.simps f Some
        unmarked_mark [OF before(1) i(1) Cons.prems(1)] Let_def option.map option.case by (simp only:)
  qed
qed

lemma evolution_view:
  assumes "max (length (entries before)) (length (entries after)) \<le> n_indices"
    "max (length (entries before)) (length (entries after)) \<le> n_markers" "length (entries before) \<le> n_uuids"
  shows "ValidateNativeTransactionInventoryEvolutionView before after n_indices n_uuids n_markers =
    (let why = ValidateLocalTransactionInventoryEvolution before after in
     (if why \<noteq> '''' then Some NI_invalid_inventory else None, why))"
proof -
  have fits: "(n_indices < max (length (entries before)) (length (entries after)) \<or>
      n_markers < max (length (entries before)) (length (entries after)) \<or> n_uuids < length (entries before)) = False"
    using assms by (auto simp: not_less)
  show ?thesis
  proof (cases "valid_inventory before \<and> valid_inventory after")
    case True
    have "ValidateInventoryEvolutionAt before (sorted_indices (entries before) entry_id)
        (sorted_indices (entries before) (\<lambda>e. uuid_bytes (entry_uuid e)))
        (replicate (length (entries before)) 0) (entries after) =
      ValidateInventoryEvolutionEntries before (unmarked (entries before) (replicate (length (entries before)) 0)) (entries after)"
      using True by (intro evolution_at) (auto simp: valid_inventory_def)
    moreover have "unmarked (entries before) (replicate (length (entries before)) 0) = entries before"
      by (simp add: unmarked_def map_nth cong: filter_cong)
    ultimately show ?thesis
      using True fits structure_valid_iff [of before] structure_valid_iff [of after]
      by (simp add: ValidateNativeTransactionInventoryEvolutionView_def ValidateLocalTransactionInventoryEvolution_def
          ValidateInventoryEvolutionValues_def borrowed_structure Let_def)
  next
    case False
    then show ?thesis
      using fits structure_valid_iff [of before] structure_valid_iff [of after]
      by (auto simp: ValidateNativeTransactionInventoryEvolutionView_def ValidateLocalTransactionInventoryEvolution_def
          borrowed_structure Let_def)
  qed
qed

section \<open>The codecs agree\<close>

lemma entries_at_length: "entries_at off n b = Some es \<Longrightarrow> length es = n"
  by (induction off n b arbitrary: es rule: entries_at.induct) (auto split: option.splits)

lemma decode_into:
  "DecodeNativeTransactionInventoryPageInto sha b n_entries n_indices n_markers = Inr p \<longleftrightarrow>
    DecodeNativeTransactionInventoryPage sha b = Inr (p, b) \<and>
    length (entries (ip_inventory p)) \<le> min n_entries (min n_indices n_markers)"
proof -
  have v: "ValidateBorrowed = ValidateLocalTransactionInventoryStructure" using borrowed_structure by blast
  have "DecodeNativeTransactionInventoryPage sha b = Inr (p, b) \<longleftrightarrow>
      DecodeInventoryValues sha b None ValidateLocalTransactionInventoryStructure = Inr p"
    by (simp add: DecodeNativeTransactionInventoryPage_def split: sum.splits)
  moreover have "DecodeInventoryValues sha b (Some c) vi = Inr p \<longleftrightarrow>
      DecodeInventoryValues sha b None vi = Inr p \<and> unat (load32 184 b) \<le> c" for c vi
    unfolding Decode_iff by blast
  moreover have "length (entries (ip_inventory p)) = unat (load32 184 b)" if "DecodeInventoryValues sha b None vi = Inr p" for vi
    using that entries_at_length unfolding Decode_iff by (force simp: decoded_page_def)
  ultimately show ?thesis
    unfolding DecodeNativeTransactionInventoryPageInto_def v by auto
qed

lemma EncodeValues_iff:
  "EncodeValues sha p h = Inr b \<longleftrightarrow> (\<exists>hb d. EncodeNativeCommonPageHeader (ip_header p) = Inr hb \<and>
    Digest sha (page_fields p h hb) = Some d \<and> b = store_at 320 d (page_fields p h hb))"
  by (auto simp: EncodeValues_def Let_def split: sum.splits option.splits)

lemma encode_into:
  "EncodeNativeTransactionInventoryPageInto sha p n_output n_indices n_markers = Inr b \<longleftrightarrow>
    (\<exists>q. EncodeNativeTransactionInventoryPage sha p = Inr (q, b)) \<and> page_length p \<le> n_output \<and>
    length (entries (ip_inventory p)) \<le> min n_indices n_markers"
proof -
  have v: "ValidateBorrowed = ValidateLocalTransactionInventoryStructure" using borrowed_structure by blast
  have s: "Validate p (\<lambda>_. ''insufficient_backing'') \<noteq> None" by (simp add: Validate_def)
  show ?thesis
  proof (cases "n_indices < length (entries (ip_inventory p)) \<or> n_markers < length (entries (ip_inventory p))")
    case True
    then show ?thesis using s by (auto simp: EncodeNativeTransactionInventoryPageInto_def Let_def split: option.splits)
  next
    case False
    then have "length (entries (ip_inventory p)) \<le> min n_indices n_markers" by auto
    moreover have "EncodeNativeTransactionInventoryPageInto sha p n_output n_indices n_markers =
      (case Validate p ValidateLocalTransactionInventoryStructure of Some e \<Rightarrow> Inl e | None \<Rightarrow>
         if n_output < page_length p then Inl NI_resource_exhausted
         else case ProjectValidatedLocalHorizons (ip_inventory p) [] of
           Inl _ \<Rightarrow> Inl NI_invalid_inventory | Inr horizons \<Rightarrow> EncodeValues sha p horizons)"
      using False by (simp add: EncodeNativeTransactionInventoryPageInto_def v Let_def)
    ultimately show ?thesis
      by (cases "Validate p ValidateLocalTransactionInventoryStructure";
          cases "ProjectValidatedLocalHorizons (ip_inventory p) []")
        (auto simp: Encode_iff EncodeValues_iff)
  qed
qed

section \<open>Properties\<close>

text \<open>
  C15. The routines that work in buffers of the caller refine the owning ones. The structural check
  with sorted indices and duplicate marks gives the same reason as the check with sets, on every
  inventory. The successor check that searches sorted indices gives the verdict and the reason of the
  one with maps, unless a buffer is too short for the entries, which it reports. The codecs succeed
  exactly when the owning codecs do and the buffers suffice, with the same page and the same image.
\<close>

theorem buffer_routines_refine_owning_ones:
  "ValidateBorrowed ivt = ValidateLocalTransactionInventoryStructure ivt \<and>
   ValidateNativeTransactionInventoryEvolutionView before after n_indices n_uuids n_markers =
    (if n_indices < max (length (entries before)) (length (entries after)) \<or>
        n_markers < max (length (entries before)) (length (entries after)) \<or> n_uuids < length (entries before)
     then (Some NI_resource_exhausted, ''insufficient_backing'')
     else (if ValidateLocalTransactionInventoryEvolution before after \<noteq> '''' then Some NI_invalid_inventory else None,
           ValidateLocalTransactionInventoryEvolution before after)) \<and>
   (DecodeNativeTransactionInventoryPageInto sha b n_entries n_indices n_markers = Inr p \<longleftrightarrow>
    DecodeNativeTransactionInventoryPage sha b = Inr (p, b) \<and>
    length (entries (ip_inventory p)) \<le> min n_entries (min n_indices n_markers)) \<and>
   (EncodeNativeTransactionInventoryPageInto sha p n_output n_indices n_markers = Inr b \<longleftrightarrow>
    (\<exists>q. EncodeNativeTransactionInventoryPage sha p = Inr (q, b)) \<and> page_length p \<le> n_output \<and>
    length (entries (ip_inventory p)) \<le> min n_indices n_markers)"
proof (intro conjI)
  show "ValidateNativeTransactionInventoryEvolutionView before after n_indices n_uuids n_markers =
    (if n_indices < max (length (entries before)) (length (entries after)) \<or>
        n_markers < max (length (entries before)) (length (entries after)) \<or> n_uuids < length (entries before)
     then (Some NI_resource_exhausted, ''insufficient_backing'')
     else (if ValidateLocalTransactionInventoryEvolution before after \<noteq> '''' then Some NI_invalid_inventory else None,
           ValidateLocalTransactionInventoryEvolution before after))"
    using evolution_view [of before after n_indices n_markers n_uuids]
    by (auto simp: not_less Let_def) (simp_all add: ValidateNativeTransactionInventoryEvolutionView_def Let_def)
qed (rule borrowed_structure decode_into encode_into)+

end
