(* ===== verification/TransactionRecovery.thy ===== *)
theory TransactionRecovery
  imports InventoryEvolution
begin

text \<open>
  Crash recovery of the inventory, \<^verbatim>\<open>transaction_recovery.{hpp,cpp}\<close>, and durable prepare,
  \<^verbatim>\<open>transaction_prepare.{hpp,cpp}\<close>. The recovery result keeps the classifications, the inventory and
  the flags on failure too, so it is a record with a status. The lemmas describe what recovery makes
  of every entry, that the successor check accepts the result and that a second recovery changes
  nothing.
\<close>

section \<open>Data\<close>

datatype transaction_recovery_action =
    RA_no_action | RA_complete_commit | RA_complete_rollback | RA_prepared_waiting_local_decision
  | RA_limbo_requires_operator | RA_fail_closed_ambiguous | RA_unknown | RA_cluster_provider_required

datatype limbo_operator_decision = LD_commit | LD_rollback | LD_fail_terminal | LD_unknown

record limbo_operator_resolution_policy =
  operator_decision_authoritative :: bool
  operator_evidence_reference :: string

record transaction_recovery_classification =
  rc_local_id :: local_transaction_id
  rc_observed_state :: transaction_state
  rc_action :: transaction_recovery_action
  rc_fail_closed :: bool
  rc_stable_reason :: string

record transaction_recovery_result =
  rr_status :: status
  rr_classifications :: "transaction_recovery_classification list"
  rr_recovered_inventory :: local_transaction_inventory
  rr_diagnostic :: "diagnostic_record option"
  rr_inventory_changed :: bool
  rr_write_admission_must_remain_fenced :: bool

record local_prepare_policy =
  local_prepare_enabled :: bool
  require_evidence_before_prepared_success :: bool

section \<open>Classification\<close>

definition MakeTransactionRecoveryDiagnostic ::
  "status \<Rightarrow> string \<Rightarrow> string \<Rightarrow> string \<Rightarrow> diagnostic_record" where
  "MakeTransactionRecoveryDiagnostic = component_diagnostic ''transaction.mga.recovery''"

definition classified ::
  "transaction_inventory_entry \<Rightarrow> transaction_recovery_action \<Rightarrow> bool \<Rightarrow> string \<Rightarrow> transaction_recovery_classification" where
  "classified e action closed reason =
    \<lparr>rc_local_id = entry_id e, rc_observed_state = entry_state e, rc_action = action, rc_fail_closed = closed,
     rc_stable_reason = reason\<rparr>"

definition classify_by_state :: "transaction_inventory_entry \<Rightarrow> transaction_recovery_classification" where
  "classify_by_state e =
    (case entry_state e of
       TS_none \<Rightarrow> classified e RA_fail_closed_ambiguous True ''missing_transaction_state''
     | TS_created \<Rightarrow> classified e RA_complete_rollback False ''uncommitted_local_state''
     | TS_active \<Rightarrow> classified e RA_complete_rollback False ''uncommitted_local_state''
     | TS_read_only_active \<Rightarrow> classified e RA_complete_rollback False ''uncommitted_local_state''
     | TS_preparing \<Rightarrow> classified e RA_complete_rollback False ''uncommitted_local_state''
     | TS_prepared \<Rightarrow> classified e RA_prepared_waiting_local_decision True ''prepared_requires_local_decision''
     | TS_committing \<Rightarrow>
         if evidence_record_required e \<and> \<not> evidence_record_written e
         then classified e RA_fail_closed_ambiguous True ''committing_without_durable_evidence''
         else classified e RA_complete_commit False ''commit_publication_incomplete''
     | TS_rolling_back \<Rightarrow> classified e RA_complete_rollback False ''rollback_publication_incomplete''
     | TS_committed \<Rightarrow> classified e RA_no_action False ''terminal_or_archived''
     | TS_rolled_back \<Rightarrow> classified e RA_no_action False ''terminal_or_archived''
     | TS_archived \<Rightarrow> classified e RA_no_action False ''terminal_or_archived''
     | TS_limbo \<Rightarrow> classified e RA_limbo_requires_operator True ''limbo_or_recovering_without_cluster_authority''
     | TS_recovering \<Rightarrow> classified e RA_limbo_requires_operator True ''limbo_or_recovering_without_cluster_authority''
     | TS_failed_terminal \<Rightarrow> classified e RA_fail_closed_ambiguous True ''failed_terminal_requires_review'')"

definition ClassifyLocalTransactionForRecovery ::
  "transaction_inventory_entry \<Rightarrow> transaction_recovery_classification" where
  "ClassifyLocalTransactionForRecovery e =
    (if scope (identity e) \<noteq> Scope_local_node \<and> scope (identity e) \<noteq> Scope_cluster_global then
       classified e RA_fail_closed_ambiguous True ''invalid_transaction_scope''
     else if (entry_state e = TS_archived \<and> InventoryVisibilityState e = TS_none) \<or>
             (entry_state e \<noteq> TS_archived \<and> archived_from_state e \<noteq> TS_none) then
       classified e RA_fail_closed_ambiguous True ''invalid_archived_transaction_origin''
     else if InventoryVisibilityState e = TS_failed_terminal then
       classified e RA_fail_closed_ambiguous True ''failed_terminal_requires_review''
     else if scope (identity e) = Scope_cluster_global \<and>
             entry_state e \<in> {TS_created, TS_active, TS_read_only_active, TS_preparing, TS_prepared, TS_committing,
                              TS_rolling_back, TS_limbo, TS_recovering} then
       classified e RA_cluster_provider_required True ''cluster_recovery_requires_provider_decision''
     else if rollback_only e \<and>
             entry_state e \<notin> {TS_committed, TS_committing, TS_rolled_back, TS_archived} then
       classified e RA_complete_rollback False ''rollback_only_local_state''
     else classify_by_state e)"

definition recovery_error ::
  "string \<Rightarrow> string \<Rightarrow> string \<Rightarrow> bool \<Rightarrow> transaction_recovery_result \<Rightarrow> transaction_recovery_result" where
  "recovery_error code key detail fence r =
    r\<lparr>rr_status := TransactionErrorStatus,
      rr_diagnostic := Some (MakeTransactionRecoveryDiagnostic TransactionErrorStatus code key detail),
      rr_write_admission_must_remain_fenced := rr_write_admission_must_remain_fenced r \<or> fence\<rparr>"

fun classify_entries ::
  "transaction_inventory_entry list \<Rightarrow> transaction_recovery_result \<Rightarrow> transaction_recovery_result" where
  "classify_entries [] r = r"
| "classify_entries (e # es) r =
    (if \<not> transaction_identity_valid (identity e) then
       recovery_error ''SB-SNTXN-RECOVERY-STATE-AMBIGUOUS'' ''transaction.recovery.invalid_identity'' [] False r
     else let c = ClassifyLocalTransactionForRecovery e in
       classify_entries es
         (r\<lparr>rr_classifications := rr_classifications r @ [c],
            rr_write_admission_must_remain_fenced := rr_write_admission_must_remain_fenced r \<or> rc_fail_closed c\<rparr>))"

definition empty_recovery_result :: transaction_recovery_result where
  "empty_recovery_result =
    \<lparr>rr_status = TransactionOkStatus, rr_classifications = [],
     rr_recovered_inventory = MakeEmptyLocalTransactionInventory, rr_diagnostic = None,
     rr_inventory_changed = False, rr_write_admission_must_remain_fenced = False\<rparr>"

definition ClassifyLocalTransactionInventoryForRecovery ::
  "local_transaction_inventory \<Rightarrow> transaction_recovery_result" where
  "ClassifyLocalTransactionInventoryForRecovery ivt =
    (if ValidateLocalTransactionInventoryStructure ivt \<noteq> '''' then
       recovery_error ''SB-SNTXN-RECOVERY-STATE-AMBIGUOUS'' ''transaction.recovery.inventory_invalid''
         (ValidateLocalTransactionInventoryStructure ivt) True empty_recovery_result
     else classify_entries (entries ivt) (empty_recovery_result\<lparr>rr_recovered_inventory := ivt\<rparr>))"

section \<open>Recovery\<close>

definition TransitionForRecovery ::
  "transaction_inventory_entry \<Rightarrow> transaction_state \<Rightarrow> u64 \<Rightarrow> transaction_inventory_entry result" where
  "TransitionForRecovery e next millis =
    bind_result (CheckTransactionStateTransition (entry_state e) next True) (\<lambda>_.
      Inr (if next \<in> {TS_committed, TS_rolled_back, TS_failed_terminal}
           then e\<lparr>entry_state := next, final_unix_epoch_millis := millis, evidence_record_written := True\<rparr>
           else e\<lparr>entry_state := next\<rparr>))"

definition ApplyRecoveryAction ::
  "transaction_inventory_entry \<Rightarrow> transaction_recovery_action \<Rightarrow> u64 \<Rightarrow> transaction_inventory_entry result" where
  "ApplyRecoveryAction e action millis =
    (case action of
       RA_complete_commit \<Rightarrow> TransitionForRecovery e TS_committed millis
     | RA_complete_rollback \<Rightarrow>
         bind_result (if entry_state e \<noteq> TS_rolling_back then TransitionForRecovery e TS_rolling_back millis else Inr e)
           (\<lambda>e1. TransitionForRecovery e1 TS_rolled_back millis)
     | _ \<Rightarrow> Inr e)"

text \<open>
  The loop over the entries: what it has made of them, the commit counter, whether an entry changed,
  whether the fence must stay, and the diagnostic of the transition that failed and ended the loop.
\<close>

fun recover_entries ::
  "u64 \<Rightarrow> u64 \<Rightarrow> transaction_inventory_entry list \<Rightarrow>
   transaction_inventory_entry list \<times> u64 \<times> bool \<times> bool \<times> diagnostic_record option" where
  "recover_entries millis ncs [] = ([], ncs, False, False, None)"
| "recover_entries millis ncs (e # es) =
    (let c = ClassifyLocalTransactionForRecovery e in
     if rc_fail_closed c then
       (case recover_entries millis ncs es of (es', ncs', changed, fenced, err) \<Rightarrow>
          (e # es', ncs', changed, True, err))
     else case ApplyRecoveryAction e (rc_action c) millis of
       Inl d \<Rightarrow> (e # es, ncs, False, True, Some d)
     | Inr e1 \<Rightarrow>
         if entry_state e1 \<noteq> entry_state e then
           if entry_state e1 = TS_committed then
             (case recover_entries millis (ncs + 1) es of (es', ncs', changed, fenced, err) \<Rightarrow>
                (e1\<lparr>commit_sequence := ncs\<rparr> # es', ncs', True, fenced, err))
           else
             (case recover_entries millis ncs es of (es', ncs', changed, fenced, err) \<Rightarrow>
                (e1 # es', ncs', True, fenced, err))
         else
           (case recover_entries millis ncs es of (es', ncs', changed, fenced, err) \<Rightarrow>
              (e1 # es', ncs', changed, fenced, err)))"

definition ApplyLocalTransactionInventoryRecovery ::
  "local_transaction_inventory \<Rightarrow> u64 \<Rightarrow> transaction_recovery_result" where
  "ApplyLocalTransactionInventoryRecovery ivt millis =
    (let r = ClassifyLocalTransactionInventoryForRecovery ivt;
         commit_count = of_nat (length (filter (\<lambda>c. \<not> rc_fail_closed c \<and> rc_action c = RA_complete_commit)
                                               (rr_classifications r))) :: u64 in
     if \<not> status_ok (rr_status r) then r
     else if u64_max - next_commit_sequence ivt < commit_count then
       recovery_error ''CATALOG.INVALID_INPUT'' ''transaction.recovery.commit_sequence_exhausted'' [] True r
     else case recover_entries millis (next_commit_sequence ivt) (entries ivt) of
       (es, ncs, changed, fenced, err) \<Rightarrow>
         r\<lparr>rr_status := (if err = None then rr_status r else TransactionErrorStatus),
           rr_diagnostic := (if err = None then rr_diagnostic r else err),
           rr_recovered_inventory := ivt\<lparr>entries := es, next_commit_sequence := ncs\<rparr>,
           rr_inventory_changed := changed,
           rr_write_admission_must_remain_fenced := rr_write_admission_must_remain_fenced r \<or> fenced\<rparr>)"

section \<open>Operator decisions\<close>

definition LimboOperatorDecisionName :: "limbo_operator_decision \<Rightarrow> string" where
  "LimboOperatorDecisionName d =
    (case d of LD_commit \<Rightarrow> ''commit'' | LD_rollback \<Rightarrow> ''rollback'' | LD_fail_terminal \<Rightarrow> ''fail_terminal''
     | LD_unknown \<Rightarrow> ''unknown'')"

definition TerminalStateForLimboDecision :: "limbo_operator_decision \<Rightarrow> transaction_state" where
  "TerminalStateForLimboDecision d =
    (case d of LD_commit \<Rightarrow> TS_committed | LD_rollback \<Rightarrow> TS_rolled_back | LD_fail_terminal \<Rightarrow> TS_failed_terminal
     | LD_unknown \<Rightarrow> TS_none)"

definition RecoveryInventoryError :: "string \<Rightarrow> string \<Rightarrow> string \<Rightarrow> 'a result" where
  "RecoveryInventoryError code key detail =
    Inl (MakeTransactionRecoveryDiagnostic TransactionErrorStatus code key detail)"

definition ResolveLimboLocalTransactionWithOperatorDecision ::
  "local_transaction_inventory \<Rightarrow> local_transaction_id \<Rightarrow> limbo_operator_decision \<Rightarrow> u64 \<Rightarrow>
   limbo_operator_resolution_policy \<Rightarrow> inventory_result" where
  "ResolveLimboLocalTransactionWithOperatorDecision ivt i decision millis policy =
    (if ValidateLocalTransactionInventoryStructure ivt \<noteq> '''' then
       RecoveryInventoryError ''CATALOG.INVALID_INPUT'' ''transaction.recovery.inventory_invalid''
         (ValidateLocalTransactionInventoryStructure ivt)
     else if decision = LD_commit \<and> next_commit_sequence ivt = u64_max then
       RecoveryInventoryError ''CATALOG.INVALID_INPUT'' ''transaction.recovery.commit_sequence_exhausted'' []
     else if \<not> local_id_valid i then
       RecoveryInventoryError ''SB-SNTXN-LIMBO-LOCAL-ID-INVALID'' ''transaction.recovery.limbo_local_id_invalid'' []
     else if decision = LD_unknown \<or> TerminalStateForLimboDecision decision = TS_none then
       RecoveryInventoryError ''SB-SNTXN-LIMBO-OPERATOR-DECISION-INVALID''
         ''transaction.recovery.limbo_operator_decision_invalid'' (LimboOperatorDecisionName decision)
     else if \<not> operator_decision_authoritative policy \<or> operator_evidence_reference policy = [] then
       RecoveryInventoryError ''SB-SNTXN-LIMBO-OPERATOR-AUTHORITY-REQUIRED''
         ''transaction.recovery.limbo_operator_authority_required'' ''authoritative operator evidence is required''
     else case FindEntry ivt i of
       None \<Rightarrow> RecoveryInventoryError ''SB-SNTXN-LIMBO-LOCAL-ID-NOT-FOUND''
                 ''transaction.recovery.limbo_local_id_not_found'' (to_string i)
     | Some e \<Rightarrow>
         if entry_state e \<noteq> TS_limbo then
           RecoveryInventoryError ''SB-SNTXN-LIMBO-STATE-REQUIRED'' ''transaction.recovery.limbo_state_required''
             (TransactionStateName (entry_state e))
         else if scope (identity e) = Scope_cluster_global then
           RecoveryInventoryError ''SB-SNTXN-LIMBO-EXTERNAL-PROVIDER-REQUIRED''
             ''transaction.recovery.limbo_external_provider_required''
             ''cluster-scope limbo resolution requires external cluster provider authority''
         else
           bind_result (TransitionForRecovery e TS_recovering millis) (\<lambda>e1.
           bind_result (TransitionForRecovery (e1\<lparr>evidence_record_required := True\<rparr>)
                          (TerminalStateForLimboDecision decision) millis) (\<lambda>e2.
             if entry_state e2 = TS_committed then
               let e3 = e2\<lparr>commit_sequence := next_commit_sequence ivt\<rparr> in
               Inr (StoreEntry (ivt\<lparr>next_commit_sequence := next_commit_sequence ivt + 1\<rparr>) i e3, e3)
             else Inr (StoreEntry ivt i e2, e2))))"

section \<open>Durable prepare\<close>

definition PrepareLocalTransactionDurable ::
  "local_transaction_inventory \<Rightarrow> local_transaction_id \<Rightarrow> local_prepare_policy \<Rightarrow> inventory_result" where
  "PrepareLocalTransactionDurable ivt i policy =
    (if \<not> local_prepare_enabled policy then RollbackLocalTransaction ivt i 0
     else case PrepareLocalTransaction ivt i of
       Inl d \<Rightarrow> Inl d
     | Inr (ivt1, e1) \<Rightarrow>
         if require_evidence_before_prepared_success policy then
           (case FindEntry ivt1 i of
              None \<Rightarrow> Inr (ivt1, e1)
            | Some e \<Rightarrow>
                let e2 = e\<lparr>evidence_record_required := True, evidence_record_written := True\<rparr> in
                Inr (StoreEntry ivt1 i e2, e2))
         else Inr (ivt1, e1))"

definition CompletePreparedLocalTransactionCommit ::
  "local_transaction_inventory \<Rightarrow> local_transaction_id \<Rightarrow> u64 \<Rightarrow> inventory_result" where
  "CompletePreparedLocalTransactionCommit ivt i millis = CommitLocalTransaction ivt i millis"

definition CompletePreparedLocalTransactionRollback ::
  "local_transaction_inventory \<Rightarrow> local_transaction_id \<Rightarrow> u64 \<Rightarrow> inventory_result" where
  "CompletePreparedLocalTransactionRollback ivt i millis = RollbackLocalTransaction ivt i millis"

section \<open>What recovery makes of an entry\<close>

definition completes :: "transaction_inventory_entry \<Rightarrow> bool" where
  "completes e \<longleftrightarrow> scope (identity e) = Scope_local_node \<and> entry_state e = TS_committing \<and>
    (evidence_record_required e \<longrightarrow> evidence_record_written e)"

definition rolls_back :: "transaction_inventory_entry \<Rightarrow> bool" where
  "rolls_back e \<longleftrightarrow> scope (identity e) = Scope_local_node \<and>
    (entry_state e \<in> {TS_created, TS_active, TS_read_only_active, TS_preparing, TS_rolling_back} \<or>
     entry_state e = TS_prepared \<and> rollback_only e)"

text \<open>
  A local transaction in limbo or recovering that was marked rollback-only; the table has no edge for its
  rollback.
\<close>

definition stuck :: "transaction_inventory_entry \<Rightarrow> bool" where
  "stuck e \<longleftrightarrow> scope (identity e) = Scope_local_node \<and> rollback_only e \<and> entry_state e \<in> {TS_limbo, TS_recovering}"

definition recovered_entry :: "u64 \<Rightarrow> u64 \<Rightarrow> transaction_inventory_entry \<Rightarrow> transaction_inventory_entry" where
  "recovered_entry ncs millis e =
    (if completes e then committed_entry ncs millis e
     else if rolls_back e then
       e\<lparr>entry_state := TS_rolled_back, final_unix_epoch_millis := millis, evidence_record_written := True\<rparr>
     else e)"

fun recovered_entries :: "u64 \<Rightarrow> u64 \<Rightarrow> transaction_inventory_entry list \<Rightarrow> transaction_inventory_entry list" where
  "recovered_entries millis ncs [] = []"
| "recovered_entries millis ncs (e # es) =
    recovered_entry ncs millis e # recovered_entries millis (if completes e then ncs + 1 else ncs) es"

lemma TransitionForRecovery_Inr:
  "TransitionForRecovery e s millis = Inr e' \<longleftrightarrow> edge True (entry_state e) s \<and>
    e' = (if s \<in> {TS_committed, TS_rolled_back, TS_failed_terminal}
          then e\<lparr>entry_state := s, final_unix_epoch_millis := millis, evidence_record_written := True\<rparr>
          else e\<lparr>entry_state := s\<rparr>)"
  using check_transition_cases [of "entry_state e" s True]
  by (auto simp: TransitionForRecovery_def edge_def bind_result_eq_Inr)

lemma classified_simps [simp]:
  "rc_action (classified e a c r) = a" "rc_fail_closed (classified e a c r) = c"
  by (simp_all add: classified_def)

lemma classification:
  assumes "entry_ok nid ncs e"
  shows "rc_fail_closed (ClassifyLocalTransactionForRecovery e) \<longleftrightarrow>
      unresolved e \<and> \<not> completes e \<and> \<not> rolls_back e \<and> \<not> stuck e"
    and "completes e \<Longrightarrow> rc_action (ClassifyLocalTransactionForRecovery e) = RA_complete_commit"
    and "rolls_back e \<or> stuck e \<Longrightarrow> rc_action (ClassifyLocalTransactionForRecovery e) = RA_complete_rollback"
    and "\<not> unresolved e \<Longrightarrow> rc_action (ClassifyLocalTransactionForRecovery e) = RA_no_action"
proof -
  have s: "scope (identity e) = Scope_local_node \<or> scope (identity e) = Scope_cluster_global"
    using assms by (auto simp: entry_ok_def dest: identity_valid_scope)
  have a: "entry_state e \<noteq> TS_archived \<Longrightarrow> archived_from_state e = TS_none"
    "entry_state e = TS_archived \<Longrightarrow> archived_from_state e \<in> {TS_committed, TS_rolled_back, TS_failed_terminal}"
    "entry_state e \<noteq> TS_none"
    using assms by (auto simp: entry_ok_def split: if_splits)
  note d = ClassifyLocalTransactionForRecovery_def classify_by_state_def InventoryVisibilityState_def unresolved_def
    completes_def rolls_back_def stuck_def
  show "rc_fail_closed (ClassifyLocalTransactionForRecovery e) \<longleftrightarrow>
      unresolved e \<and> \<not> completes e \<and> \<not> rolls_back e \<and> \<not> stuck e"
    using s a by (cases "entry_state e") (auto simp: d)
  show "completes e \<Longrightarrow> rc_action (ClassifyLocalTransactionForRecovery e) = RA_complete_commit"
    using s a by (cases "entry_state e") (auto simp: d)
  show "rolls_back e \<or> stuck e \<Longrightarrow> rc_action (ClassifyLocalTransactionForRecovery e) = RA_complete_rollback"
    using s a by (cases "entry_state e") (auto simp: d)
  show "\<not> unresolved e \<Longrightarrow> rc_action (ClassifyLocalTransactionForRecovery e) = RA_no_action"
    using s a by (cases "entry_state e") (auto simp: d)
qed

lemma planned_unresolved:
  assumes "entry_ok nid ncs e" "completes e \<or> rolls_back e \<or> stuck e"
  shows "unresolved e"
  using assms by (cases "entry_state e") (auto simp: completes_def rolls_back_def stuck_def unresolved_def
      InventoryVisibilityState_def entry_ok_def)

lemma stuck_apply: "stuck e \<Longrightarrow> \<exists>d. ApplyRecoveryAction e RA_complete_rollback millis = Inl d"
  by (cases "TransitionForRecovery e TS_rolling_back millis")
    (auto simp: ApplyRecoveryAction_def stuck_def TransitionForRecovery_Inr enum_simps)

lemma completes_apply:
  "completes e \<Longrightarrow> ApplyRecoveryAction e RA_complete_commit millis =
    Inr (e\<lparr>entry_state := TS_committed, final_unix_epoch_millis := millis, evidence_record_written := True\<rparr>)"
  by (auto simp: ApplyRecoveryAction_def completes_def TransitionForRecovery_Inr enum_simps)

lemma rolls_back_apply:
  assumes "rolls_back e"
  shows "ApplyRecoveryAction e RA_complete_rollback millis =
    Inr (e\<lparr>entry_state := TS_rolled_back, final_unix_epoch_millis := millis, evidence_record_written := True\<rparr>)"
proof -
  have "ApplyRecoveryAction e RA_complete_rollback millis = Inr e' \<longleftrightarrow>
      e' = e\<lparr>entry_state := TS_rolled_back, final_unix_epoch_millis := millis, evidence_record_written := True\<rparr>" for e'
    using assms by (cases "entry_state e")
      (auto simp: ApplyRecoveryAction_def rolls_back_def bind_result_eq_Inr TransitionForRecovery_Inr enum_simps)
  then show ?thesis by blast
qed

section \<open>The loop\<close>

abbreviation fail_closed :: "transaction_inventory_entry \<Rightarrow> bool" where
  "fail_closed e \<equiv> rc_fail_closed (ClassifyLocalTransactionForRecovery e)"

abbreviation completed :: "transaction_inventory_entry list \<Rightarrow> nat" where
  "completed es \<equiv> length (filter completes es)"

lemma plan_disjoint:
  "completes e \<Longrightarrow> \<not> rolls_back e \<and> \<not> stuck e" "rolls_back e \<Longrightarrow> \<not> completes e \<and> \<not> stuck e"
  by (auto simp: completes_def rolls_back_def stuck_def)

lemma recover_step:
  assumes ok: "entry_ok nid N e" and s: "\<not> stuck e"
  shows "recover_entries millis ncs (e # es) =
    (case recover_entries millis (if completes e then ncs + 1 else ncs) es of (es', ncs', changed, fenced, err) \<Rightarrow>
       (recovered_entry ncs millis e # es', ncs', changed \<or> completes e \<or> rolls_back e, fenced \<or> fail_closed e, err))"
proof -
  note c = classification [OF ok] and p = planned_unresolved [OF ok]
  consider "completes e" | "rolls_back e" | "fail_closed e" | "\<not> unresolved e" using c(1) s by blast
  then show ?thesis
  proof cases
    case 1
    then have "entry_state e \<noteq> TS_committed" by (simp add: completes_def)
    then show ?thesis using 1 c(1,2) completes_apply [OF 1]
      by (simp add: Let_def recovered_entry_def committed_entry_def split: prod.splits)
  next
    case 2
    then have "entry_state e \<noteq> TS_rolled_back" "\<not> completes e" by (auto simp: rolls_back_def completes_def)
    then show ?thesis using 2 c(1,3) rolls_back_apply [OF 2]
      by (simp add: Let_def recovered_entry_def split: prod.splits)
  next
    case 3
    then show ?thesis using c(1) by (auto simp: Let_def recovered_entry_def split: prod.splits)
  next
    case 4
    then have "\<not> completes e" "\<not> rolls_back e" using p by blast+
    then show ?thesis using 4 c(1,4)
      by (simp add: Let_def recovered_entry_def ApplyRecoveryAction_def split: prod.splits)
  qed
qed

lemma recover_entries_ok:
  assumes "\<forall>e \<in> set es. entry_ok nid N e" "\<not> list_ex stuck es"
  shows "recover_entries millis ncs es =
    (recovered_entries millis ncs es, ncs + of_nat (completed es), list_ex (\<lambda>e. completes e \<or> rolls_back e) es,
     list_ex fail_closed es, None)"
  using assms
proof (induction es arbitrary: ncs)
  case (Cons e es)
  then show ?case using recover_step [of nid N e millis ncs es] by (auto simp: disj_commute algebra_simps)
qed simp

lemma recover_entries_stuck:
  assumes "\<forall>e \<in> set es. entry_ok nid N e" "list_ex stuck es" "recover_entries millis ncs es = (es', ncs', changed, fenced, err)"
  shows "err \<noteq> None"
  using assms
proof (induction es arbitrary: ncs es' ncs' changed fenced err)
  case (Cons e es)
  have ok: "entry_ok nid N e" using Cons.prems(1) by simp
  show ?case
  proof (cases "stuck e")
    case True
    then obtain d where "ApplyRecoveryAction e RA_complete_rollback millis = Inl d" using stuck_apply by blast
    then show ?thesis using Cons.prems(3) True classification(1,3) [OF ok] by auto
  next
    case False
    then have "list_ex stuck es" "\<forall>e \<in> set es. entry_ok nid N e" using Cons.prems(1,2) by simp_all
    with Cons.IH Cons.prems(3) show ?thesis
      unfolding recover_step [OF ok False] by (auto split: prod.splits)
  qed
qed simp

lemma classify_entries_valid:
  "\<forall>e \<in> set es. transaction_identity_valid (identity e) \<Longrightarrow>
   classify_entries es r =
    r\<lparr>rr_classifications := rr_classifications r @ map ClassifyLocalTransactionForRecovery es,
      rr_write_admission_must_remain_fenced := rr_write_admission_must_remain_fenced r \<or> list_ex fail_closed es\<rparr>"
  by (induction es arbitrary: r) (auto simp: Let_def)

lemma completed_classified:
  "\<forall>e \<in> set es. entry_ok nid N e \<Longrightarrow>
   length (filter (\<lambda>c. \<not> rc_fail_closed c \<and> rc_action c = RA_complete_commit)
     (map ClassifyLocalTransactionForRecovery es)) = completed es"
proof (induction es)
  case (Cons e es)
  then have ok: "entry_ok nid N e" by simp
  have "(\<not> fail_closed e \<and> rc_action (ClassifyLocalTransactionForRecovery e) = RA_complete_commit) = completes e"
    using classification [OF ok] planned_unresolved [OF ok]
    by (cases "completes e"; cases "rolls_back e \<or> stuck e"; cases "unresolved e") auto
  then show ?case using Cons by auto
qed simp

lemma valid_length: "valid_inventory ivt \<Longrightarrow> length (entries ivt) < 2 ^ 64"
proof -
  assume v: "valid_inventory ivt"
  let ?ids = "map (\<lambda>e. entry_id e) (entries ivt)"
  have "length (entries ivt) = card (set ?ids)" using valid_ids [OF v] distinct_card [of ?ids] by simp
  also have "\<dots> \<le> card (UNIV - {0 :: u64})"
    using entry_ok_pos valid_entry [OF v] by (intro card_mono) fastforce+
  also have "\<dots> < 2 ^ 64" by (simp add: card_Diff_singleton card_word)
  finally show ?thesis .
qed

section \<open>The recovered inventory\<close>

definition recoverable :: "local_transaction_inventory \<Rightarrow> bool" where
  "recoverable ivt \<longleftrightarrow> valid_inventory ivt \<and> \<not> list_ex stuck (entries ivt) \<and>
    unat (next_commit_sequence ivt) + completed (entries ivt) < 2 ^ 64"

definition recovered_inventory :: "u64 \<Rightarrow> local_transaction_inventory \<Rightarrow> local_transaction_inventory" where
  "recovered_inventory millis ivt =
    ivt\<lparr>entries := recovered_entries millis (next_commit_sequence ivt) (entries ivt),
        next_commit_sequence := next_commit_sequence ivt + of_nat (completed (entries ivt))\<rparr>"

lemma exhausted_iff:
  assumes "valid_inventory ivt"
  shows "u64_max - next_commit_sequence ivt < of_nat (completed (entries ivt)) \<longleftrightarrow>
    \<not> unat (next_commit_sequence ivt) + completed (entries ivt) < 2 ^ 64"
proof -
  have "completed (entries ivt) < 2 ^ 64"
    using valid_length [OF assms] length_filter_le [of completes "entries ivt"] by linarith
  then have c: "unat (of_nat (completed (entries ivt)) :: u64) = completed (entries ivt)" by (simp add: u64_of_nat)
  have "unat (u64_max - next_commit_sequence ivt) = 2 ^ 64 - 1 - unat (next_commit_sequence ivt)"
    using unat_sub [OF u64_le_max, of "next_commit_sequence ivt"]
    by (simp add: u64_max_def unsigned_minus_1_eq_mask mask_eq_exp_minus_1)
  then show ?thesis
    using c unsigned_less [of "next_commit_sequence ivt", where ?'a = nat] by (auto simp: word_less_nat_alt)
qed

lemma error_status [simp]: "\<not> status_ok TransactionErrorStatus" "status_ok TransactionOkStatus"
  by (simp_all add: TransactionErrorStatus_def TransactionOkStatus_def status_ok_def)

lemma Apply_recovery:
  assumes "recoverable ivt"
  shows "ApplyLocalTransactionInventoryRecovery ivt millis =
    \<lparr>rr_status = TransactionOkStatus,
     rr_classifications = map ClassifyLocalTransactionForRecovery (entries ivt),
     rr_recovered_inventory = recovered_inventory millis ivt, rr_diagnostic = None,
     rr_inventory_changed = list_ex (\<lambda>e. completes e \<or> rolls_back e) (entries ivt),
     rr_write_admission_must_remain_fenced = list_ex fail_closed (entries ivt)\<rparr>"
proof -
  have v: "valid_inventory ivt" and s: "\<not> list_ex stuck (entries ivt)" using assms by (simp_all add: recoverable_def)
  note ok = v [unfolded valid_inventory_def, THEN conjunct2, THEN conjunct2, THEN conjunct1]
  have i: "\<forall>e \<in> set (entries ivt). transaction_identity_valid (identity e)" using ok by (simp add: entry_ok_def)
  have "\<not> u64_max - next_commit_sequence ivt < of_nat (completed (entries ivt))"
    using exhausted_iff [OF v] assms by (simp add: recoverable_def)
  then show ?thesis
    using v recover_entries_ok [OF ok s] completed_classified [OF ok]
    by (simp add: ApplyLocalTransactionInventoryRecovery_def ClassifyLocalTransactionInventoryForRecovery_def
        structure_valid_iff classify_entries_valid [OF i] empty_recovery_result_def recovered_inventory_def Let_def)
qed

lemma Apply_recovery_refused:
  assumes "\<not> recoverable ivt"
  shows "\<not> status_ok (rr_status (ApplyLocalTransactionInventoryRecovery ivt millis))"
proof (cases "valid_inventory ivt")
  case False
  then show ?thesis
    using structure_valid_iff [of ivt]
    by (simp add: ApplyLocalTransactionInventoryRecovery_def ClassifyLocalTransactionInventoryForRecovery_def
        recovery_error_def Let_def)
next
  case v: True
  note ok = v [unfolded valid_inventory_def, THEN conjunct2, THEN conjunct2, THEN conjunct1]
  have i: "\<forall>e \<in> set (entries ivt). transaction_identity_valid (identity e)" using ok by (simp add: entry_ok_def)
  obtain es ncs changed fenced err where
    r: "recover_entries millis (next_commit_sequence ivt) (entries ivt) = (es, ncs, changed, fenced, err)"
    by (metis prod_cases5)
  have "err \<noteq> None" if "list_ex stuck (entries ivt)" by (rule recover_entries_stuck [OF ok that r])
  then show ?thesis
    using v assms exhausted_iff [OF v] completed_classified [OF ok] r
    by (auto simp: ApplyLocalTransactionInventoryRecovery_def ClassifyLocalTransactionInventoryForRecovery_def
        structure_valid_iff classify_entries_valid [OF i] empty_recovery_result_def recoverable_def recovery_error_def Let_def)
qed

lemma recovered_length [simp]: "length (recovered_entries millis ncs es) = length es"
  by (induction es arbitrary: ncs) auto

lemma recovered_nth:
  "k < length es \<Longrightarrow> recovered_entries millis ncs es ! k =
    recovered_entry (ncs + of_nat (completed (take k es))) millis (es ! k)"
  by (induction es arbitrary: k ncs) (auto simp: nth_Cons less_Suc_eq_0_disj algebra_simps split: nat.splits)

lemma completed_take:
  assumes "i < length es" "completes (es ! i)" "i < j"
  shows "completed (take i es) < completed (take j es)"
proof -
  define rest where "rest = drop (Suc i) (take j es)"
  have "take j es = take i es @ es ! i # rest"
    unfolding rest_def using assms id_take_nth_drop [of i "take j es"] by (cases "j \<le> length es") (auto simp: min_def)
  then show ?thesis using assms(2) by simp
qed

lemma recovered_simps [simp]:
  "identity (recovered_entry cs millis e) = identity e"
  "begin_visible_through_commit_sequence (recovered_entry cs millis e) = begin_visible_through_commit_sequence e"
  "archived_from_state (recovered_entry cs millis e) = archived_from_state e"
  by (simp_all add: recovered_entry_def committed_entry_def)

lemma recovered_committed:
  assumes "entry_ok nid N e"
  shows "HasCommittedInventoryOutcome (recovered_entry cs millis e) \<longleftrightarrow> completes e \<or> HasCommittedInventoryOutcome e"
  using assms by (cases "entry_state e")
    (auto simp: recovered_entry_def committed_entry_def committed_state completes_def rolls_back_def entry_ok_def)

lemma recovered_sequence:
  assumes "entry_ok nid N e"
  shows "commit_sequence (recovered_entry cs millis e) = (if completes e then cs else commit_sequence e)"
  by (simp add: recovered_entry_def committed_entry_def)

lemma recovered_entry_ok:
  assumes ok: "entry_ok nid N e" and n: "N \<le> N'" and c: "completes e \<Longrightarrow> N \<le> cs \<and> cs < N'" and z: "N \<noteq> 0"
  shows "entry_ok nid N' (recovered_entry cs millis e)"
proof -
  have s: "entry_state (recovered_entry cs millis e) \<noteq> TS_none"
    "entry_state (recovered_entry cs millis e) = TS_archived \<longleftrightarrow> entry_state e = TS_archived"
    using ok by (auto simp: recovered_entry_def committed_entry_def completes_def rolls_back_def entry_ok_def)
  have q: "if completes e \<or> HasCommittedInventoryOutcome e
      then commit_sequence (recovered_entry cs millis e) \<noteq> 0 \<and> commit_sequence (recovered_entry cs millis e) < N' \<and>
           begin_visible_through_commit_sequence e < commit_sequence (recovered_entry cs millis e)
      else commit_sequence (recovered_entry cs millis e) = 0"
  proof (cases "completes e")
    case True
    then have "cs \<noteq> 0" "begin_visible_through_commit_sequence e < cs" using c z ok by (auto simp: entry_ok_def)
    with True c show ?thesis by (simp add: recovered_sequence [OF ok])
  next
    case False
    then show ?thesis using ok n by (auto simp: recovered_sequence [OF ok] entry_ok_def)
  qed
  have b: "begin_visible_through_commit_sequence e < N'" using ok n by (auto simp: entry_ok_def)
  show ?thesis
    unfolding entry_ok_def recovered_committed [OF ok] recovered_simps using b s q ok [unfolded entry_ok_def] by argo
qed

lemma distinct_filterI:
  assumes "\<And>i j. i < j \<Longrightarrow> j < length xs \<Longrightarrow> P (xs ! i) \<Longrightarrow> P (xs ! j) \<Longrightarrow> f (xs ! i) \<noteq> f (xs ! j)"
  shows "distinct (map f (filter P xs))"
  using assms
proof (induction xs)
  case (Cons x xs)
  have "distinct (map f (filter P xs))"
  proof (rule Cons.IH)
    fix i j assume "i < j" "j < length xs" "P (xs ! i)" "P (xs ! j)"
    then show "f (xs ! i) \<noteq> f (xs ! j)" using Cons.prems [of "Suc i" "Suc j"] by simp
  qed
  moreover have "f x \<noteq> f y" if y: "P x" "y \<in> set xs" "P y" for y
  proof -
    obtain j where "j < length xs" "xs ! j = y" using y(2) by (auto simp: in_set_conv_nth)
    then show ?thesis using y Cons.prems [of 0 "Suc j"] by simp
  qed
  ultimately show ?case by auto
qed simp

text \<open>The number an entry at a position would get.\<close>

definition sequence_at :: "local_transaction_inventory \<Rightarrow> nat \<Rightarrow> u64" where
  "sequence_at ivt k = next_commit_sequence ivt + of_nat (completed (take k (entries ivt)))"

lemma sequence_at_unat:
  assumes "recoverable ivt" "k \<le> length (entries ivt)"
  shows "unat (sequence_at ivt k) = unat (next_commit_sequence ivt) + completed (take k (entries ivt))"
proof -
  have "completed (take k (entries ivt)) \<le> completed (entries ivt)"
    by (metis append_take_drop_id filter_append le_add1 length_append)
  then have "unat (next_commit_sequence ivt) + completed (take k (entries ivt)) < 2 ^ 64"
    using assms(1) by (simp add: recoverable_def)
  then show ?thesis by (simp add: sequence_at_def unat_word_ariths unat_of_nat)
qed

lemma sequence_at_less:
  assumes r: "recoverable ivt" and i: "i < length (entries ivt)" "completes (entries ivt ! i)" "i < j" "j \<le> length (entries ivt)"
  shows "sequence_at ivt i < sequence_at ivt j"
  using sequence_at_unat [OF r, of i] sequence_at_unat [OF r, of j] completed_take [OF i(1,2,3)] i
  by (simp add: word_less_nat_alt)

lemma sequence_at_ge: "recoverable ivt \<Longrightarrow> k \<le> length (entries ivt) \<Longrightarrow> next_commit_sequence ivt \<le> sequence_at ivt k"
  using sequence_at_unat [of ivt k] by (simp add: word_le_nat_alt)

lemma recovered_fields:
  "next_local_transaction_id (recovered_inventory millis ivt) = next_local_transaction_id ivt"
  "next_commit_sequence (recovered_inventory millis ivt) = sequence_at ivt (length (entries ivt))"
  "length (entries (recovered_inventory millis ivt)) = length (entries ivt)"
  "k < length (entries ivt) \<Longrightarrow>
    entries (recovered_inventory millis ivt) ! k = recovered_entry (sequence_at ivt k) millis (entries ivt ! k)"
  by (simp_all add: recovered_inventory_def sequence_at_def recovered_nth)

lemma recovered_member:
  "e' \<in> set (entries (recovered_inventory millis ivt)) \<longleftrightarrow>
    (\<exists>k < length (entries ivt). e' = recovered_entry (sequence_at ivt k) millis (entries ivt ! k))"
  by (auto simp: in_set_conv_nth recovered_fields)

lemma recovered_keys: "map (\<lambda>e. f (identity e)) (entries (recovered_inventory millis ivt)) = map (\<lambda>e. f (identity e)) (entries ivt)"
  by (rule nth_equalityI) (simp_all add: recovered_fields)

lemma recovered_valid:
  assumes r: "recoverable ivt"
  shows "valid_inventory (recovered_inventory millis ivt)"
proof -
  have v: "valid_inventory ivt" using r by (simp add: recoverable_def)
  let ?n = "sequence_at ivt (length (entries ivt))"
  have ok: "entry_ok (next_local_transaction_id ivt) (next_commit_sequence ivt) (entries ivt ! k)"
    if "k < length (entries ivt)" for k using valid_entry [OF v nth_mem [OF that]] .
  have "entry_ok (next_local_transaction_id ivt) ?n (recovered_entry (sequence_at ivt k) millis (entries ivt ! k))"
    if k: "k < length (entries ivt)" for k
    using recovered_entry_ok [OF ok [OF k], of ?n "sequence_at ivt k"] sequence_at_ge [OF r] sequence_at_less [OF r k] k
      valid_next_cs [OF v] by simp
  then have all: "\<forall>e \<in> set (entries (recovered_inventory millis ivt)). entry_ok (next_local_transaction_id ivt) ?n e"
    by (auto simp: recovered_member)
  have less: "commit_sequence (entries ivt ! k) < next_commit_sequence ivt"
    if "k < length (entries ivt)" "HasCommittedInventoryOutcome (entries ivt ! k)" for k
    using ok [OF that(1)] that(2) by (auto simp: entry_ok_def)
  have dist: "distinct (map commit_sequence (filter HasCommittedInventoryOutcome (entries (recovered_inventory millis ivt))))"
  proof (rule distinct_filterI)
    fix i j assume i: "i < j" "j < length (entries (recovered_inventory millis ivt))"
      and c: "HasCommittedInventoryOutcome (entries (recovered_inventory millis ivt) ! i)"
        "HasCommittedInventoryOutcome (entries (recovered_inventory millis ivt) ! j)"
    then have j: "j < length (entries ivt)" "i < length (entries ivt)" by (simp_all add: recovered_fields)
    have "entries ivt ! i \<noteq> entries ivt ! j"
      using valid_ids [OF v] i(1) j nth_eq_iff_index_eq [of "map (\<lambda>e. entry_id e) (entries ivt)" i j] by auto
    then show "commit_sequence (entries (recovered_inventory millis ivt) ! i) \<noteq>
        commit_sequence (entries (recovered_inventory millis ivt) ! j)"
      using c j less [of i] less [of j] sequence_at_ge [OF r, of i] sequence_at_ge [OF r, of j]
        sequence_at_less [OF r j(2), of j] i(1) valid_commit_order [OF v nth_mem [OF j(2)] nth_mem [OF j(1)]]
      by (auto simp: recovered_fields recovered_committed [OF ok] recovered_sequence [OF ok])
  qed
  have "?n \<noteq> 0" using sequence_at_ge [OF r, of "length (entries ivt)"] valid_next_cs [OF v] by (metis order_refl word_le_0_iff)
  then show ?thesis
    using v all dist recovered_keys [of local_id] recovered_keys [of "\<lambda>i. uuid_value (transaction_uuid i)"]
    unfolding valid_inventory_def recovered_fields by simp
qed

lemma recovery_paths:
  "(edge True)\<^sup>*\<^sup>* TS_committing TS_committed" "(edge True)\<^sup>*\<^sup>* TS_rolling_back TS_rolled_back"
  "s \<in> {TS_committed, TS_rolled_back, TS_failed_terminal} \<Longrightarrow> (edge True)\<^sup>*\<^sup>* TS_limbo s"
proof -
  show "(edge True)\<^sup>*\<^sup>* TS_committing TS_committed" "(edge True)\<^sup>*\<^sup>* TS_rolling_back TS_rolled_back"
    by (rule r_into_rtranclp, simp add: enum_simps)+
  assume "s \<in> {TS_committed, TS_rolled_back, TS_failed_terminal}"
  then have "edge True TS_recovering s" by (auto simp: enum_simps)
  moreover have "edge True TS_limbo TS_recovering" by (simp add: enum_simps)
  ultimately show "(edge True)\<^sup>*\<^sup>* TS_limbo s" by (meson edge_path r_into_rtranclp)
qed

lemma recovered_retained:
  assumes ok: "entry_ok nid (next_commit_sequence before) e" and c: "next_commit_sequence before \<le> cs"
  shows "retained_ok before e (recovered_entry cs millis e)"
proof -
  have s: "entry_state e \<noteq> TS_archived \<Longrightarrow> InventoryVisibilityState e = entry_state e"
    using visible_nonarchived [OF ok] by blast
  consider "completes e" | "rolls_back e" "\<not> completes e" | "recovered_entry cs millis e = e"
    by (metis recovered_entry_def)
  then show ?thesis
  proof cases
    case 1
    then show ?thesis using c s recovery_paths(1)
      by (auto simp: retained_ok_def recovered_entry_def committed_entry_def begin_changed_def completes_def
          IsTerminalTransactionState_def)
  next
    case 2
    have "(edge True)\<^sup>*\<^sup>* (entry_state e) TS_rolled_back"
      using 2(1) table_paths(3) recovery_paths(2) by (auto simp: rolls_back_def)
    moreover have "\<not> IsTerminalTransactionState (entry_state e)" "entry_state e \<noteq> TS_archived"
      using 2(1) by (auto simp: rolls_back_def IsTerminalTransactionState_def)
    moreover have "\<not> HasCommittedInventoryOutcome (recovered_entry cs millis e)"
      using 2 recovered_committed [OF ok, of cs millis] by (auto simp: committed_state rolls_back_def)
    ultimately show ?thesis using 2 s
      by (auto simp: retained_ok_def recovered_entry_def begin_changed_def)
  next
    case 3
    then show ?thesis by (simp add: retained_refl)
  qed
qed

lemma recovered_evolution:
  assumes r: "recoverable ivt"
  shows "ValidateLocalTransactionInventoryEvolution ivt (recovered_inventory millis ivt) = []"
proof -
  have v: "valid_inventory ivt" using r by (simp add: recoverable_def)
  have "entry_evolves ivt (entries ivt) (recovered_entry (sequence_at ivt k) millis (entries ivt ! k))"
    if k: "k < length (entries ivt)" for k
    using entry_evolves_mem [OF v nth_mem [OF k]] recovered_retained [OF valid_entry [OF v nth_mem [OF k]]]
      sequence_at_ge [OF r, of k] k by simp
  moreover have "entry_id ` set (entries (recovered_inventory millis ivt)) = entry_id ` set (entries ivt)"
    using recovered_keys [of local_id millis ivt] by (metis (no_types) list.set_map)
  ultimately show ?thesis
    using v recovered_valid [OF r] sequence_at_ge [OF r, of "length (entries ivt)"]
    by (auto simp: evolution_iff recovered_member recovered_fields)
qed

lemma recovered_settled:
  assumes ok: "entry_ok nid N e" and s: "\<not> stuck e"
  shows "\<not> completes (recovered_entry cs millis e)" "\<not> rolls_back (recovered_entry cs millis e)"
    "\<not> stuck (recovered_entry cs millis e)" "unresolved (recovered_entry cs millis e) \<longleftrightarrow> fail_closed e"
    "fail_closed e \<Longrightarrow> recovered_entry cs millis e = e"
proof -
  have "\<not> completes (recovered_entry cs millis e) \<and> \<not> rolls_back (recovered_entry cs millis e) \<and>
      \<not> stuck (recovered_entry cs millis e)"
    using s by (auto simp: recovered_entry_def committed_entry_def completes_def rolls_back_def stuck_def)
  then show "\<not> completes (recovered_entry cs millis e)" "\<not> rolls_back (recovered_entry cs millis e)"
    "\<not> stuck (recovered_entry cs millis e)" by auto
  show "fail_closed e \<Longrightarrow> recovered_entry cs millis e = e"
    using classification(1) [OF ok] by (simp add: recovered_entry_def)
  have "\<not> unresolved (recovered_entry cs millis e)" if "completes e \<or> rolls_back e"
    using that ok by (auto simp: recovered_entry_def committed_entry_def unresolved_def InventoryVisibilityState_def
        completes_def rolls_back_def entry_ok_def)
  then show "unresolved (recovered_entry cs millis e) \<longleftrightarrow> fail_closed e"
    using classification(1) [OF ok] s by (auto simp: recovered_entry_def)
qed

lemma settled_recovery:
  "list_all (\<lambda>e. \<not> completes e \<and> \<not> rolls_back e) es \<Longrightarrow> recovered_entries millis ncs es = es \<and> completed es = 0"
  by (induction es) (auto simp: recovered_entry_def)

lemma recovered_again:
  assumes r: "recoverable ivt"
  shows "recoverable (recovered_inventory millis ivt)"
    "recovered_inventory millis' (recovered_inventory millis ivt) = recovered_inventory millis ivt"
    "\<not> list_ex (\<lambda>e. completes e \<or> rolls_back e) (entries (recovered_inventory millis ivt))"
proof -
  have ok: "entry_ok (next_local_transaction_id ivt) (next_commit_sequence ivt) (entries ivt ! k)"
    and s: "\<not> stuck (entries ivt ! k)" if "k < length (entries ivt)" for k
    using r valid_entry [OF _ nth_mem [OF that]] nth_mem [OF that] by (auto simp: recoverable_def list_ex_iff)
  have a: "\<forall>e \<in> set (entries (recovered_inventory millis ivt)). \<not> completes e \<and> \<not> rolls_back e \<and> \<not> stuck e"
    using recovered_settled(1-3) [OF ok s] by (auto simp: recovered_member)
  then show "\<not> list_ex (\<lambda>e. completes e \<or> rolls_back e) (entries (recovered_inventory millis ivt))"
    by (auto simp: list_ex_iff)
  have z: "recovered_entries millis' ncs (entries (recovered_inventory millis ivt)) = entries (recovered_inventory millis ivt)"
    "completed (entries (recovered_inventory millis ivt)) = 0" for ncs
    using settled_recovery [of "entries (recovered_inventory millis ivt)" millis' ncs] a by (auto simp: list_all_iff)
  then show "recovered_inventory millis' (recovered_inventory millis ivt) = recovered_inventory millis ivt"
    unfolding recovered_inventory_def [of millis' "recovered_inventory millis ivt"] by simp
  show "recoverable (recovered_inventory millis ivt)"
    unfolding recoverable_def z(2) using recovered_valid [OF r] a
      unsigned_less [of "next_commit_sequence (recovered_inventory millis ivt)", where ?'a = nat]
    by (auto simp: list_ex_iff)
qed

section \<open>Operator decisions and durable prepare\<close>

definition resolved_entry ::
  "limbo_operator_decision \<Rightarrow> u64 \<Rightarrow> u64 \<Rightarrow> transaction_inventory_entry \<Rightarrow> transaction_inventory_entry" where
  "resolved_entry d ncs millis e =
    e\<lparr>entry_state := TerminalStateForLimboDecision d, final_unix_epoch_millis := millis,
      evidence_record_required := True, evidence_record_written := True,
      commit_sequence := (if d = LD_commit then ncs else commit_sequence e)\<rparr>"

definition decision_admitted ::
  "local_transaction_inventory \<Rightarrow> limbo_operator_decision \<Rightarrow> limbo_operator_resolution_policy \<Rightarrow> bool" where
  "decision_admitted ivt d policy \<longleftrightarrow> valid_inventory ivt \<and> d \<noteq> LD_unknown \<and>
    (d = LD_commit \<longrightarrow> next_commit_sequence ivt \<noteq> u64_max) \<and>
    operator_decision_authoritative policy \<and> operator_evidence_reference policy \<noteq> []"

lemma RecoveryInventoryError_not_Inr [simp]:
  "RecoveryInventoryError c k d \<noteq> Inr x" "Inr x \<noteq> RecoveryInventoryError c k d"
  by (simp_all add: RecoveryInventoryError_def)

lemma limbo_transitions:
  assumes "entry_state e = TS_limbo" "d \<noteq> LD_unknown"
  shows "bind_result (TransitionForRecovery e TS_recovering millis) (\<lambda>e1.
      bind_result (TransitionForRecovery (e1\<lparr>evidence_record_required := True\<rparr>) (TerminalStateForLimboDecision d) millis) f) =
    f (e\<lparr>entry_state := TerminalStateForLimboDecision d, final_unix_epoch_millis := millis,
         evidence_record_required := True, evidence_record_written := True\<rparr>)"
proof -
  have "TransitionForRecovery e TS_recovering millis = Inr (e\<lparr>entry_state := TS_recovering\<rparr>)"
    using assms(1) by (simp add: TransitionForRecovery_Inr enum_simps)
  moreover have "TransitionForRecovery (e\<lparr>entry_state := TS_recovering, evidence_record_required := True\<rparr>)
      (TerminalStateForLimboDecision d) millis =
    Inr (e\<lparr>entry_state := TerminalStateForLimboDecision d, final_unix_epoch_millis := millis,
           evidence_record_required := True, evidence_record_written := True\<rparr>)"
    using assms(2) by (cases d) (simp_all add: TransitionForRecovery_Inr TerminalStateForLimboDecision_def enum_simps)
  ultimately show ?thesis by simp
qed

lemma Resolve_Inr:
  "ResolveLimboLocalTransactionWithOperatorDecision ivt i d millis policy = Inr (ivt', e') \<longleftrightarrow>
    decision_admitted ivt d policy \<and> i \<noteq> 0 \<and>
    (\<exists>e. FindEntry ivt i = Some e \<and> entry_state e = TS_limbo \<and> scope (identity e) \<noteq> Scope_cluster_global \<and>
      e' = resolved_entry d (next_commit_sequence ivt) millis e \<and>
      ivt' = StoreEntry (if d = LD_commit then ivt\<lparr>next_commit_sequence := next_commit_sequence ivt + 1\<rparr> else ivt) i e')"
proof (cases "decision_admitted ivt d policy \<and> i \<noteq> 0 \<and>
    (\<exists>e. FindEntry ivt i = Some e \<and> entry_state e = TS_limbo \<and> scope (identity e) \<noteq> Scope_cluster_global)")
  case True
  then obtain e where e: "FindEntry ivt i = Some e" "entry_state e = TS_limbo" "scope (identity e) \<noteq> Scope_cluster_global"
    by blast
  have "TerminalStateForLimboDecision d \<noteq> TS_none" "TerminalStateForLimboDecision d = TS_committed \<longleftrightarrow> d = LD_commit"
    using True by (cases d; simp add: TerminalStateForLimboDecision_def decision_admitted_def)+
  moreover have "d \<noteq> LD_unknown" using True by (simp add: decision_admitted_def)
  ultimately show ?thesis
    using True e limbo_transitions [OF e(2)]
    by (auto simp: ResolveLimboLocalTransactionWithOperatorDecision_def decision_admitted_def structure_valid_iff
        local_id_valid_def kInvalidLocalTransactionId_def resolved_entry_def Let_def limbo_transitions)
next
  case False
  then show ?thesis
    using structure_valid_iff [of ivt]
    by (auto simp: ResolveLimboLocalTransactionWithOperatorDecision_def decision_admitted_def
        local_id_valid_def kInvalidLocalTransactionId_def split: option.splits)
qed

lemma Resolve_evolution:
  assumes "ResolveLimboLocalTransactionWithOperatorDecision ivt i d millis policy = Inr (ivt', e')"
  shows "ValidateLocalTransactionInventoryEvolution ivt ivt' = []"
proof -
  let ?n = "next_commit_sequence ivt"
  let ?mid = "if d = LD_commit then ivt\<lparr>next_commit_sequence := ?n + 1\<rparr> else ivt"
  obtain e where a: "decision_admitted ivt d policy" and f: "FindEntry ivt i = Some e" and s: "entry_state e = TS_limbo"
    and e': "e' = resolved_entry d ?n millis e" and ivt': "ivt' = StoreEntry ?mid i e'"
    using assms by (auto simp: Resolve_Inr)
  have v: "valid_inventory ivt" and m: "d = LD_commit \<Longrightarrow> ?n \<noteq> u64_max" and d: "d \<noteq> LD_unknown"
    using a by (simp_all add: decision_admitted_def)
  have mem: "e \<in> set (entries ivt)" using f by (simp add: FindEntry_Some)
  note ok = valid_entry [OF v mem] and vis = found_visible [OF v f]
  have t: "TerminalStateForLimboDecision d \<in> {TS_committed, TS_rolled_back, TS_failed_terminal}"
    "TerminalStateForLimboDecision d = TS_committed \<longleftrightarrow> d = LD_commit"
    using d by (cases d; simp add: TerminalStateForLimboDecision_def)+
  have c: "HasCommittedInventoryOutcome e' \<longleftrightarrow> d = LD_commit"
    using vis s t by (auto simp: committed_state e' resolved_entry_def)
  have le: "?n \<le> next_commit_sequence ?mid" using u64_less_inc [of ?n] m by auto
  have ok': "entry_ok (next_local_transaction_id ivt) (next_commit_sequence ?mid) e'"
    using ok c t vis s u64_less_inc [of ?n] m valid_next_cs [OF v] le
    by (cases "d = LD_commit") (auto simp: entry_ok_def committed_state e' resolved_entry_def)
  have fresh: "commit_sequence z \<noteq> ?n" if "z \<in> set (entries ivt)" "HasCommittedInventoryOutcome z" for z
    using valid_entry [OF v that(1)] that(2) by (auto simp: entry_ok_def)
  have keys: "entry_id e' = entry_id e" "entry_uuid e' = entry_uuid e" by (simp_all add: e' resolved_entry_def)
  have v': "valid_inventory (StoreEntry ?mid i e')"
    by (rule StoreEntry_valid [OF v f _ le _ keys ok']) (use c fresh in \<open>auto simp: e' resolved_entry_def\<close>)
  have r: "retained_ok ivt e e'"
    using vis s t c recovery_paths(3) [OF t(1)]
    by (auto simp: retained_ok_def begin_changed_def e' resolved_entry_def IsTerminalTransactionState_def)
  show ?thesis unfolding ivt' by (rule store_evolves [OF v f r keys(1) v']) (use le in auto)
qed

lemma PrepareDurable_evolution:
  assumes v: "valid_inventory ivt" and p: "PrepareLocalTransactionDurable ivt i policy = Inr (ivt', e')"
  shows "ValidateLocalTransactionInventoryEvolution ivt ivt' = []"
proof (cases "local_prepare_enabled policy \<and> require_evidence_before_prepared_success policy")
  case False
  then have "RollbackLocalTransaction ivt i 0 = Inr (ivt', e') \<or> PrepareLocalTransaction ivt i = Inr (ivt', e')"
    using p by (auto simp: PrepareLocalTransactionDurable_def split: sum.splits prod.splits if_splits)
  then show ?thesis using inventory_step_evolution [OF _ v] step_rollback step_prepare by blast
next
  case True
  then obtain ivt1 e1 where p1: "PrepareLocalTransaction ivt i = Inr (ivt1, e1)"
    using p by (auto simp: PrepareLocalTransactionDurable_def split: sum.splits)
  then obtain e where e: "FindEntry ivt i = Some e" "entry_state e = TS_active" "e1 = e\<lparr>entry_state := TS_prepared\<rparr>"
    "ivt1 = StoreEntry ivt i e1" "entry_id e = i"
    by (auto simp: Prepare_Inr dest: FindEntry_Some)
  have f1: "FindEntry ivt1 i = Some e1" using e FindEntry_StoreEntry [OF e(1) refl, of e1 i] by simp
  let ?e2 = "e1\<lparr>evidence_record_required := True, evidence_record_written := True\<rparr>"
  have ivt': "ivt' = StoreEntry ivt1 i ?e2"
    using p True p1 f1 by (auto simp: PrepareLocalTransactionDurable_def Let_def)
  have one: "StoreEntry ivt1 i ?e2 = StoreEntry ivt i ?e2"
  proof -
    have "replace_first P y (replace_first P x xs) = replace_first P y xs" if "P x"
      for P and x y :: transaction_inventory_entry and xs
      using that by (induction xs) auto
    then show ?thesis using e(3,5) by (simp add: e(4) StoreEntry_def)
  qed
  have "(edge True)\<^sup>*\<^sup>* TS_active TS_prepared" by (rule table_paths(1))
  then have "retained_ok ivt e ?e2"
    using found_visible [OF v e(1)] e(2)
    by (simp add: retained_ok_def begin_changed_def e(3) InventoryVisibilityState_def HasCommittedInventoryOutcome_def
        IsTerminalTransactionState_def)
  moreover have "valid_inventory (StoreEntry ivt i ?e2)"
    by (rule store_uncommitted_valid [OF v e(1)]) (use e in auto)
  ultimately show ?thesis
    unfolding ivt' one using store_evolves [OF v e(1), of ?e2 ivt] e(3) by simp
qed

lemma list_ex_recovered:
  assumes "\<And>k. k < length (entries ivt) \<Longrightarrow> P (recovered_entry (sequence_at ivt k) millis (entries ivt ! k)) = Q (entries ivt ! k)"
  shows "list_ex P (entries (recovered_inventory millis ivt)) = list_ex Q (entries ivt)"
  using assms by (auto simp: list_ex_length recovered_fields)

section \<open>Properties\<close>

text \<open>
  C9. Recovery after a crash. It succeeds exactly on a structurally valid inventory with enough commit
  numbers left for the commits it completes and without a local rollback-only transaction that is in
  limbo or recovering; one such transaction makes the recovery of all the others fail, while one of
  cluster scope does not. When it succeeds, the successor check accepts
  the recovered inventory; a local commit whose evidence is durable is committed, under numbers that
  start at the counter and ascend with the position, a local transaction without a commit decision is
  rolled back, and every other entry is left as it was. Writes stay fenced exactly when an unresolved
  transaction remains.
\<close>

theorem recovery_outcome:
  fixes ivt :: local_transaction_inventory and millis :: u64
  defines "r \<equiv> ApplyLocalTransactionInventoryRecovery ivt millis"
  shows "(status_ok (rr_status r) \<longleftrightarrow>
      ValidateLocalTransactionInventoryStructure ivt = '''' \<and> \<not> list_ex stuck (entries ivt) \<and>
      unat (next_commit_sequence ivt) + completed (entries ivt) < 2 ^ 64) \<and>
    (status_ok (rr_status r) \<longrightarrow>
      ValidateLocalTransactionInventoryEvolution ivt (rr_recovered_inventory r) = '''' \<and>
      length (entries (rr_recovered_inventory r)) = length (entries ivt) \<and>
      (\<forall>k < length (entries ivt).
         let e = entries ivt ! k; e' = entries (rr_recovered_inventory r) ! k in
         e' = (if completes e then committed_entry (sequence_at ivt k) millis e
               else if rolls_back e then e\<lparr>entry_state := TS_rolled_back, final_unix_epoch_millis := millis,
                                           evidence_record_written := True\<rparr>
               else e)) \<and>
      (rr_write_admission_must_remain_fenced r \<longleftrightarrow>
         (\<exists>e \<in> set (entries (rr_recovered_inventory r)). unresolved e)))"
proof (cases "recoverable ivt")
  case r: True
  have e: "entry_ok (next_local_transaction_id ivt) (next_commit_sequence ivt) (entries ivt ! k)"
    "\<not> stuck (entries ivt ! k)" if "k < length (entries ivt)" for k
    using r valid_entry [OF _ nth_mem [OF that]] nth_mem [OF that] by (auto simp: recoverable_def list_ex_iff)
  have "list_ex fail_closed (entries ivt) \<longleftrightarrow> (\<exists>e \<in> set (entries (recovered_inventory millis ivt)). unresolved e)"
    using list_ex_recovered [of ivt unresolved millis fail_closed] recovered_settled(4) [OF e] by (simp add: list_ex_iff)
  then show ?thesis
    using r recovered_evolution [OF r] structure_valid_iff [of ivt]
    by (simp add: r_def Apply_recovery [OF r] recovered_fields recovered_entry_def Let_def recoverable_def)
next
  case False
  then show ?thesis
    using Apply_recovery_refused [of ivt millis] structure_valid_iff [of ivt] by (auto simp: r_def recoverable_def)
qed

definition crashed_entry :: "u64 \<Rightarrow> byte \<Rightarrow> transaction_state \<Rightarrow> bool \<Rightarrow> transaction_inventory_entry" where
  "crashed_entry i b st written = (sample_entry i b st 0 0)\<lparr>evidence_record_written := written\<rparr>"

definition crashed_inventory :: local_transaction_inventory where
  "crashed_inventory =
    \<lparr>next_local_transaction_id = 6, next_commit_sequence = 2,
     entries = [sample_entry 1 1 TS_committed 0 1, crashed_entry 2 2 TS_committing True,
                crashed_entry 3 3 TS_active False, crashed_entry 4 4 TS_prepared True,
                crashed_entry 5 5 TS_committing True],
     publication_base = None\<rparr>"

theorem recovery_outcome_witness:
  "\<exists>r. r = ApplyLocalTransactionInventoryRecovery crashed_inventory 9 \<and> status_ok (rr_status r) \<and>
     map entry_state (entries (rr_recovered_inventory r)) =
       [TS_committed, TS_committed, TS_rolled_back, TS_prepared, TS_committed] \<and>
     map commit_sequence (entries (rr_recovered_inventory r)) = [1, 2, 0, 0, 3] \<and>
     rr_write_admission_must_remain_fenced r"
proof -
  let ?r = "ApplyLocalTransactionInventoryRecovery crashed_inventory 9"
  have "ValidateLocalTransactionInventoryStructure crashed_inventory = ''''"
    "\<not> list_ex stuck (entries crashed_inventory)" "completed (entries crashed_inventory) = 2"
    "unat (next_commit_sequence crashed_inventory) = 2"
    by code_simp+
  then have ok: "status_ok (rr_status ?r)"
    using recovery_outcome [of crashed_inventory 9] by simp
  have s: "map entry_state (entries (rr_recovered_inventory ?r)) =
      [TS_committed, TS_committed, TS_rolled_back, TS_prepared, TS_committed]"
    "map commit_sequence (entries (rr_recovered_inventory ?r)) = [1, 2, 0, 0, 3]"
    by code_simp+
  have u: "\<exists>e \<in> set (entries (rr_recovered_inventory ?r)). unresolved e" by code_simp
  have "rr_write_admission_must_remain_fenced ?r"
    by (rule recovery_outcome [of crashed_inventory 9, THEN conjunct2, THEN mp, OF ok, THEN conjunct2, THEN conjunct2,
          THEN conjunct2, THEN iffD2, OF u])
  with ok s show ?thesis by (intro exI [of _ ?r] conjI refl)
qed

text \<open>
  C10. Recovery is idempotent. Once it has succeeded, running it again at any later time, as after a
  crash during the first start, succeeds, changes nothing and keeps the same fence.
\<close>

theorem recovery_is_idempotent:
  fixes millis' :: u64
  assumes "status_ok (rr_status (ApplyLocalTransactionInventoryRecovery ivt millis))"
  defines "r \<equiv> ApplyLocalTransactionInventoryRecovery ivt millis"
  defines "r' \<equiv> ApplyLocalTransactionInventoryRecovery (rr_recovered_inventory r) millis'"
  shows "status_ok (rr_status r') \<and> rr_recovered_inventory r' = rr_recovered_inventory r \<and>
    \<not> rr_inventory_changed r' \<and>
    rr_write_admission_must_remain_fenced r' = rr_write_admission_must_remain_fenced r"
proof -
  have r: "recoverable ivt" using assms(1) Apply_recovery_refused by blast
  note again = recovered_again [OF r, where millis = millis]
  have e: "entry_ok (next_local_transaction_id ivt) (next_commit_sequence ivt) (entries ivt ! k)"
    "\<not> stuck (entries ivt ! k)" if "k < length (entries ivt)" for k
    using r valid_entry [OF _ nth_mem [OF that]] nth_mem [OF that] by (auto simp: recoverable_def list_ex_iff)
  have "fail_closed (recovered_entry (sequence_at ivt k) millis (entries ivt ! k)) = fail_closed (entries ivt ! k)"
    if k: "k < length (entries ivt)" for k
    using recovered_settled [OF e [OF k], of "sequence_at ivt k" millis] nth_mem [of k "entries (recovered_inventory millis ivt)"] k
      classification(1) [OF valid_entry [OF recovered_valid [OF r]], of "entries (recovered_inventory millis ivt) ! k" millis]
    by (auto simp: recovered_fields)
  then have "list_ex fail_closed (entries (recovered_inventory millis ivt)) = list_ex fail_closed (entries ivt)"
    by (rule list_ex_recovered)
  then show ?thesis
    unfolding r'_def r_def using again by (simp add: Apply_recovery [OF r] Apply_recovery [OF again(1)])
qed

theorem recovery_is_idempotent_witness:
  "rr_recovered_inventory (ApplyLocalTransactionInventoryRecovery
      (rr_recovered_inventory (ApplyLocalTransactionInventoryRecovery crashed_inventory 9)) 10) =
    rr_recovered_inventory (ApplyLocalTransactionInventoryRecovery crashed_inventory 9)"
proof -
  have "status_ok (rr_status (ApplyLocalTransactionInventoryRecovery crashed_inventory 9))" by code_simp
  from recovery_is_idempotent [OF this, of 10] show ?thesis by blast
qed

text \<open>
  C11. An operator decides a transaction in limbo. The decision is carried out exactly when it is a
  commit, a rollback or a terminal failure, comes with authority and evidence, commit numbers are left
  if it is a commit, and the transaction is a local one in limbo. Then the transaction has the decided
  state with durable evidence, a commit takes the next commit number, every other entry is as before
  and the successor check accepts the inventory.
\<close>

theorem operator_decides_limbo:
  "(is_ok (ResolveLimboLocalTransactionWithOperatorDecision ivt i d millis policy) \<longleftrightarrow>
     decision_admitted ivt d policy \<and>
     (\<exists>e. LookupLocalTransaction ivt i = Inr e \<and> entry_state e = TS_limbo \<and>
        scope (identity e) \<noteq> Scope_cluster_global)) \<and>
   (\<forall>ivt' e'. ResolveLimboLocalTransactionWithOperatorDecision ivt i d millis policy = Inr (ivt', e') \<longrightarrow>
     LookupLocalTransaction ivt' i = Inr e' \<and> entry_state e' = TerminalStateForLimboDecision d \<and>
     evidence_record_written e' \<and> final_unix_epoch_millis e' = millis \<and>
     (d = LD_commit \<longrightarrow> commit_sequence e' = next_commit_sequence ivt \<and>
        next_commit_sequence ivt' = next_commit_sequence ivt + 1) \<and>
     (\<forall>j. j \<noteq> i \<longrightarrow> LookupLocalTransaction ivt' j = LookupLocalTransaction ivt j) \<and>
     ValidateLocalTransactionInventoryEvolution ivt ivt' = '''')"
proof (intro conjI allI impI)
  show "is_ok (ResolveLimboLocalTransactionWithOperatorDecision ivt i d millis policy) \<longleftrightarrow>
     decision_admitted ivt d policy \<and>
     (\<exists>e. LookupLocalTransaction ivt i = Inr e \<and> entry_state e = TS_limbo \<and>
        scope (identity e) \<noteq> Scope_cluster_global)"
    by (auto simp: is_ok_iff Resolve_Inr Lookup_Inr)
  fix ivt' e'
  assume r: "ResolveLimboLocalTransactionWithOperatorDecision ivt i d millis policy = Inr (ivt', e')"
  then show "ValidateLocalTransactionInventoryEvolution ivt ivt' = ''''" by (rule Resolve_evolution)
  obtain e where e: "FindEntry ivt i = Some e" "i \<noteq> 0" "e' = resolved_entry d (next_commit_sequence ivt) millis e"
    "ivt' = StoreEntry (if d = LD_commit then ivt\<lparr>next_commit_sequence := next_commit_sequence ivt + 1\<rparr> else ivt) i e'"
    using r by (auto simp: Resolve_Inr)
  then have i: "entry_id e' = i" by (auto simp: resolved_entry_def dest: FindEntry_Some)
  have f: "FindEntry ivt' j = (if j = i then Some e' else FindEntry ivt j)" for j
    unfolding e(4) by (rule FindEntry_StoreEntry [OF e(1) _ i]) simp
  then show "LookupLocalTransaction ivt' i = Inr e'" using e(2) by (simp add: Lookup_Inr)
  show "LookupLocalTransaction ivt' j = LookupLocalTransaction ivt j" if "j \<noteq> i" for j
    using that f [of j] by (simp add: LookupLocalTransaction_def FindEntry_def)
qed (auto simp: Resolve_Inr resolved_entry_def)

definition limbo_inventory :: local_transaction_inventory where
  "limbo_inventory = crashed_inventory\<lparr>entries := [crashed_entry 4 4 TS_limbo True]\<rparr>"

theorem operator_decides_limbo_witness:
  "\<exists>ivt' e'. ResolveLimboLocalTransactionWithOperatorDecision limbo_inventory 4 LD_commit 9
      \<lparr>operator_decision_authoritative = True, operator_evidence_reference = ''ticket''\<rparr> = Inr (ivt', e') \<and>
    entry_state e' = TS_committed \<and> commit_sequence e' = 2"
proof -
  let ?p = "\<lparr>operator_decision_authoritative = True, operator_evidence_reference = ''ticket''\<rparr>"
  have "is_ok (ResolveLimboLocalTransactionWithOperatorDecision limbo_inventory 4 LD_commit 9 ?p)" by code_simp
  then obtain ivt' e' where r: "ResolveLimboLocalTransactionWithOperatorDecision limbo_inventory 4 LD_commit 9 ?p = Inr (ivt', e')"
    by (auto simp: is_ok_iff)
  moreover have "next_commit_sequence limbo_inventory = 2" by (simp add: limbo_inventory_def crashed_inventory_def)
  moreover note operator_decides_limbo [THEN conjunct2, THEN spec, THEN spec, THEN mp, OF r]
  ultimately show ?thesis by (simp add: TerminalStateForLimboDecision_def)
qed

end
