(* ===== verification/TransactionManager.thy ===== *)
theory TransactionManager
  imports TransactionSnapshot
begin

text \<open>
  The local transaction manager, \<^verbatim>\<open>transaction_manager.{hpp,cpp}\<close>, with its counters,
  \<^verbatim>\<open>transaction_metrics.{hpp,cpp}\<close>. The memory arena and the publication of the counters and horizons
  to the metric registry are left out; they do not feed back. The lemmas relate the counters to the
  inventory over every sequence of calls.
\<close>

section \<open>Counters\<close>

record transaction_metrics_snapshot =
  begin_total :: u64
  commit_total :: u64
  rollback_total :: u64
  abort_total :: u64
  active_current :: u64
  failure_total :: u64
  cluster_fail_closed_total :: u64

definition drop_active :: "transaction_metrics_snapshot \<Rightarrow> transaction_metrics_snapshot" where
  "drop_active s = (if active_current s \<noteq> 0 then s\<lparr>active_current := active_current s - 1\<rparr> else s)"

definition RecordBegin :: "transaction_metrics_snapshot \<Rightarrow> transaction_metrics_snapshot" where
  "RecordBegin s = s\<lparr>begin_total := begin_total s + 1, active_current := active_current s + 1\<rparr>"

definition RecordCommit :: "transaction_metrics_snapshot \<Rightarrow> transaction_metrics_snapshot" where
  "RecordCommit s = drop_active (s\<lparr>commit_total := commit_total s + 1\<rparr>)"

definition RecordRollback :: "transaction_metrics_snapshot \<Rightarrow> transaction_metrics_snapshot" where
  "RecordRollback s = drop_active (s\<lparr>rollback_total := rollback_total s + 1\<rparr>)"

definition RecordAbort :: "transaction_metrics_snapshot \<Rightarrow> transaction_metrics_snapshot" where
  "RecordAbort s = drop_active (s\<lparr>abort_total := abort_total s + 1\<rparr>)"

definition RecordFailure :: "transaction_metrics_snapshot \<Rightarrow> transaction_metrics_snapshot" where
  "RecordFailure s = s\<lparr>failure_total := failure_total s + 1\<rparr>"

definition RecordClusterFailClosed :: "transaction_metrics_snapshot \<Rightarrow> transaction_metrics_snapshot" where
  "RecordClusterFailClosed s = s\<lparr>cluster_fail_closed_total := cluster_fail_closed_total s + 1\<rparr>"

definition MetricSamples :: "transaction_metrics_snapshot \<Rightarrow> (string \<times> u64) list" where
  "MetricSamples s =
    [(''sb_tx_begin_total'', begin_total s), (''sb_tx_commit_total'', commit_total s),
     (''sb_tx_rollback_total'', rollback_total s), (''sb_tx_abort_total'', abort_total s),
     (''sb_tx_active_transactions'', active_current s), (''sb_tx_failure_total'', failure_total s),
     (''sb_tx_cluster_fail_closed_total'', cluster_fail_closed_total s)]"

section \<open>The manager\<close>

record local_transaction_manager =
  mgr_inventory :: local_transaction_inventory
  mgr_metrics :: transaction_metrics_snapshot

record local_transaction_manager_result =
  mr_outcome :: "transaction_inventory_entry result"
  mr_inventory :: local_transaction_inventory
  mr_metrics :: transaction_metrics_snapshot

definition LocalTransactionManager :: "local_transaction_inventory \<Rightarrow> local_transaction_manager" where
  "LocalTransactionManager ivt =
    \<lparr>mgr_inventory = ivt,
     mgr_metrics = \<lparr>begin_total = 0, commit_total = 0, rollback_total = 0, abort_total = 0, active_current = 0,
                    failure_total = 0, cluster_fail_closed_total = 0\<rparr>\<rparr>"

definition FromInventoryResult ::
  "local_transaction_manager \<Rightarrow> inventory_result \<Rightarrow> local_transaction_manager \<times> local_transaction_manager_result" where
  "FromInventoryResult m r =
    (let m' = (case r of Inl _ \<Rightarrow> m | Inr (ivt, e) \<Rightarrow> m\<lparr>mgr_inventory := ivt\<rparr>) in
     (m', \<lparr>mr_outcome = bind_result r (\<lambda>(ivt, e). Inr e), mr_inventory = mgr_inventory m', mr_metrics = mgr_metrics m'\<rparr>))"

text \<open>The four operations count the outcome and store the inventory in the same way.\<close>

definition manager_operation ::
  "(transaction_metrics_snapshot \<Rightarrow> transaction_metrics_snapshot) \<Rightarrow> local_transaction_manager \<Rightarrow> inventory_result \<Rightarrow>
   local_transaction_manager \<times> local_transaction_manager_result" where
  "manager_operation recorded m r =
    FromInventoryResult
      (m\<lparr>mgr_metrics := (if is_ok r then recorded (mgr_metrics m) else RecordFailure (mgr_metrics m))\<rparr>) r"

definition ManagerBegin ::
  "local_transaction_manager \<Rightarrow> typed_uuid \<Rightarrow> u64 \<Rightarrow> local_transaction_manager \<times> local_transaction_manager_result" where
  "ManagerBegin m uuid millis = manager_operation RecordBegin m (BeginLocalTransaction (mgr_inventory m) uuid millis)"

definition ManagerCommit ::
  "local_transaction_manager \<Rightarrow> local_transaction_id \<Rightarrow> u64 \<Rightarrow> local_transaction_manager \<times> local_transaction_manager_result" where
  "ManagerCommit m i millis = manager_operation RecordCommit m (CommitLocalTransaction (mgr_inventory m) i millis)"

definition ManagerRollback ::
  "local_transaction_manager \<Rightarrow> local_transaction_id \<Rightarrow> u64 \<Rightarrow> local_transaction_manager \<times> local_transaction_manager_result" where
  "ManagerRollback m i millis = manager_operation RecordRollback m (RollbackLocalTransaction (mgr_inventory m) i millis)"

definition ManagerAbort ::
  "local_transaction_manager \<Rightarrow> local_transaction_id \<Rightarrow> u64 \<Rightarrow> local_transaction_manager \<times> local_transaction_manager_result" where
  "ManagerAbort m i millis = manager_operation RecordAbort m (AbortLocalTransaction (mgr_inventory m) i millis)"

definition ManagerHorizons :: "local_transaction_manager \<Rightarrow> local_transaction_horizons result" where
  "ManagerHorizons m = ComputeLocalTransactionHorizons (mgr_inventory m)"

definition ManagerSnapshot ::
  "local_transaction_manager \<Rightarrow> local_transaction_id \<Rightarrow> (local_transaction_snapshot \<times> visibility_snapshot) result" where
  "ManagerSnapshot m reader = CreateLocalTransactionSnapshot (mgr_inventory m) reader"

section \<open>Sequences of calls\<close>

datatype manager_call =
    MC_begin typed_uuid u64 | MC_commit local_transaction_id u64
  | MC_rollback local_transaction_id u64 | MC_abort local_transaction_id u64

fun perform :: "manager_call \<Rightarrow> local_transaction_manager \<Rightarrow> local_transaction_manager" where
  "perform (MC_begin uuid millis) m = fst (ManagerBegin m uuid millis)"
| "perform (MC_commit i millis) m = fst (ManagerCommit m i millis)"
| "perform (MC_rollback i millis) m = fst (ManagerRollback m i millis)"
| "perform (MC_abort i millis) m = fst (ManagerAbort m i millis)"

definition manager_run :: "manager_call list \<Rightarrow> local_transaction_manager" where
  "manager_run calls = fold perform calls (LocalTransactionManager MakeEmptyLocalTransactionInventory)"

section \<open>Lemmas\<close>

definition in_state :: "transaction_state \<Rightarrow> local_transaction_inventory \<Rightarrow> nat" where
  "in_state s ivt = length (filter (\<lambda>e. entry_state e = s) (entries ivt))"

definition accounted :: "local_transaction_manager \<Rightarrow> bool" where
  "accounted m \<longleftrightarrow>
    (let ivt = mgr_inventory m; s = mgr_metrics m in
     valid_inventory ivt \<and>
     (\<forall>e \<in> set (entries ivt). entry_state e \<in> {TS_active, TS_committed, TS_rolled_back}) \<and>
     unat (next_local_transaction_id ivt) = Suc (unat (begin_total s)) \<and>
     unat (next_commit_sequence ivt) = Suc (unat (commit_total s)) \<and>
     length (entries ivt) = unat (begin_total s) \<and> in_state TS_active ivt = unat (active_current s) \<and>
     in_state TS_committed ivt = unat (commit_total s) \<and>
     in_state TS_rolled_back ivt = unat (rollback_total s) + unat (abort_total s))"

lemma replace_count:
  "find p xs = Some x \<Longrightarrow>
   length (filter P (replace_first p y xs)) + (if P x then 1 else 0) = length (filter P xs) + (if P y then 1 else 0)"
  by (induction xs) (auto split: if_splits)

lemma store_count:
  assumes "FindEntry ivt i = Some old" "entries mid = entries ivt"
  shows "in_state s (StoreEntry mid i e) + (if entry_state old = s then 1 else 0) =
    in_state s ivt + (if entry_state e = s then 1 else 0)"
  using replace_count [of "\<lambda>e. entry_id e = i" "entries ivt" old "\<lambda>e. entry_state e = s" e] assms
  by (simp add: in_state_def FindEntry_def)

lemma count_states:
  assumes "\<forall>e \<in> set (entries ivt). entry_state e \<in> {TS_active, TS_committed, TS_rolled_back}"
  shows "in_state TS_active ivt + in_state TS_committed ivt + in_state TS_rolled_back ivt = length (entries ivt)"
proof -
  have "length (filter (\<lambda>e. entry_state e = TS_active) es) + length (filter (\<lambda>e. entry_state e = TS_committed) es) +
      length (filter (\<lambda>e. entry_state e = TS_rolled_back) es) = length es"
    if "\<forall>e \<in> set es. entry_state e \<in> {TS_active, TS_committed, TS_rolled_back}" for es
    using that by (induction es) auto
  then show ?thesis using assms by (simp add: in_state_def)
qed

lemma set_store_states:
  assumes "\<forall>e \<in> set (entries ivt). P (entry_state e)" "P (entry_state e')" "entries mid = entries ivt"
  shows "\<forall>e \<in> set (entries (StoreEntry mid i e')). P (entry_state e)"
  using assms set_replace_first [of "\<lambda>e. entry_id e = i" e' "entries ivt"] by (auto simp: StoreEntry_def)

lemma fst_manager_operation:
  "fst (manager_operation rec m r) =
    (case r of Inl _ \<Rightarrow> m\<lparr>mgr_metrics := RecordFailure (mgr_metrics m)\<rparr>
     | Inr (ivt, e) \<Rightarrow> \<lparr>mgr_inventory = ivt, mgr_metrics = rec (mgr_metrics m)\<rparr>)"
  by (auto simp: manager_operation_def FromInventoryResult_def Let_def split: sum.splits)

lemma accounted_failure:
  "accounted m \<Longrightarrow> accounted (m\<lparr>mgr_metrics := RecordFailure (mgr_metrics m)\<rparr>)"
  by (simp add: accounted_def RecordFailure_def Let_def)

lemma unat_add_one_less: "unat x < n \<Longrightarrow> n \<le> unat (y :: u64) \<Longrightarrow> unat (x + 1 :: u64) = Suc (unat x)"
proof -
  assume "unat x < n" "n \<le> unat y"
  then have "x < y" by (simp add: word_less_nat_alt)
  then have "x \<noteq> u64_max" by (auto simp: u64_max_def)
  then show ?thesis by (rule u64_inc_unat)
qed

lemma accounted_begin:
  assumes a: "accounted m" and b: "BeginLocalTransaction (mgr_inventory m) uuid millis = Inr (ivt, e)"
  shows "accounted \<lparr>mgr_inventory = ivt, mgr_metrics = RecordBegin (mgr_metrics m)\<rparr>"
proof -
  let ?o = "mgr_inventory m" let ?s = "mgr_metrics m"
  have n: "next_local_transaction_id ?o \<noteq> u64_max" and e: "entry_state e = TS_active"
    and i: "ivt = ?o\<lparr>next_local_transaction_id := next_local_transaction_id ?o + 1, entries := entries ?o @ [e]\<rparr>"
    using b by (auto simp: BeginLocalTransaction_def Begin_Inr begun_entry_def)
  have v: "valid_inventory ivt" using b by (auto simp: BeginLocalTransaction_def intro: Begin_valid)
  have nx: "unat (next_local_transaction_id ?o) = Suc (unat (begin_total ?s))"
    using a by (simp add: accounted_def Let_def)
  have b1: "unat (begin_total ?s + 1) = Suc (unat (begin_total ?s))"
    by (rule unat_add_one_less [of _ _ "next_local_transaction_id ?o", OF lessI]) (simp add: nx)
  have "in_state TS_active ?o \<le> length (entries ?o)" by (simp add: in_state_def)
  then have "unat (active_current ?s) < Suc (unat (begin_total ?s))" using a by (simp add: accounted_def Let_def)
  then have b2: "unat (active_current ?s + 1) = Suc (unat (active_current ?s))"
    by (rule unat_add_one_less [of _ _ "next_local_transaction_id ?o"]) (simp add: nx)
  show ?thesis using a v e b1 b2 u64_inc_unat [OF n] by (simp add: accounted_def Let_def i RecordBegin_def in_state_def)
qed

text \<open>Commit, rollback and abort turn one active entry into a final one.\<close>

lemma accounted_finish:
  assumes a: "accounted m" and f: "FindEntry (mgr_inventory m) i = Some old" and o: "entry_state old = TS_active"
    and mid: "entries mid = entries (mgr_inventory m)"
      "next_local_transaction_id mid = next_local_transaction_id (mgr_inventory m)"
    and v: "valid_inventory (StoreEntry mid i e)"
    and e: "entry_state e = TS_committed \<and> s' = s\<lparr>commit_total := commit_total s + 1\<rparr> \<and>
        next_commit_sequence mid = next_commit_sequence (mgr_inventory m) + 1 \<and>
        next_commit_sequence (mgr_inventory m) \<noteq> u64_max \<or>
      entry_state e = TS_rolled_back \<and> next_commit_sequence mid = next_commit_sequence (mgr_inventory m) \<and>
        (s' = s\<lparr>rollback_total := rollback_total s + 1\<rparr> \<or> s' = s\<lparr>abort_total := abort_total s + 1\<rparr>)"
    and s: "s = mgr_metrics m"
  shows "accounted \<lparr>mgr_inventory = StoreEntry mid i e, mgr_metrics = drop_active s'\<rparr>"
proof -
  let ?o = "mgr_inventory m"
  have st: "\<forall>e \<in> set (entries ?o). entry_state e \<in> {TS_active, TS_committed, TS_rolled_back}"
    and len: "length (entries ?o) = unat (begin_total s)"
    and nx: "unat (next_local_transaction_id ?o) = Suc (unat (begin_total s))"
    and act: "in_state TS_active ?o = unat (active_current s)"
    and fin: "in_state TS_committed ?o = unat (commit_total s)"
      "in_state TS_rolled_back ?o = unat (rollback_total s) + unat (abort_total s)"
    and ncs: "unat (next_commit_sequence ?o) = Suc (unat (commit_total s))"
    using a s by (simp_all add: accounted_def Let_def)
  note c = store_count [OF f mid(1), of _ e, unfolded o]
  have pos: "0 < in_state TS_active ?o" using c [of TS_active] e by auto
  then have "active_current s \<noteq> 0" using act by auto
  note dec = this u64_dec_unat [OF this]
  have room: "unat (commit_total s) < unat (begin_total s)" "unat (rollback_total s) < unat (begin_total s)"
    "unat (abort_total s) < unat (begin_total s)" using count_states [OF st] pos len fin by linarith+
  then have inc: "unat (commit_total s + 1) = Suc (unat (commit_total s))"
    "unat (rollback_total s + 1) = Suc (unat (rollback_total s))" "unat (abort_total s + 1) = Suc (unat (abort_total s))"
    by (metis unat_add_one_less order_refl)+
  have st': "\<forall>e' \<in> set (entries (StoreEntry mid i e)). entry_state e' \<in> {TS_active, TS_committed, TS_rolled_back}"
    by (rule set_store_states [OF st _ mid(1)]) (use e in auto)
  have len': "length (entries (StoreEntry mid i e)) = length (entries ?o)" by (simp add: mid)
  from e show ?thesis
    using v st' len' len nx ncs act fin c [of TS_active] c [of TS_committed] c [of TS_rolled_back] dec inc mid(2) u64_inc_unat
    by (elim disjE conjE) (simp_all add: accounted_def Let_def drop_active_def)
qed

lemma accounted_commit:
  assumes a: "accounted m" and c: "CommitLocalTransaction (mgr_inventory m) i millis = Inr (ivt, e)"
  shows "accounted \<lparr>mgr_inventory = ivt, mgr_metrics = RecordCommit (mgr_metrics m)\<rparr>"
proof -
  have v: "valid_inventory ivt" using c by (rule Commit_valid)
  from c obtain old where old: "FindEntry (mgr_inventory m) i = Some old" "committable old"
    "next_commit_sequence (mgr_inventory m) \<noteq> u64_max"
    "e = committed_entry (next_commit_sequence (mgr_inventory m)) millis old"
    "ivt = StoreEntry ((mgr_inventory m)\<lparr>next_commit_sequence := next_commit_sequence (mgr_inventory m) + 1\<rparr>) i e"
    by (auto simp: Commit_Inr)
  have "entry_state old = TS_active" using a old(1,2) FindEntry_Some [OF old(1)]
    by (auto simp: accounted_def Let_def committable_def)
  from accounted_finish [OF a old(1) this _ _ v [unfolded old(5)], where s = "mgr_metrics m"] show ?thesis
    unfolding RecordCommit_def old(5) using old(3,4) by (simp add: committed_entry_def)
qed

lemma accounted_rollback:
  assumes a: "accounted m" and r: "RollbackLocalTransaction (mgr_inventory m) i millis = Inr (ivt, e)"
  shows "accounted \<lparr>mgr_inventory = ivt, mgr_metrics = RecordRollback (mgr_metrics m)\<rparr>"
    and "accounted \<lparr>mgr_inventory = ivt, mgr_metrics = RecordAbort (mgr_metrics m)\<rparr>"
proof -
  have v: "valid_inventory ivt" using a r by (auto simp: accounted_def Let_def intro: Rollback_valid)
  from r obtain old where old: "FindEntry (mgr_inventory m) i = Some old"
    "entry_state old \<in> {TS_created, TS_active, TS_read_only_active, TS_preparing, TS_prepared}"
    "entry_state e = TS_rolled_back" "ivt = StoreEntry (mgr_inventory m) i e"
    by (auto simp: Rollback_Inr)
  have "entry_state old = TS_active" using a old(1,2) FindEntry_Some [OF old(1)]
    by (auto simp: accounted_def Let_def)
  note fin = accounted_finish [OF a old(1) this _ _ v [unfolded old(4)], where s = "mgr_metrics m"]
  show "accounted \<lparr>mgr_inventory = ivt, mgr_metrics = RecordRollback (mgr_metrics m)\<rparr>"
    unfolding RecordRollback_def old(4) by (rule fin) (use old(3) in auto)
  show "accounted \<lparr>mgr_inventory = ivt, mgr_metrics = RecordAbort (mgr_metrics m)\<rparr>"
    unfolding RecordAbort_def old(4) by (rule fin) (use old(3) in auto)
qed

lemma accounted_perform: "accounted m \<Longrightarrow> accounted (perform c m)"
  by (cases c)
    (auto simp: ManagerBegin_def ManagerCommit_def ManagerRollback_def ManagerAbort_def AbortLocalTransaction_def
      fst_manager_operation accounted_failure split: sum.splits
      intro: accounted_begin accounted_commit accounted_rollback)

lemma accounted_new: "accounted (LocalTransactionManager MakeEmptyLocalTransactionInventory)"
  using empty_valid
  by (simp add: accounted_def LocalTransactionManager_def MakeEmptyLocalTransactionInventory_def in_state_def Let_def)

interpretation manager: invariant_system "\<lambda>m m'. \<exists>c. m' = perform c m" accounted
  by unfold_locales (auto simp: accounted_perform)

lemma manager_run_accounted: "accounted (manager_run calls)"
proof -
  have "(\<lambda>m m'. \<exists>c. m' = perform c m)\<^sup>*\<^sup>* m (fold perform calls m)" for m
    by (induction calls arbitrary: m) (auto intro: converse_rtranclp_into_rtranclp)
  then show ?thesis unfolding manager_run_def by (rule manager.run_keeps [OF _ accounted_new])
qed

definition calls_counted :: "transaction_metrics_snapshot \<Rightarrow> u64" where
  "calls_counted s = begin_total s + commit_total s + rollback_total s + abort_total s + failure_total s"

lemma perform_counted: "calls_counted (mgr_metrics (perform c m)) = calls_counted (mgr_metrics m) + 1"
  by (cases c)
    (auto simp: ManagerBegin_def ManagerCommit_def ManagerRollback_def ManagerAbort_def fst_manager_operation
      calls_counted_def RecordBegin_def RecordCommit_def RecordRollback_def RecordAbort_def RecordFailure_def
      drop_active_def split: sum.splits)

lemma run_counted: "calls_counted (mgr_metrics (manager_run calls)) = of_nat (length calls)"
proof -
  have "calls_counted (mgr_metrics (fold perform calls m)) = calls_counted (mgr_metrics m) + of_nat (length calls)" for m
    by (induction calls arbitrary: m) (simp_all add: perform_counted)
  then show ?thesis by (simp add: manager_run_def LocalTransactionManager_def calls_counted_def)
qed

lemma failed_operation_keeps_inventory:
  "\<not> is_ok (mr_outcome (snd (manager_operation rec m r))) \<Longrightarrow>
   fst (manager_operation rec m r) = m\<lparr>mgr_metrics := RecordFailure (mgr_metrics m)\<rparr>"
  by (auto simp: manager_operation_def FromInventoryResult_def Let_def is_ok_iff split: sum.splits)

section \<open>Property\<close>

text \<open>
  C12. After any sequence of begin, commit, rollback and abort calls on a new manager, failing ones
  included, the inventory passes its structure check and the counters account for it: the next transaction
  number and the next commit sequence are one more than the begun and the committed transactions, the gauge
  of active transactions is the number of active entries, rolled back entries are those rolled back or
  aborted, every transaction begun is in exactly one of these groups, no counter but that of failures has
  wrapped around, and every call is counted once: the sum of the counters is the number of calls modulo
  the range of a 64-bit word.
\<close>

theorem manager_accounts_for_every_transaction:
  "let m = manager_run calls; ivt = mgr_inventory m; s = mgr_metrics m in
    ValidateLocalTransactionInventoryStructure ivt = '''' \<and>
    next_local_transaction_id ivt = begin_total s + 1 \<and> next_commit_sequence ivt = commit_total s + 1 \<and>
    length (entries ivt) = unat (begin_total s) \<and>
    length (filter (\<lambda>e. entry_state e = TS_active) (entries ivt)) = unat (active_current s) \<and>
    length (filter (\<lambda>e. entry_state e = TS_committed) (entries ivt)) = unat (commit_total s) \<and>
    length (filter (\<lambda>e. entry_state e = TS_rolled_back) (entries ivt)) = unat (rollback_total s) + unat (abort_total s) \<and>
    unat (begin_total s) =
      unat (active_current s) + unat (commit_total s) + unat (rollback_total s) + unat (abort_total s) \<and>
    begin_total s + commit_total s + rollback_total s + abort_total s + failure_total s = of_nat (length calls)"
proof -
  let ?m = "manager_run calls"
  have a: "accounted ?m" by (rule manager_run_accounted)
  have succ: "x = y + 1" if "unat x = Suc (unat y)" for x y :: u64
    using that unsigned_less [of x, where ?'a = nat] by (intro word_unat_eq_iff [THEN iffD2]) (simp add: unat_word_ariths)
  show ?thesis
    using a count_states [of "mgr_inventory ?m"] run_counted [of calls]
    by (simp add: accounted_def Let_def structure_valid_iff in_state_def succ calls_counted_def)
qed

end
