(* ===== verification/PageFinality.thy ===== *)
theory PageFinality
  imports TransactionInventory
begin

text \<open>
  Page finality evidence, \<^verbatim>\<open>page_finality_evidence.{hpp,cpp}\<close>: the decision whether a persisted finality
  map entry lets a consumer skip the visibility recheck of a page or an extent, and the authority for
  exact index cleanup that builds on it. The lemmas state what an accepted decision guarantees.
\<close>

section \<open>Data\<close>

datatype page_finality_scope = PS_page | PS_extent | PS_unknown

datatype page_finality_consumer = PC_index_only_scan | PC_dml_recheck | PC_cleanup | PC_summary_pruning | PC_unknown

datatype page_finality_map_status = PM_current | PM_missing | PM_stale | PM_uncertain | PM_incompatible | PM_corrupt

datatype page_finality_provenance =
    PP_engine_mga_transaction_inventory | PP_engine_mga_cleanup_horizon | PP_parser_claim | PP_reference_claim
  | PP_timestamp_claim | PP_uuid_order_claim | PP_external_log_claim | PP_unknown

record page_finality_map_entry =
  pf_scope :: page_finality_scope
  pf_status :: page_finality_map_status
  pf_provenance :: page_finality_provenance
  pf_relation_uuid :: uuid
  pf_page_number :: u64
  pf_page_generation :: u64
  pf_extent_id :: u64
  pf_extent_epoch :: u64
  pf_relation_epoch :: u64
  pf_catalog_epoch :: u64
  pf_final_through_local_transaction_id :: local_transaction_id
  pf_map_generation :: u64
  pf_persisted_record_present :: bool
  pf_checksum_valid :: bool
  pf_all_visible :: bool
  pf_all_final :: bool

record page_finality_observed_facts =
  po_requested_scope :: page_finality_scope
  po_relation_uuid :: uuid
  po_page_number :: u64
  po_page_generation :: u64
  po_extent_id :: u64
  po_extent_epoch :: u64
  po_relation_epoch :: u64
  po_catalog_epoch :: u64
  po_reader_visible_through_local_transaction_id :: local_transaction_id
  po_oldest_active_local_transaction_id :: local_transaction_id
  po_transaction_horizon_authoritative :: bool
  po_transaction_inventory_authoritative :: bool
  po_normal_mga_visibility_authority_available :: bool

type_synonym evidence_field = "string \<times> string"

record page_finality_decision_counters =
  pc_evidence_examined :: u64
  pc_accepted :: u64
  pc_refused :: u64
  pc_stale_refusals :: u64
  pc_epoch_refusals :: u64
  pc_horizon_refusals :: u64
  pc_provenance_refusals :: u64

record page_finality_evidence_decision =
  pd_bound_entry :: "page_finality_map_entry option"
  pd_accepted :: bool
  pd_all_visible :: bool
  pd_all_final :: bool
  pd_map_is_transaction_finality_authority :: bool
  pd_durable_mga_inventory_remains_authority :: bool
  pd_normal_mga_recheck_required :: bool
  pd_evidence_name :: string
  pd_refusal_reason :: string
  pd_evidence :: "evidence_field list"
  pd_counters :: page_finality_decision_counters

record exact_index_cleanup_authority_decision =
  xd_accepted :: bool
  xd_cleanup_horizon_authoritative :: bool
  xd_transaction_inventory_authoritative :: bool
  xd_page_finality_authoritative :: bool
  xd_cleanup_horizon_local_transaction_id :: u64
  xd_authority_source :: string
  xd_refusal_reason :: string
  xd_evidence :: "evidence_field list"
  xd_counters :: page_finality_decision_counters

section \<open>Names\<close>

fun PageFinalityScopeName :: "page_finality_scope \<Rightarrow> string" where
  "PageFinalityScopeName PS_page = ''page''"
| "PageFinalityScopeName PS_extent = ''extent''"
| "PageFinalityScopeName PS_unknown = ''unknown''"

fun PageFinalityConsumerName :: "page_finality_consumer \<Rightarrow> string" where
  "PageFinalityConsumerName PC_index_only_scan = ''index_only_scan''"
| "PageFinalityConsumerName PC_dml_recheck = ''dml_recheck''"
| "PageFinalityConsumerName PC_cleanup = ''cleanup''"
| "PageFinalityConsumerName PC_summary_pruning = ''summary_pruning''"
| "PageFinalityConsumerName PC_unknown = ''unknown''"

fun PageFinalityMapStatusName :: "page_finality_map_status \<Rightarrow> string" where
  "PageFinalityMapStatusName PM_current = ''current''"
| "PageFinalityMapStatusName PM_missing = ''missing''"
| "PageFinalityMapStatusName PM_stale = ''stale''"
| "PageFinalityMapStatusName PM_uncertain = ''uncertain''"
| "PageFinalityMapStatusName PM_incompatible = ''incompatible''"
| "PageFinalityMapStatusName PM_corrupt = ''corrupt''"

fun PageFinalityProvenanceName :: "page_finality_provenance \<Rightarrow> string" where
  "PageFinalityProvenanceName PP_engine_mga_transaction_inventory = ''engine_mga_transaction_inventory''"
| "PageFinalityProvenanceName PP_engine_mga_cleanup_horizon = ''engine_mga_cleanup_horizon''"
| "PageFinalityProvenanceName PP_parser_claim = ''parser_claim''"
| "PageFinalityProvenanceName PP_reference_claim = ''reference_claim''"
| "PageFinalityProvenanceName PP_timestamp_claim = ''timestamp_claim''"
| "PageFinalityProvenanceName PP_uuid_order_claim = ''uuid_order_claim''"
| "PageFinalityProvenanceName PP_external_log_claim = ''external_log_claim''"
| "PageFinalityProvenanceName PP_unknown = ''unknown''"

section \<open>Decisions\<close>

definition RequiresAllVisible :: "page_finality_consumer \<Rightarrow> bool" where
  "RequiresAllVisible c \<longleftrightarrow> c = PC_index_only_scan \<or> c = PC_dml_recheck"

definition RequiresAllFinal :: "page_finality_consumer \<Rightarrow> bool" where
  "RequiresAllFinal c \<longleftrightarrow> c = PC_cleanup \<or> c = PC_summary_pruning"

definition IsEngineMgaProvenance :: "page_finality_provenance \<Rightarrow> bool" where
  "IsEngineMgaProvenance p \<longleftrightarrow> p = PP_engine_mga_transaction_inventory \<or> p = PP_engine_mga_cleanup_horizon"

definition no_counters :: page_finality_decision_counters where
  "no_counters = \<lparr>pc_evidence_examined = 0, pc_accepted = 0, pc_refused = 0, pc_stale_refusals = 0,
     pc_epoch_refusals = 0, pc_horizon_refusals = 0, pc_provenance_refusals = 0\<rparr>"

definition fresh_page_decision :: page_finality_evidence_decision where
  "fresh_page_decision =
    \<lparr>pd_bound_entry = None, pd_accepted = False, pd_all_visible = False, pd_all_final = False,
     pd_map_is_transaction_finality_authority = False, pd_durable_mga_inventory_remains_authority = True,
     pd_normal_mga_recheck_required = True, pd_evidence_name = ''mga_page_finality.refused'',
     pd_refusal_reason = ''not_evaluated'', pd_evidence = [], pd_counters = no_counters\<rparr>"

definition RefusePageFinality ::
  "page_finality_evidence_decision \<Rightarrow> string \<Rightarrow> page_finality_evidence_decision" where
  "RefusePageFinality d reason =
    d\<lparr>pd_accepted := False, pd_bound_entry := None, pd_all_visible := False, pd_all_final := False,
      pd_normal_mga_recheck_required := True, pd_evidence_name := ''mga_page_finality.refused'',
      pd_refusal_reason := reason, pd_counters := pc_refused_update ((+) 1) (pd_counters d)\<rparr>"

text \<open>A refusal that first counts its kind.\<close>

definition refuse_counting ::
  "(page_finality_decision_counters \<Rightarrow> page_finality_decision_counters) \<Rightarrow>
   page_finality_evidence_decision \<Rightarrow> string \<Rightarrow> page_finality_evidence_decision" where
  "refuse_counting kind d reason = RefusePageFinality (d\<lparr>pd_counters := kind (pd_counters d)\<rparr>) reason"

definition EvaluatePageFinalityEvidence ::
  "page_finality_map_entry \<Rightarrow> page_finality_observed_facts \<Rightarrow> page_finality_consumer \<Rightarrow>
   page_finality_evidence_decision" where
  "EvaluatePageFinalityEvidence e obs consumer =
    (let d = fresh_page_decision\<lparr>
           pd_counters := no_counters\<lparr>pc_evidence_examined := 1\<rparr>,
           pd_evidence :=
            [(''consumer'', PageFinalityConsumerName consumer),
             (''requested_scope'', PageFinalityScopeName (po_requested_scope obs)),
             (''entry_scope'', PageFinalityScopeName (pf_scope e)),
             (''entry_status'', PageFinalityMapStatusName (pf_status e)),
             (''provenance'', PageFinalityProvenanceName (pf_provenance e)),
             (''authority_source'', ''durable_mga_transaction_inventory''),
             (''map_transaction_finality_authority'', ''false'')]\<rparr>;
         stale = refuse_counting (pc_stale_refusals_update ((+) 1)) d;
         epoch = refuse_counting (pc_epoch_refusals_update ((+) 1)) d;
         horizon = refuse_counting (pc_horizon_refusals_update ((+) 1)) d in
     if (\<not> RequiresAllVisible consumer \<and> \<not> RequiresAllFinal consumer) \<or>
        (pf_scope e \<noteq> PS_page \<and> pf_scope e \<noteq> PS_extent) \<or> po_requested_scope obs \<noteq> pf_scope e then
       RefusePageFinality d ''scope_or_consumer_incompatible''
     else if \<not> pf_persisted_record_present e \<or> pf_status e = PM_missing then stale ''finality_map_missing''
     else if \<not> pf_checksum_valid e \<or> pf_status e = PM_corrupt then stale ''finality_map_corrupt''
     else if pf_status e \<noteq> PM_current then stale ''finality_map_not_current''
     else if \<not> IsEngineMgaProvenance (pf_provenance e) then
       refuse_counting (pc_provenance_refusals_update ((+) 1)) d ''finality_map_external_provenance_refused''
     else if \<not> IsEngineIdentityUuid (po_relation_uuid obs) \<or> \<not> IsEngineIdentityUuid (pf_relation_uuid e) \<or>
             po_relation_uuid obs \<noteq> pf_relation_uuid e then
       RefusePageFinality d ''relation_mismatch_or_missing''
     else if pf_page_generation e = 0 \<or> po_page_generation obs = 0 \<or> pf_extent_epoch e = 0 \<or>
             po_extent_epoch obs = 0 \<or> pf_relation_epoch e = 0 \<or> po_relation_epoch obs = 0 \<or>
             pf_catalog_epoch e = 0 \<or> po_catalog_epoch obs = 0 \<or> pf_map_generation e = 0 then
       epoch ''generation_or_epoch_missing''
     else if pf_scope e = PS_page \<and>
             (pf_page_number e \<noteq> po_page_number obs \<or> pf_page_generation e \<noteq> po_page_generation obs) then
       epoch ''page_generation_mismatch''
     else if pf_extent_id e \<noteq> po_extent_id obs \<or> pf_extent_epoch e \<noteq> po_extent_epoch obs then
       epoch ''extent_epoch_mismatch''
     else if pf_relation_epoch e \<noteq> po_relation_epoch obs \<or> pf_catalog_epoch e \<noteq> po_catalog_epoch obs then
       epoch ''relation_or_catalog_epoch_mismatch''
     else if \<not> local_id_valid (pf_final_through_local_transaction_id e) \<or>
             \<not> local_id_valid (po_reader_visible_through_local_transaction_id obs) \<or>
             \<not> local_id_valid (po_oldest_active_local_transaction_id obs) \<or>
             \<not> po_transaction_horizon_authoritative obs \<or> \<not> po_transaction_inventory_authoritative obs then
       horizon ''transaction_horizon_or_inventory_uncertain''
     else if po_oldest_active_local_transaction_id obs \<le> pf_final_through_local_transaction_id e then
       horizon ''active_transaction_overlaps_finality_map''
     else if po_reader_visible_through_local_transaction_id obs < pf_final_through_local_transaction_id e then
       horizon ''reader_horizon_behind_finality_map''
     else if \<not> po_normal_mga_visibility_authority_available obs then
       RefusePageFinality d ''normal_mga_visibility_authority_missing''
     else if RequiresAllVisible consumer \<and> \<not> pf_all_visible e then
       RefusePageFinality d ''page_all_visible_evidence_missing''
     else if RequiresAllFinal consumer \<and> \<not> pf_all_final e then
       RefusePageFinality d ''extent_all_final_evidence_missing''
     else d\<lparr>pd_accepted := True, pd_bound_entry := Some e, pd_all_visible := pf_all_visible e,
            pd_all_final := pf_all_final e, pd_normal_mga_recheck_required := False,
            pd_evidence_name := (if pf_scope e = PS_page then ''mga_page_finality.page_all_visible.accepted''
                                 else ''mga_page_finality.extent_all_final.accepted''),
            pd_refusal_reason := ''none'', pd_counters := pc_accepted_update ((+) 1) (pd_counters d),
            pd_evidence := pd_evidence d @
              [(''final_through_local_transaction_id'', to_string (pf_final_through_local_transaction_id e)),
               (''map_generation'', to_string (pf_map_generation e))]\<rparr>)"

definition EvaluateExactIndexCleanupAuthority ::
  "page_finality_evidence_decision \<Rightarrow> local_transaction_id \<Rightarrow> bool \<Rightarrow> bool \<Rightarrow>
   exact_index_cleanup_authority_decision" where
  "EvaluateExactIndexCleanupAuthority pf cleanup_horizon horizon_auth inventory_auth =
    (let hid = (if local_id_valid cleanup_horizon then cleanup_horizon else 0);
         d = \<lparr>xd_accepted = False, xd_cleanup_horizon_authoritative = horizon_auth,
              xd_transaction_inventory_authoritative = inventory_auth, xd_page_finality_authoritative = False,
              xd_cleanup_horizon_local_transaction_id = hid, xd_authority_source = ''none'',
              xd_refusal_reason = ''not_evaluated'',
              xd_evidence = pd_evidence pf @
                [(''authority_consumer'', ''exact_index_cleanup''),
                 (''cleanup_horizon_authoritative'', if horizon_auth then ''true'' else ''false''),
                 (''transaction_inventory_authoritative'', if inventory_auth then ''true'' else ''false''),
                 (''cleanup_horizon_local_transaction_id'', to_string hid)],
              xd_counters = pd_counters pf\<rparr> in
     if \<not> local_id_valid cleanup_horizon \<or> \<not> horizon_auth \<or> \<not> inventory_auth then
       d\<lparr>xd_refusal_reason := ''cleanup_horizon_or_transaction_inventory_uncertain'',
         xd_counters := pc_horizon_refusals_update ((+) 1) (xd_counters d)\<rparr>
     else if \<not> pd_accepted pf then
       d\<lparr>xd_refusal_reason := (if pd_refusal_reason pf = '''' then ''page_finality_refused'' else pd_refusal_reason pf),
         xd_counters := pc_refused_update ((+) 1) (xd_counters d)\<rparr>
     else if \<not> pd_all_final pf then
       d\<lparr>xd_refusal_reason := ''page_finality_all_final_required'',
         xd_counters := pc_horizon_refusals_update ((+) 1) (xd_counters d)\<rparr>
     else if pd_map_is_transaction_finality_authority pf \<or> \<not> pd_durable_mga_inventory_remains_authority pf then
       d\<lparr>xd_refusal_reason := ''durable_mga_inventory_authority_required'',
         xd_counters := pc_provenance_refusals_update ((+) 1) (xd_counters d)\<rparr>
     else d\<lparr>xd_accepted := True, xd_page_finality_authoritative := True,
            xd_authority_source := ''durable_mga_transaction_inventory'', xd_refusal_reason := ''none'',
            xd_evidence := xd_evidence d @
              [(''authority_source'', ''durable_mga_transaction_inventory''), (''page_finality_all_final'', ''true'')]\<rparr>)"

section \<open>What an accepted decision guarantees\<close>

text \<open>The map entry describes the observed page or extent, in the observed epochs, and no open transaction overlaps it.\<close>

definition describes :: "page_finality_map_entry \<Rightarrow> page_finality_observed_facts \<Rightarrow> bool" where
  "describes e obs \<longleftrightarrow>
    pf_scope e = po_requested_scope obs \<and> pf_scope e \<noteq> PS_unknown \<and> pf_relation_uuid e = po_relation_uuid obs \<and>
    IsEngineIdentityUuid (pf_relation_uuid e) \<and>
    (pf_scope e = PS_page \<longrightarrow>
       pf_page_number e = po_page_number obs \<and> pf_page_generation e = po_page_generation obs) \<and>
    pf_page_generation e \<noteq> 0 \<and> po_page_generation obs \<noteq> 0 \<and>
    pf_extent_id e = po_extent_id obs \<and> pf_extent_epoch e = po_extent_epoch obs \<and> pf_extent_epoch e \<noteq> 0 \<and>
    pf_relation_epoch e = po_relation_epoch obs \<and> pf_relation_epoch e \<noteq> 0 \<and>
    pf_catalog_epoch e = po_catalog_epoch obs \<and> pf_catalog_epoch e \<noteq> 0 \<and> pf_map_generation e \<noteq> 0 \<and>
    0 < pf_final_through_local_transaction_id e \<and>
    pf_final_through_local_transaction_id e \<le> po_reader_visible_through_local_transaction_id obs \<and>
    pf_final_through_local_transaction_id e < po_oldest_active_local_transaction_id obs"

definition trusted :: "page_finality_map_entry \<Rightarrow> bool" where
  "trusted e \<longleftrightarrow> pf_persisted_record_present e \<and> pf_checksum_valid e \<and> pf_status e = PM_current \<and>
    IsEngineMgaProvenance (pf_provenance e)"

lemma refuse_not_accepted [simp]:
  "\<not> pd_accepted (RefusePageFinality d r)" "\<not> pd_accepted (refuse_counting k d r)"
  by (simp_all add: refuse_counting_def RefusePageFinality_def)

lemma local_id_valid_pos: "local_id_valid i \<longleftrightarrow> 0 < i"
  by (simp add: local_id_valid_def kInvalidLocalTransactionId_def word_neq_0_conv)

definition consumer_served :: "page_finality_consumer \<Rightarrow> page_finality_map_entry \<Rightarrow> bool" where
  "consumer_served c e \<longleftrightarrow> RequiresAllVisible c \<and> pf_all_visible e \<or> RequiresAllFinal c \<and> pf_all_final e"

definition observer_authoritative :: "page_finality_observed_facts \<Rightarrow> bool" where
  "observer_authoritative obs \<longleftrightarrow> po_transaction_horizon_authoritative obs \<and>
    po_transaction_inventory_authoritative obs \<and> po_normal_mga_visibility_authority_available obs"

lemma requires_one: "\<not> (RequiresAllVisible c \<and> RequiresAllFinal c)"
  by (auto simp: RequiresAllVisible_def RequiresAllFinal_def)

lemma accepted_if: "\<not> pd_accepted x \<Longrightarrow> pd_accepted (if b then x else y) \<longleftrightarrow> \<not> b \<and> pd_accepted y"
  by simp

lemma page_accepted_iff:
  "pd_accepted (EvaluatePageFinalityEvidence e obs c) \<longleftrightarrow>
    trusted e \<and> describes e obs \<and> observer_authoritative obs \<and> consumer_served c e"
    (is "_ \<longleftrightarrow> ?r")
proof -
  note defs = trusted_def describes_def observer_authoritative_def consumer_served_def
  have sc: "pf_scope e \<noteq> PS_page \<and> pf_scope e \<noteq> PS_extent \<longleftrightarrow> pf_scope e = PS_unknown"
    by (cases "pf_scope e") auto
  show ?thesis
    unfolding EvaluatePageFinalityEvidence_def Let_def
    apply (simp only: accepted_if refuse_not_accepted not_False_eq_True sc local_id_valid_pos)
    apply (rule iffI)
    subgoal by (simp add: defs not_le not_less word_greater_zero_iff) blast
    subgoal using requires_one [of c] by (simp add: defs not_le not_less fresh_page_decision_def word_greater_zero_iff) force
    done
qed

lemma if_both: "P x \<Longrightarrow> P y \<Longrightarrow> P (if b then x else y)"
  by simp

lemma page_accepted_facts:
  assumes "pd_accepted (EvaluatePageFinalityEvidence e obs c)"
  defines "d \<equiv> EvaluatePageFinalityEvidence e obs c"
  shows "pd_bound_entry d = Some e" "pd_all_visible d = pf_all_visible e" "pd_all_final d = pf_all_final e"
    "\<not> pd_normal_mga_recheck_required d"
proof -
  let ?P = "\<lambda>d. pd_accepted d \<longrightarrow> pd_bound_entry d = Some e \<and> pd_all_visible d = pf_all_visible e \<and>
    pd_all_final d = pf_all_final e \<and> \<not> pd_normal_mga_recheck_required d"
  have "?P (EvaluatePageFinalityEvidence e obs c)"
    unfolding EvaluatePageFinalityEvidence_def Let_def by (rule if_both [of ?P], simp)+ simp
  then show "pd_bound_entry d = Some e" "pd_all_visible d = pf_all_visible e" "pd_all_final d = pf_all_final e"
    "\<not> pd_normal_mga_recheck_required d" using assms by auto
qed

lemma page_authority:
  "\<not> pd_map_is_transaction_finality_authority (EvaluatePageFinalityEvidence e obs c) \<and>
   pd_durable_mga_inventory_remains_authority (EvaluatePageFinalityEvidence e obs c)"
proof -
  let ?P = "\<lambda>d. \<not> pd_map_is_transaction_finality_authority d \<and> pd_durable_mga_inventory_remains_authority d"
  note defs = refuse_counting_def RefusePageFinality_def fresh_page_decision_def
  show ?thesis
    unfolding EvaluatePageFinalityEvidence_def Let_def
    by (rule if_both [of ?P], simp add: defs)+ (simp add: defs)
qed

end
