(* ===== verification/VisibilityStatusCache.thy ===== *)
theory VisibilityStatusCache
  imports PageFinality InventoryEvolution
begin

text \<open>
  The visibility status cache, \<^verbatim>\<open>visibility_status_cache.{hpp,cpp}\<close>: answers that were once read from the
  transaction inventory or accepted from page finality evidence, kept with the generations and epochs
  they hold for. A null cache pointer is \<^const>\<open>None\<close>. The lemmas show that an accepted answer still agrees
  with the inventory, however the inventory has moved on, and rests on accepted page evidence.
\<close>

section \<open>Data\<close>

datatype visibility_status_cache_entry_status = VE_current | VE_missing | VE_stale | VE_uncertain | VE_incompatible

datatype visibility_status_cache_probe =
    VP_txid_range_all_committed | VP_page_all_visible | VP_page_all_committed | VP_relation_no_older_reader | VP_unknown

record visibility_status_cache_facts =
  vf_cache_generation :: u64
  vf_invalidation_generation :: u64
  vf_horizon_epoch :: u64
  vf_snapshot_epoch :: u64
  vf_relation_epoch :: u64
  vf_catalog_epoch :: u64
  vf_reader_visible_through_local_transaction_id :: local_transaction_id
  vf_oldest_active_local_transaction_id :: local_transaction_id
  vf_oldest_snapshot_local_transaction_id :: local_transaction_id
  vf_transaction_inventory_authoritative :: bool
  vf_transaction_horizon_authoritative :: bool
  vf_normal_mga_visibility_authority_available :: bool

record visibility_status_cache_counters =
  vk_probes :: u64
  vk_accepted :: u64
  vk_refused :: u64
  vk_stale_refusals :: u64
  vk_epoch_refusals :: u64
  vk_horizon_refusals :: u64
  vk_authority_refusals :: u64

record visibility_status_cache_decision =
  vd_accepted :: bool
  vd_all_committed :: bool
  vd_all_visible :: bool
  vd_no_older_reader :: bool
  vd_cache_is_transaction_finality_authority :: bool
  vd_durable_mga_inventory_remains_authority :: bool
  vd_authoritative_path_required :: bool
  vd_probe :: visibility_status_cache_probe
  vd_evidence_name :: string
  vd_refusal_reason :: string
  vd_counters :: visibility_status_cache_counters
  vd_evidence :: "evidence_field list"

record transaction_status_range_cache_request =
  rq_first_local_transaction_id :: local_transaction_id
  rq_last_local_transaction_id :: local_transaction_id
  rq_facts :: visibility_status_cache_facts

text \<open>The members every kind of entry has, which the template \<^verbatim>\<open>ValidateEntryFreshness\<close> reads.\<close>

record cache_entry =
  ce_status :: visibility_status_cache_entry_status
  ce_provenance :: page_finality_provenance
  ce_cache_generation :: u64
  ce_invalidation_generation :: u64
  ce_horizon_epoch :: u64
  ce_snapshot_epoch :: u64

record transaction_status_range_cache_entry = cache_entry +
  tr_first_local_transaction_id :: local_transaction_id
  tr_last_local_transaction_id :: local_transaction_id
  tr_all_committed :: bool

record page_visibility_status_cache_request =
  pq_relation_uuid :: uuid
  pq_page_number :: u64
  pq_page_generation :: u64
  pq_extent_id :: u64
  pq_extent_epoch :: u64
  pq_final_through_local_transaction_id :: local_transaction_id
  pq_facts :: visibility_status_cache_facts

record page_visibility_status_cache_entry = cache_entry +
  pv_relation_uuid :: uuid
  pv_page_number :: u64
  pv_page_generation :: u64
  pv_extent_id :: u64
  pv_extent_epoch :: u64
  pv_relation_epoch :: u64
  pv_catalog_epoch :: u64
  pv_final_through_local_transaction_id :: local_transaction_id
  pv_all_visible :: bool
  pv_all_committed :: bool

record relation_no_older_reader_cache_request =
  nq_relation_uuid :: uuid
  nq_no_reader_older_than_local_transaction_id :: local_transaction_id
  nq_facts :: visibility_status_cache_facts

record relation_no_older_reader_cache_entry = cache_entry +
  nr_relation_uuid :: uuid
  nr_relation_epoch :: u64
  nr_catalog_epoch :: u64
  nr_no_reader_older_than_local_transaction_id :: local_transaction_id

record mga_visibility_status_cache =
  vc_cache_generation :: u64
  vc_invalidation_generation :: u64
  vc_transaction_status_ranges :: "transaction_status_range_cache_entry list"
  vc_page_visibility_entries :: "page_visibility_status_cache_entry list"
  vc_relation_reader_entries :: "relation_no_older_reader_cache_entry list"
  vc_counters :: visibility_status_cache_counters

fun VisibilityStatusCacheProbeName :: "visibility_status_cache_probe \<Rightarrow> string" where
  "VisibilityStatusCacheProbeName VP_txid_range_all_committed = ''txid_range_all_committed''"
| "VisibilityStatusCacheProbeName VP_page_all_visible = ''page_all_visible''"
| "VisibilityStatusCacheProbeName VP_page_all_committed = ''page_all_committed''"
| "VisibilityStatusCacheProbeName VP_relation_no_older_reader = ''relation_no_older_reader''"
| "VisibilityStatusCacheProbeName VP_unknown = ''unknown''"

fun VisibilityStatusCacheEntryStatusName :: "visibility_status_cache_entry_status \<Rightarrow> string" where
  "VisibilityStatusCacheEntryStatusName VE_current = ''current''"
| "VisibilityStatusCacheEntryStatusName VE_missing = ''missing''"
| "VisibilityStatusCacheEntryStatusName VE_stale = ''stale''"
| "VisibilityStatusCacheEntryStatusName VE_uncertain = ''uncertain''"
| "VisibilityStatusCacheEntryStatusName VE_incompatible = ''incompatible''"

section \<open>Decisions\<close>

definition zero_counters :: visibility_status_cache_counters where
  "zero_counters = \<lparr>vk_probes = 0, vk_accepted = 0, vk_refused = 0, vk_stale_refusals = 0, vk_epoch_refusals = 0,
     vk_horizon_refusals = 0, vk_authority_refusals = 0\<rparr>"

definition MakeMgaVisibilityStatusCache :: "u64 \<Rightarrow> u64 \<Rightarrow> mga_visibility_status_cache" where
  "MakeMgaVisibilityStatusCache cg ig =
    \<lparr>vc_cache_generation = cg, vc_invalidation_generation = ig, vc_transaction_status_ranges = [],
     vc_page_visibility_entries = [], vc_relation_reader_entries = [], vc_counters = zero_counters\<rparr>"

definition IsInventoryCommittedEvidence :: "transaction_inventory_entry \<Rightarrow> bool" where
  "IsInventoryCommittedEvidence e \<longleftrightarrow>
    HasCommittedInventoryOutcome e \<and> commit_sequence e \<noteq> 0 \<and> evidence_record_written e"

definition MergeCounters ::
  "visibility_status_cache_counters \<Rightarrow> visibility_status_cache_counters \<Rightarrow> visibility_status_cache_counters" where
  "MergeCounters t s =
    \<lparr>vk_probes = vk_probes t + vk_probes s, vk_accepted = vk_accepted t + vk_accepted s,
     vk_refused = vk_refused t + vk_refused s, vk_stale_refusals = vk_stale_refusals t + vk_stale_refusals s,
     vk_epoch_refusals = vk_epoch_refusals t + vk_epoch_refusals s,
     vk_horizon_refusals = vk_horizon_refusals t + vk_horizon_refusals s,
     vk_authority_refusals = vk_authority_refusals t + vk_authority_refusals s\<rparr>"

definition AddCacheEvidence ::
  "visibility_status_cache_decision \<Rightarrow> string \<Rightarrow> string \<Rightarrow> visibility_status_cache_decision" where
  "AddCacheEvidence d n v = d\<lparr>vd_evidence := vd_evidence d @ [(n, v)]\<rparr>"

definition StartDecision :: "visibility_status_cache_probe \<Rightarrow> visibility_status_cache_decision" where
  "StartDecision probe =
    \<lparr>vd_accepted = False, vd_all_committed = False, vd_all_visible = False, vd_no_older_reader = False,
     vd_cache_is_transaction_finality_authority = False, vd_durable_mga_inventory_remains_authority = True,
     vd_authoritative_path_required = True, vd_probe = probe,
     vd_evidence_name = ''mga_visibility_status_cache.refused'', vd_refusal_reason = ''not_evaluated'',
     vd_counters = zero_counters\<lparr>vk_probes := 1\<rparr>,
     vd_evidence = [(''probe'', VisibilityStatusCacheProbeName probe),
       (''authority_source'', ''durable_mga_transaction_inventory''),
       (''cache_transaction_finality_authority'', ''false'')]\<rparr>"

definition Refuse :: "visibility_status_cache_decision \<Rightarrow> string \<Rightarrow> visibility_status_cache_decision" where
  "Refuse d reason =
    d\<lparr>vd_accepted := False, vd_all_committed := False, vd_all_visible := False, vd_no_older_reader := False,
      vd_authoritative_path_required := True, vd_evidence_name := ''mga_visibility_status_cache.refused'',
      vd_refusal_reason := reason, vd_counters := vk_refused_update ((+) 1) (vd_counters d)\<rparr>"

definition refuse_as ::
  "(visibility_status_cache_counters \<Rightarrow> visibility_status_cache_counters) \<Rightarrow>
   visibility_status_cache_decision \<Rightarrow> string \<Rightarrow> visibility_status_cache_decision" where
  "refuse_as kind d reason = Refuse (d\<lparr>vd_counters := kind (vd_counters d)\<rparr>) reason"

abbreviation stale_refusal :: "visibility_status_cache_decision \<Rightarrow> string \<Rightarrow> visibility_status_cache_decision" where
  "stale_refusal \<equiv> refuse_as (vk_stale_refusals_update ((+) 1))"

abbreviation epoch_refusal :: "visibility_status_cache_decision \<Rightarrow> string \<Rightarrow> visibility_status_cache_decision" where
  "epoch_refusal \<equiv> refuse_as (vk_epoch_refusals_update ((+) 1))"

abbreviation horizon_refusal :: "visibility_status_cache_decision \<Rightarrow> string \<Rightarrow> visibility_status_cache_decision" where
  "horizon_refusal \<equiv> refuse_as (vk_horizon_refusals_update ((+) 1))"

abbreviation authority_refusal :: "visibility_status_cache_decision \<Rightarrow> string \<Rightarrow> visibility_status_cache_decision" where
  "authority_refusal \<equiv> refuse_as (vk_authority_refusals_update ((+) 1))"

definition Accept :: "visibility_status_cache_decision \<Rightarrow> string \<Rightarrow> visibility_status_cache_decision" where
  "Accept d nm =
    d\<lparr>vd_accepted := True, vd_authoritative_path_required := False, vd_evidence_name := nm,
      vd_refusal_reason := ''none'', vd_counters := vk_accepted_update ((+) 1) (vd_counters d)\<rparr>"

definition CommonFactsPresent :: "visibility_status_cache_facts \<Rightarrow> bool" where
  "CommonFactsPresent f \<longleftrightarrow> vf_cache_generation f \<noteq> 0 \<and> vf_invalidation_generation f \<noteq> 0 \<and>
    vf_horizon_epoch f \<noteq> 0 \<and> vf_snapshot_epoch f \<noteq> 0 \<and>
    local_id_valid (vf_reader_visible_through_local_transaction_id f) \<and>
    local_id_valid (vf_oldest_active_local_transaction_id f) \<and>
    local_id_valid (vf_oldest_snapshot_local_transaction_id f)"

definition RelationFactsPresent :: "visibility_status_cache_facts \<Rightarrow> bool" where
  "RelationFactsPresent f \<longleftrightarrow> vf_relation_epoch f \<noteq> 0 \<and> vf_catalog_epoch f \<noteq> 0"

definition CommonAuthorityPresent :: "visibility_status_cache_facts \<Rightarrow> bool" where
  "CommonAuthorityPresent f \<longleftrightarrow> vf_transaction_inventory_authoritative f \<and>
    vf_transaction_horizon_authoritative f \<and> vf_normal_mga_visibility_authority_available f"

definition ValidateCommonFacts ::
  "visibility_status_cache_decision \<Rightarrow> visibility_status_cache_facts \<Rightarrow> visibility_status_cache_decision" where
  "ValidateCommonFacts d f =
    (if \<not> CommonFactsPresent f then epoch_refusal d ''cache_generation_epoch_or_horizon_missing''
     else if \<not> CommonAuthorityPresent f then authority_refusal d ''mga_authority_inputs_uncertain''
     else d)"

definition ValidateCacheContainerFreshness ::
  "visibility_status_cache_decision \<Rightarrow> mga_visibility_status_cache \<Rightarrow> visibility_status_cache_facts \<Rightarrow>
   visibility_status_cache_decision" where
  "ValidateCacheContainerFreshness d0 c f =
    (let d = AddCacheEvidence (AddCacheEvidence d0 ''cache_container_generation'' (to_string (vc_cache_generation c)))
               ''cache_container_invalidation_generation'' (to_string (vc_invalidation_generation c)) in
     if vc_cache_generation c = 0 \<or> vc_invalidation_generation c = 0 \<or>
        vc_cache_generation c \<noteq> vf_cache_generation f \<or>
        vc_invalidation_generation c \<noteq> vf_invalidation_generation f then
       stale_refusal d ''visibility_status_cache_generation_mismatch''
     else d)"

definition IsRefused :: "visibility_status_cache_decision \<Rightarrow> bool" where
  "IsRefused d \<longleftrightarrow> vd_refusal_reason d \<noteq> '''' \<and> vd_refusal_reason d \<noteq> ''not_evaluated''"

definition ValidateEntryFreshness ::
  "visibility_status_cache_decision \<Rightarrow> 'a cache_entry_scheme \<Rightarrow> visibility_status_cache_facts \<Rightarrow>
   visibility_status_cache_decision" where
  "ValidateEntryFreshness d e f =
    (if ce_status e = VE_missing then stale_refusal d ''visibility_status_cache_missing''
     else if ce_status e \<noteq> VE_current then stale_refusal d ''visibility_status_cache_not_current''
     else if \<not> IsEngineMgaProvenance (ce_provenance e) then
       authority_refusal d ''visibility_status_cache_external_provenance_refused''
     else if ce_cache_generation e \<noteq> vf_cache_generation f \<or>
             ce_invalidation_generation e \<noteq> vf_invalidation_generation f then
       stale_refusal d ''visibility_status_cache_generation_mismatch''
     else if ce_horizon_epoch e \<noteq> vf_horizon_epoch f \<or> ce_snapshot_epoch e \<noteq> vf_snapshot_epoch f then
       epoch_refusal d ''visibility_status_cache_epoch_mismatch''
     else d)"

definition ReaderAndActiveHorizonsCover :: "visibility_status_cache_facts \<Rightarrow> local_transaction_id \<Rightarrow> bool" where
  "ReaderAndActiveHorizonsCover f thru \<longleftrightarrow> local_id_valid thru \<and>
    thru \<le> vf_reader_visible_through_local_transaction_id f \<and> thru < vf_oldest_active_local_transaction_id f"

section \<open>Operations\<close>

type_synonym cache_answer = "mga_visibility_status_cache option \<times> visibility_status_cache_decision"

text \<open>A return that first adds the counters of the decision to those of the cache.\<close>

definition counted :: "mga_visibility_status_cache \<Rightarrow> visibility_status_cache_decision \<Rightarrow> cache_answer" where
  "counted c d = (Some (c\<lparr>vc_counters := MergeCounters (vc_counters c) (vd_counters d)\<rparr>), d)"

function range_committed :: "local_transaction_inventory \<Rightarrow> u64 \<Rightarrow> u64 \<Rightarrow> bool" where
  "range_committed ivt i lst =
    (if lst < i then True
     else if (case LookupLocalTransaction ivt i of Inl _ \<Rightarrow> True | Inr e \<Rightarrow> \<not> IsInventoryCommittedEvidence e) then False
     else if i = lst then True
     else range_committed ivt (i + 1) lst)"
  by pat_completeness auto
termination
proof (relation "measure (\<lambda>(ivt, i, lst). unat lst - unat i)")
  fix ivt and i lst :: u64
  assume "\<not> lst < i" "i \<noteq> lst"
  then have "i < lst" by simp
  moreover from this have "i \<noteq> u64_max" by (auto simp: u64_max_def)
  ultimately show "((ivt, i + 1, lst), (ivt, i, lst)) \<in> measure (\<lambda>(ivt, i, lst). unat lst - unat i)"
    by (simp add: u64_inc_unat word_less_nat_alt)
qed simp

declare range_committed.simps [simp del]

definition CacheTransactionStatusRangeFromInventory ::
  "mga_visibility_status_cache option \<Rightarrow> local_transaction_inventory \<Rightarrow> transaction_status_range_cache_request \<Rightarrow>
   cache_answer" where
  "CacheTransactionStatusRangeFromInventory cache ivt rq =
    (let f = rq_facts rq; first = rq_first_local_transaction_id rq; lst = rq_last_local_transaction_id rq;
         d0 = ValidateCommonFacts (StartDecision VP_txid_range_all_committed) f in
     if IsRefused d0 then (cache, d0)
     else if cache = None \<or> \<not> local_id_valid first \<or> \<not> local_id_valid lst \<or> lst < first then
       (cache, stale_refusal d0 ''txid_range_invalid'')
     else
       let c = the cache; d = ValidateCacheContainerFreshness d0 c f in
       if IsRefused d then counted c d
       else if \<not> ReaderAndActiveHorizonsCover f lst then (cache, horizon_refusal d ''txid_range_horizon_not_closed'')
       else if \<not> range_committed ivt first lst then
         (cache, authority_refusal d ''txid_range_not_all_committed_by_inventory'')
       else
         let entry = \<lparr>ce_status = VE_current, ce_provenance = PP_engine_mga_transaction_inventory,
               ce_cache_generation = vf_cache_generation f, ce_invalidation_generation = vf_invalidation_generation f,
               ce_horizon_epoch = vf_horizon_epoch f, ce_snapshot_epoch = vf_snapshot_epoch f,
               tr_first_local_transaction_id = first, tr_last_local_transaction_id = lst, tr_all_committed = True\<rparr>
         in counted (c\<lparr>vc_transaction_status_ranges := vc_transaction_status_ranges c @ [entry]\<rparr>)
              (Accept (AddCacheEvidence (AddCacheEvidence (d\<lparr>vd_all_committed := True\<rparr>)
                 ''first_local_transaction_id'' (to_string first)) ''last_local_transaction_id'' (to_string lst))
                 ''mga_visibility_status_cache.txid_range_all_committed.cached''))"

definition range_covers :: "transaction_status_range_cache_request \<Rightarrow> transaction_status_range_cache_entry \<Rightarrow> bool" where
  "range_covers rq e \<longleftrightarrow>
    \<not> (\<not> local_id_valid (tr_first_local_transaction_id e) \<or> \<not> local_id_valid (tr_last_local_transaction_id e) \<or>
       rq_first_local_transaction_id rq < tr_first_local_transaction_id e \<or>
       tr_last_local_transaction_id e < rq_last_local_transaction_id rq)"

definition EvaluateCachedTransactionStatusRange ::
  "mga_visibility_status_cache option \<Rightarrow> transaction_status_range_cache_request \<Rightarrow> cache_answer" where
  "EvaluateCachedTransactionStatusRange cache rq =
    (let f = rq_facts rq; d0 = ValidateCommonFacts (StartDecision VP_txid_range_all_committed) f in
     if IsRefused d0 then (cache, d0)
     else if cache = None \<or> \<not> local_id_valid (rq_first_local_transaction_id rq) \<or>
             \<not> local_id_valid (rq_last_local_transaction_id rq) then
       (cache, stale_refusal d0 ''visibility_status_cache_missing'')
     else
       let c = the cache; d = ValidateCacheContainerFreshness d0 c f in
       if IsRefused d then counted c d
       else case find (range_covers rq) (vc_transaction_status_ranges c) of
         None \<Rightarrow> counted c (stale_refusal d ''visibility_status_cache_missing'')
       | Some e \<Rightarrow>
           let d1 = ValidateEntryFreshness d e f in
           if IsRefused d1 then counted c d1
           else if \<not> tr_all_committed e \<or> \<not> ReaderAndActiveHorizonsCover f (rq_last_local_transaction_id rq) then
             counted c (horizon_refusal d1 ''txid_range_horizon_not_closed'')
           else counted c (Accept (AddCacheEvidence (d1\<lparr>vd_all_committed := True\<rparr>) ''cache_generation''
                  (to_string (ce_cache_generation e))) ''mga_visibility_status_cache.txid_range_all_committed.accepted''))"

definition page_bound :: "page_visibility_status_cache_request \<Rightarrow> page_finality_map_entry \<Rightarrow> bool" where
  "page_bound rq b \<longleftrightarrow>
    \<not> (pf_scope b \<noteq> PS_page \<or> pf_relation_uuid b \<noteq> pq_relation_uuid rq \<or> pf_page_number b \<noteq> pq_page_number rq \<or>
       pf_page_generation b \<noteq> pq_page_generation rq \<or> pf_extent_id b \<noteq> pq_extent_id rq \<or>
       pf_extent_epoch b \<noteq> pq_extent_epoch rq \<or> pf_relation_epoch b \<noteq> vf_relation_epoch (pq_facts rq) \<or>
       pf_catalog_epoch b \<noteq> vf_catalog_epoch (pq_facts rq) \<or>
       pf_final_through_local_transaction_id b \<noteq> pq_final_through_local_transaction_id rq)"

definition CachePageVisibilityStatus ::
  "mga_visibility_status_cache option \<Rightarrow> page_visibility_status_cache_request \<Rightarrow> page_finality_evidence_decision \<Rightarrow>
   bool \<Rightarrow> cache_answer" where
  "CachePageVisibilityStatus cache rq pf committed =
    (let f = pq_facts rq; d0 = ValidateCommonFacts (StartDecision VP_page_all_visible) f in
     if IsRefused d0 then (cache, d0)
     else if cache = None \<or> \<not> IsEngineIdentityUuid (pq_relation_uuid rq) \<or> pq_page_generation rq = 0 \<or>
             pq_extent_epoch rq = 0 \<or> \<not> RelationFactsPresent f then
       (cache, epoch_refusal d0 ''page_visibility_cache_identity_or_epoch_missing'')
     else
       let c = the cache; d = ValidateCacheContainerFreshness d0 c f in
       if IsRefused d then counted c d
       else if \<not> pd_accepted pf \<or> \<not> pd_all_visible pf \<or> pd_map_is_transaction_finality_authority pf \<or>
               \<not> pd_durable_mga_inventory_remains_authority pf then
         (cache, authority_refusal d ''page_finality_evidence_not_acceptable_for_cache'')
       else if (case pd_bound_entry pf of None \<Rightarrow> True | Some b \<Rightarrow> \<not> page_bound rq b) then
         (cache, authority_refusal d ''page_finality_evidence_binding_mismatch'')
       else if \<not> ReaderAndActiveHorizonsCover f (pq_final_through_local_transaction_id rq) then
         (cache, horizon_refusal d ''page_visibility_horizon_not_closed'')
       else
         let entry = \<lparr>ce_status = VE_current, ce_provenance = PP_engine_mga_transaction_inventory,
               ce_cache_generation = vf_cache_generation f, ce_invalidation_generation = vf_invalidation_generation f,
               ce_horizon_epoch = vf_horizon_epoch f, ce_snapshot_epoch = vf_snapshot_epoch f,
               pv_relation_uuid = pq_relation_uuid rq, pv_page_number = pq_page_number rq,
               pv_page_generation = pq_page_generation rq, pv_extent_id = pq_extent_id rq,
               pv_extent_epoch = pq_extent_epoch rq, pv_relation_epoch = vf_relation_epoch f,
               pv_catalog_epoch = vf_catalog_epoch f,
               pv_final_through_local_transaction_id = pq_final_through_local_transaction_id rq,
               pv_all_visible = True, pv_all_committed = committed\<rparr>
         in counted (c\<lparr>vc_page_visibility_entries := vc_page_visibility_entries c @ [entry]\<rparr>)
              (Accept (d\<lparr>vd_all_visible := True, vd_all_committed := committed\<rparr>)
                 ''mga_visibility_status_cache.page_visibility.cached''))"

definition page_matches :: "page_visibility_status_cache_request \<Rightarrow> page_visibility_status_cache_entry \<Rightarrow> bool" where
  "page_matches rq e \<longleftrightarrow>
    \<not> (pv_relation_uuid e \<noteq> pq_relation_uuid rq \<or> pv_page_number e \<noteq> pq_page_number rq \<or>
       pv_page_generation e \<noteq> pq_page_generation rq \<or> pv_extent_id e \<noteq> pq_extent_id rq)"

definition EvaluateCachedPageVisibilityStatus ::
  "mga_visibility_status_cache option \<Rightarrow> page_visibility_status_cache_request \<Rightarrow> visibility_status_cache_probe \<Rightarrow>
   cache_answer" where
  "EvaluateCachedPageVisibilityStatus cache rq probe =
    (let f = pq_facts rq; d0 = ValidateCommonFacts (StartDecision probe) f in
     if IsRefused d0 then (cache, d0)
     else if probe \<noteq> VP_page_all_visible \<and> probe \<noteq> VP_page_all_committed then
       (cache, Refuse d0 ''page_visibility_probe_incompatible'')
     else if cache = None \<or> \<not> IsEngineIdentityUuid (pq_relation_uuid rq) then
       (cache, stale_refusal d0 ''visibility_status_cache_missing'')
     else
       let c = the cache; d = ValidateCacheContainerFreshness d0 c f in
       if IsRefused d then counted c d
       else case find (page_matches rq) (vc_page_visibility_entries c) of
         None \<Rightarrow> counted c (stale_refusal d ''visibility_status_cache_missing'')
       | Some e \<Rightarrow>
           let d1 = ValidateEntryFreshness d e f in
           if IsRefused d1 then counted c d1
           else if pv_extent_epoch e \<noteq> pq_extent_epoch rq \<or> pv_relation_epoch e \<noteq> vf_relation_epoch f \<or>
                   pv_catalog_epoch e \<noteq> vf_catalog_epoch f then
             counted c (epoch_refusal d1 ''page_visibility_epoch_mismatch'')
           else if \<not> ReaderAndActiveHorizonsCover f (pv_final_through_local_transaction_id e) then
             counted c (horizon_refusal d1 ''page_visibility_horizon_not_closed'')
           else if probe = VP_page_all_visible \<and> \<not> pv_all_visible e then
             counted c (Refuse d1 ''page_all_visible_cache_evidence_missing'')
           else if probe = VP_page_all_committed \<and> \<not> pv_all_committed e then
             counted c (Refuse d1 ''page_all_committed_cache_evidence_missing'')
           else counted c (Accept (d1\<lparr>vd_all_visible := pv_all_visible e, vd_all_committed := pv_all_committed e\<rparr>)
                  (if probe = VP_page_all_visible then ''mga_visibility_status_cache.page_all_visible.accepted''
                   else ''mga_visibility_status_cache.page_all_committed.accepted'')))"

definition CacheRelationNoOlderReaderStatus ::
  "mga_visibility_status_cache option \<Rightarrow> relation_no_older_reader_cache_request \<Rightarrow> cache_answer" where
  "CacheRelationNoOlderReaderStatus cache rq =
    (let f = nq_facts rq; older = nq_no_reader_older_than_local_transaction_id rq;
         d0 = ValidateCommonFacts (StartDecision VP_relation_no_older_reader) f in
     if IsRefused d0 then (cache, d0)
     else if cache = None \<or> \<not> IsEngineIdentityUuid (nq_relation_uuid rq) \<or> \<not> local_id_valid older \<or>
             \<not> RelationFactsPresent f then
       (cache, epoch_refusal d0 ''relation_reader_cache_identity_or_epoch_missing'')
     else
       let c = the cache; d = ValidateCacheContainerFreshness d0 c f in
       if IsRefused d then counted c d
       else if vf_oldest_snapshot_local_transaction_id f \<le> older then
         (cache, horizon_refusal d ''relation_reader_horizon_not_closed'')
       else
         let entry = \<lparr>ce_status = VE_current, ce_provenance = PP_engine_mga_transaction_inventory,
               ce_cache_generation = vf_cache_generation f, ce_invalidation_generation = vf_invalidation_generation f,
               ce_horizon_epoch = vf_horizon_epoch f, ce_snapshot_epoch = vf_snapshot_epoch f,
               nr_relation_uuid = nq_relation_uuid rq, nr_relation_epoch = vf_relation_epoch f,
               nr_catalog_epoch = vf_catalog_epoch f, nr_no_reader_older_than_local_transaction_id = older\<rparr>
         in counted (c\<lparr>vc_relation_reader_entries := vc_relation_reader_entries c @ [entry]\<rparr>)
              (Accept (d\<lparr>vd_no_older_reader := True\<rparr>) ''mga_visibility_status_cache.relation_no_older_reader.cached''))"

definition relation_covers ::
  "relation_no_older_reader_cache_request \<Rightarrow> relation_no_older_reader_cache_entry \<Rightarrow> bool" where
  "relation_covers rq e \<longleftrightarrow>
    \<not> (nr_relation_uuid e \<noteq> nq_relation_uuid rq \<or>
       nr_no_reader_older_than_local_transaction_id e < nq_no_reader_older_than_local_transaction_id rq)"

definition EvaluateCachedRelationNoOlderReaderStatus ::
  "mga_visibility_status_cache option \<Rightarrow> relation_no_older_reader_cache_request \<Rightarrow> cache_answer" where
  "EvaluateCachedRelationNoOlderReaderStatus cache rq =
    (let f = nq_facts rq; older = nq_no_reader_older_than_local_transaction_id rq;
         d0 = ValidateCommonFacts (StartDecision VP_relation_no_older_reader) f in
     if IsRefused d0 then (cache, d0)
     else if cache = None \<or> \<not> IsEngineIdentityUuid (nq_relation_uuid rq) \<or> \<not> local_id_valid older then
       (cache, stale_refusal d0 ''visibility_status_cache_missing'')
     else
       let c = the cache; d = ValidateCacheContainerFreshness d0 c f in
       if IsRefused d then counted c d
       else case find (relation_covers rq) (vc_relation_reader_entries c) of
         None \<Rightarrow> counted c (stale_refusal d ''visibility_status_cache_missing'')
       | Some e \<Rightarrow>
           let d1 = ValidateEntryFreshness d e f in
           if IsRefused d1 then counted c d1
           else if nr_relation_epoch e \<noteq> vf_relation_epoch f \<or> nr_catalog_epoch e \<noteq> vf_catalog_epoch f then
             counted c (epoch_refusal d1 ''relation_reader_epoch_mismatch'')
           else if vf_oldest_snapshot_local_transaction_id f \<le> older then
             counted c (horizon_refusal d1 ''relation_reader_horizon_not_closed'')
           else counted c (Accept (d1\<lparr>vd_no_older_reader := True\<rparr>)
                  ''mga_visibility_status_cache.relation_no_older_reader.accepted''))"

section \<open>What the operations do to the entries\<close>

fun ranges_of :: "mga_visibility_status_cache option \<Rightarrow> transaction_status_range_cache_entry list" where
  "ranges_of None = []"
| "ranges_of (Some c) = vc_transaction_status_ranges c"

fun pages_of :: "mga_visibility_status_cache option \<Rightarrow> page_visibility_status_cache_entry list" where
  "pages_of None = []"
| "pages_of (Some c) = vc_page_visibility_entries c"

abbreviation same_entries :: "mga_visibility_status_cache option \<Rightarrow> mga_visibility_status_cache option \<Rightarrow> bool" where
  "same_entries c c' \<equiv> ranges_of c' = ranges_of c \<and> pages_of c' = pages_of c"

lemma counted_parts [simp]:
  "ranges_of (fst (counted c d)) = vc_transaction_status_ranges c" "pages_of (fst (counted c d)) = vc_page_visibility_entries c"
  "snd (counted c d) = d"
  by (simp_all add: counted_def)

lemma refused_decisions [simp]:
  "\<not> vd_accepted (Refuse d r)" "\<not> vd_accepted (refuse_as k d r)" "vd_accepted (Accept d r)"
  "vd_refusal_reason (Refuse d r) = r" "vd_refusal_reason (refuse_as k d r) = r"
  "vd_accepted (AddCacheEvidence d n v) = vd_accepted d" "vd_refusal_reason (AddCacheEvidence d n v) = vd_refusal_reason d"
  by (simp_all add: Refuse_def refuse_as_def Accept_def AddCacheEvidence_def)

lemma start_decision [simp]:
  "\<not> vd_accepted (StartDecision p)" "vd_refusal_reason (StartDecision p) = ''not_evaluated''"
  by (simp_all add: StartDecision_def)

lemma common_refused:
  "IsRefused (ValidateCommonFacts (StartDecision p) f) \<longleftrightarrow> \<not> (CommonFactsPresent f \<and> CommonAuthorityPresent f)"
  "\<not> vd_accepted (ValidateCommonFacts (StartDecision p) f)"
  by (auto simp: ValidateCommonFacts_def IsRefused_def)

lemma refused_reason: "vd_refusal_reason d = ''not_evaluated'' \<Longrightarrow> \<not> IsRefused d"
  by (simp add: IsRefused_def)

lemma eval_range_entries: "same_entries c (fst (EvaluateCachedTransactionStatusRange c rq))"
  by (cases c) (auto simp: EvaluateCachedTransactionStatusRange_def Let_def split: option.splits)

lemma eval_page_entries: "same_entries c (fst (EvaluateCachedPageVisibilityStatus c rq p))"
  by (cases c) (auto simp: EvaluateCachedPageVisibilityStatus_def Let_def split: option.splits)

lemma eval_relation_entries: "same_entries c (fst (EvaluateCachedRelationNoOlderReaderStatus c rq))"
  by (cases c) (auto simp: EvaluateCachedRelationNoOlderReaderStatus_def Let_def split: option.splits)

lemma cache_relation_entries: "same_entries c (fst (CacheRelationNoOlderReaderStatus c rq))"
  by (cases c) (auto simp: CacheRelationNoOlderReaderStatus_def Let_def)

lemma range_committed_lookup:
  "range_committed ivt i lst \<Longrightarrow> i \<noteq> 0 \<Longrightarrow> i \<le> x \<Longrightarrow> x \<le> lst \<Longrightarrow>
   \<exists>e. FindEntry ivt x = Some e \<and> IsInventoryCommittedEvidence e"
proof (induction ivt i lst rule: range_committed.induct)
  case (1 ivt i lst)
  have le: "\<not> lst < i" using 1(4,5) by simp
  with 1(2) obtain e where e: "LookupLocalTransaction ivt i = Inr e" "IsInventoryCommittedEvidence e"
    by (subst (asm) range_committed.simps) (auto split: sum.splits if_splits)
  then have f: "FindEntry ivt i = Some e"
    by (auto simp: LookupLocalTransaction_def FindEntry_def split: if_splits option.splits)
  show ?case
  proof (cases "x = i")
    case True then show ?thesis using f e by blast
  next
    case False
    then have lt: "i < x" "i \<noteq> lst" using 1(4,5) by auto
    then have m: "i \<noteq> u64_max" by (auto simp: u64_max_def)
    have "range_committed ivt (i + 1) lst"
      using 1(2) le e lt by (subst (asm) range_committed.simps) (simp split: if_splits)
    moreover have "i + 1 \<le> x" using lt(1) m by (simp add: word_less_nat_alt word_le_nat_alt u64_inc_unat)
    moreover have "i + 1 \<noteq> 0" using u64_inc_nonzero [OF m] .
    ultimately show ?thesis using 1(1) [OF le _ lt(2)] e 1(5) by simp
  qed
qed

lemma cache_range_entries:
  assumes "fst (CacheTransactionStatusRangeFromInventory c ivt rq) = c'"
  shows "pages_of c' = pages_of c \<and>
    (ranges_of c' = ranges_of c \<or>
     (\<exists>e. ranges_of c' = ranges_of c @ [e] \<and> tr_first_local_transaction_id e \<noteq> 0 \<and>
        tr_first_local_transaction_id e \<le> tr_last_local_transaction_id e \<and>
        range_committed ivt (tr_first_local_transaction_id e) (tr_last_local_transaction_id e)))"
  unfolding assms [symmetric]
  by (cases c) (auto simp: CacheTransactionStatusRangeFromInventory_def Let_def local_id_valid_pos)

lemma cache_page_entries:
  assumes "fst (CachePageVisibilityStatus c rq pf committed) = c'"
  shows "ranges_of c' = ranges_of c \<and>
    (pages_of c' = pages_of c \<or>
     (\<exists>e b. pages_of c' = pages_of c @ [e] \<and> pd_accepted pf \<and> pd_all_visible pf \<and> pd_bound_entry pf = Some b \<and>
        page_bound rq b \<and> pv_relation_uuid e = pq_relation_uuid rq \<and> pv_page_number e = pq_page_number rq \<and>
        pv_page_generation e = pq_page_generation rq \<and> pv_extent_id e = pq_extent_id rq \<and>
        pv_extent_epoch e = pq_extent_epoch rq \<and> pv_relation_epoch e = vf_relation_epoch (pq_facts rq) \<and>
        pv_catalog_epoch e = vf_catalog_epoch (pq_facts rq) \<and>
        pv_final_through_local_transaction_id e = pq_final_through_local_transaction_id rq))"
  unfolding assms [symmetric]
  by (cases c) (auto simp: CachePageVisibilityStatus_def Let_def split: option.splits)

section \<open>Histories of a cache beside its inventory\<close>

text \<open>
  The inventory moves to a successor its evolution check accepts, or the cache is filled from the
  current inventory, or asked. Page entries are offered with the decision on some persisted map entry.
\<close>

type_synonym cached_world = "local_transaction_inventory \<times> mga_visibility_status_cache option"

inductive cache_step :: "page_finality_map_entry set \<Rightarrow> cached_world \<Rightarrow> cached_world \<Rightarrow> bool"
  for persisted :: "page_finality_map_entry set" where
  evolve: "accepted ivt ivt' \<Longrightarrow> cache_step persisted (ivt, c) (ivt', c)"
| cache_range: "fst (CacheTransactionStatusRangeFromInventory c ivt rq) = c' \<Longrightarrow> cache_step persisted (ivt, c) (ivt, c')"
| ask_range: "fst (EvaluateCachedTransactionStatusRange c rq) = c' \<Longrightarrow> cache_step persisted (ivt, c) (ivt, c')"
| cache_page:
    "b \<in> persisted \<Longrightarrow> fst (CachePageVisibilityStatus c prq (EvaluatePageFinalityEvidence b obs consumer) committed) = c' \<Longrightarrow>
     cache_step persisted (ivt, c) (ivt, c')"
| ask_page: "fst (EvaluateCachedPageVisibilityStatus c prq probe) = c' \<Longrightarrow> cache_step persisted (ivt, c) (ivt, c')"
| cache_relation: "fst (CacheRelationNoOlderReaderStatus c nrq) = c' \<Longrightarrow> cache_step persisted (ivt, c) (ivt, c')"
| ask_relation: "fst (EvaluateCachedRelationNoOlderReaderStatus c nrq) = c' \<Longrightarrow> cache_step persisted (ivt, c) (ivt, c')"

definition range_sound :: "local_transaction_inventory \<Rightarrow> transaction_status_range_cache_entry \<Rightarrow> bool" where
  "range_sound ivt r \<longleftrightarrow> tr_last_local_transaction_id r < next_local_transaction_id ivt \<and>
    (\<forall>e \<in> set (entries ivt). tr_first_local_transaction_id r \<le> entry_id e \<longrightarrow>
       entry_id e \<le> tr_last_local_transaction_id r \<longrightarrow> HasCommittedInventoryOutcome e)"

definition page_sound :: "page_finality_map_entry set \<Rightarrow> page_visibility_status_cache_entry \<Rightarrow> bool" where
  "page_sound persisted p \<longleftrightarrow>
    (\<exists>b \<in> persisted. trusted b \<and> pf_all_visible b \<and> pf_scope b = PS_page \<and> pf_relation_uuid b = pv_relation_uuid p \<and>
       pf_page_number b = pv_page_number p \<and> pf_page_generation b = pv_page_generation p \<and>
       pf_extent_id b = pv_extent_id p \<and> pf_extent_epoch b = pv_extent_epoch p \<and>
       pf_relation_epoch b = pv_relation_epoch p \<and> pf_catalog_epoch b = pv_catalog_epoch p \<and>
       pf_final_through_local_transaction_id b = pv_final_through_local_transaction_id p)"

definition cache_sound :: "page_finality_map_entry set \<Rightarrow> cached_world \<Rightarrow> bool" where
  "cache_sound persisted w \<longleftrightarrow> valid_inventory (fst w) \<and> list_all (range_sound (fst w)) (ranges_of (snd w)) \<and>
    list_all (page_sound persisted) (pages_of (snd w))"

lemma committed_visible: "HasCommittedInventoryOutcome e \<longleftrightarrow> InventoryVisibilityState e = TS_committed"
  by (auto simp: HasCommittedInventoryOutcome_def)

lemma range_sound_evolve:
  assumes a: "accepted ivt ivt'" and s: "range_sound ivt r"
  shows "range_sound ivt' r"
proof -
  have mono: "next_local_transaction_id ivt \<le> next_local_transaction_id ivt'" using a by (simp add: evolution_iff)
  have "HasCommittedInventoryOutcome e"
    if e: "e \<in> set (entries ivt')" "tr_first_local_transaction_id r \<le> entry_id e" "entry_id e \<le> tr_last_local_transaction_id r" for e
  proof -
    have "entry_id e < next_local_transaction_id ivt" using e(3) s by (auto simp: range_sound_def)
    from accepted_entry [OF a e(1) this] obtain old where old: "old \<in> set (entries ivt)" "keeps_outcome old e" by blast
    then have "HasCommittedInventoryOutcome old"
      using s e(2,3) keeps_outcome_id [OF old(2)] by (simp add: range_sound_def)
    then show ?thesis using old(2) by (simp add: committed_visible keeps_outcome_def IsTerminalTransactionState_def)
  qed
  then show ?thesis using s mono by (auto simp: range_sound_def)
qed

lemma range_sound_new:
  assumes v: "valid_inventory ivt" and f: "tr_first_local_transaction_id r \<noteq> 0"
    "tr_first_local_transaction_id r \<le> tr_last_local_transaction_id r"
    and c: "range_committed ivt (tr_first_local_transaction_id r) (tr_last_local_transaction_id r)"
  shows "range_sound ivt r"
proof -
  note look = range_committed_lookup [OF c f(1)]
  obtain e where "FindEntry ivt (tr_last_local_transaction_id r) = Some e" using look [OF f(2) order_refl] by blast
  note e = FindEntry_Some [OF this]
  have "tr_last_local_transaction_id r < next_local_transaction_id ivt"
    using valid_id_less [OF v conjunct1 [OF e]] conjunct2 [OF e] by simp
  moreover have "HasCommittedInventoryOutcome e"
    if e: "e \<in> set (entries ivt)" "tr_first_local_transaction_id r \<le> entry_id e" "entry_id e \<le> tr_last_local_transaction_id r" for e
    using look [OF e(2,3)] FindEntry_mem [OF v e(1)] by (auto simp: IsInventoryCommittedEvidence_def)
  ultimately show ?thesis by (auto simp: range_sound_def)
qed

lemma page_sound_new:
  assumes "b \<in> persisted" "fst (CachePageVisibilityStatus c rq (EvaluatePageFinalityEvidence b obs consumer) committed) = c'"
    and "list_all (page_sound persisted) (pages_of c)"
  shows "list_all (page_sound persisted) (pages_of c')"
  using cache_page_entries [OF assms(2)]
proof (elim conjE disjE exE)
  fix e b'
  assume new: "pages_of c' = pages_of c @ [e]" "pd_accepted (EvaluatePageFinalityEvidence b obs consumer)"
    "pd_all_visible (EvaluatePageFinalityEvidence b obs consumer)"
    "pd_bound_entry (EvaluatePageFinalityEvidence b obs consumer) = Some b'" "page_bound rq b'"
    and e: "pv_relation_uuid e = pq_relation_uuid rq" "pv_page_number e = pq_page_number rq"
      "pv_page_generation e = pq_page_generation rq" "pv_extent_id e = pq_extent_id rq"
      "pv_extent_epoch e = pq_extent_epoch rq" "pv_relation_epoch e = vf_relation_epoch (pq_facts rq)"
      "pv_catalog_epoch e = vf_catalog_epoch (pq_facts rq)"
      "pv_final_through_local_transaction_id e = pq_final_through_local_transaction_id rq"
  have "trusted b" "pf_all_visible b" "b' = b"
    using new(2-4) page_accepted_facts [OF new(2)] by (simp_all add: page_accepted_iff)
  then have "page_sound persisted e"
    unfolding page_sound_def using new(5) e by (intro bexI [OF _ assms(1)]) (simp add: page_bound_def)
  then show ?thesis using new(1) assms(3) by simp
qed (use assms(3) in simp)

lemma cache_step_sound: "cache_step persisted w w' \<Longrightarrow> cache_sound persisted w \<Longrightarrow> cache_sound persisted w'"
proof (induction rule: cache_step.induct)
  case (evolve ivt ivt' c)
  then show ?case
    by (auto simp: cache_sound_def evolution_iff list_all_iff intro: range_sound_evolve)
next
  case (cache_range c ivt rq c')
  have "list_all (range_sound ivt) (ranges_of c')"
    using cache_range_entries [OF cache_range(1)]
  proof (elim conjE disjE exE)
    fix e assume "ranges_of c' = ranges_of c @ [e]" "tr_first_local_transaction_id e \<noteq> 0"
      "tr_first_local_transaction_id e \<le> tr_last_local_transaction_id e"
      "range_committed ivt (tr_first_local_transaction_id e) (tr_last_local_transaction_id e)"
    then show ?thesis using cache_range(2) range_sound_new [of ivt e] by (simp add: cache_sound_def)
  qed (use cache_range(2) in \<open>simp add: cache_sound_def\<close>)
  then show ?case using cache_range(2) cache_range_entries [OF cache_range(1)] by (simp add: cache_sound_def)
next
  case (cache_page b c prq obs consumer committed c' ivt)
  then show ?case
    using page_sound_new [OF cache_page(1,2)] conjunct1 [OF cache_page_entries [OF cache_page(2)]]
    by (simp add: cache_sound_def)
qed (auto simp: cache_sound_def eval_range_entries eval_page_entries cache_relation_entries eval_relation_entries)

section \<open>Accepted answers\<close>

definition entry_fresh :: "'a cache_entry_scheme \<Rightarrow> visibility_status_cache_facts \<Rightarrow> bool" where
  "entry_fresh e f \<longleftrightarrow> ce_status e = VE_current \<and> IsEngineMgaProvenance (ce_provenance e) \<and>
    ce_cache_generation e = vf_cache_generation f \<and> ce_invalidation_generation e = vf_invalidation_generation f \<and>
    ce_horizon_epoch e = vf_horizon_epoch f \<and> ce_snapshot_epoch e = vf_snapshot_epoch f"

definition container_fresh :: "mga_visibility_status_cache \<Rightarrow> visibility_status_cache_facts \<Rightarrow> bool" where
  "container_fresh c f \<longleftrightarrow> vc_cache_generation c \<noteq> 0 \<and> vc_invalidation_generation c \<noteq> 0 \<and>
    vc_cache_generation c = vf_cache_generation f \<and> vc_invalidation_generation c = vf_invalidation_generation f"

definition facts_present :: "visibility_status_cache_facts \<Rightarrow> bool" where
  "facts_present f \<longleftrightarrow> CommonFactsPresent f \<and> CommonAuthorityPresent f"

lemma common_ok:
  "IsRefused (ValidateCommonFacts (StartDecision p) f) \<longleftrightarrow> \<not> facts_present f"
  "facts_present f \<Longrightarrow> ValidateCommonFacts (StartDecision p) f = StartDecision p"
  by (auto simp: facts_present_def ValidateCommonFacts_def IsRefused_def)

lemma refused_common: "\<not> facts_present f \<Longrightarrow> IsRefused (ValidateCommonFacts (StartDecision p) f)"
  using common_ok(1) by blast

lemma container_ok:
  assumes "vd_refusal_reason d = ''not_evaluated''"
  shows "IsRefused (ValidateCacheContainerFreshness d c f) \<longleftrightarrow> \<not> container_fresh c f"
    and "container_fresh c f \<Longrightarrow> vd_refusal_reason (ValidateCacheContainerFreshness d c f) = ''not_evaluated''"
  using assms by (auto simp: ValidateCacheContainerFreshness_def container_fresh_def Let_def IsRefused_def)

lemma entry_ok_fresh:
  assumes "vd_refusal_reason d = ''not_evaluated''"
  shows "IsRefused (ValidateEntryFreshness d e f) \<longleftrightarrow> \<not> entry_fresh e f"
  using assms by (auto simp: ValidateEntryFreshness_def entry_fresh_def IsRefused_def)

lemma unaccepted:
  "vd_refusal_reason d = ''not_evaluated'' \<Longrightarrow> \<not> vd_accepted d \<Longrightarrow> \<not> vd_accepted (ValidateEntryFreshness d e f)"
  "\<not> vd_accepted d \<Longrightarrow> \<not> vd_accepted (ValidateCacheContainerFreshness d c f)"
  by (auto simp: ValidateEntryFreshness_def ValidateCacheContainerFreshness_def Let_def)

lemma cache_accepted_if:
  "\<not> vd_accepted (snd x) \<Longrightarrow> vd_accepted (snd (if b then x else y)) \<longleftrightarrow> \<not> b \<and> vd_accepted (snd y)"
  by simp

lemma eval_range_accepted:
  "vd_accepted (snd (EvaluateCachedTransactionStatusRange c rq)) \<longleftrightarrow>
    facts_present (rq_facts rq) \<and> rq_first_local_transaction_id rq \<noteq> 0 \<and>
    ReaderAndActiveHorizonsCover (rq_facts rq) (rq_last_local_transaction_id rq) \<and>
    (\<exists>k e. c = Some k \<and> container_fresh k (rq_facts rq) \<and>
       find (range_covers rq) (vc_transaction_status_ranges k) = Some e \<and> entry_fresh e (rq_facts rq) \<and> tr_all_committed e)"
proof (cases "facts_present (rq_facts rq)")
  case True
  let ?d = "StartDecision VP_txid_range_all_committed"
  have s: "vd_refusal_reason ?d = ''not_evaluated''" "\<not> vd_accepted ?d" by simp_all
  note d = common_ok(2) [OF True, where p = VP_txid_range_all_committed] refused_reason [OF s(1)]
  show ?thesis
    by (cases c)
      (auto simp: EvaluateCachedTransactionStatusRange_def Let_def d True s container_ok [OF s(1)] entry_ok_fresh unaccepted
        ReaderAndActiveHorizonsCover_def local_id_valid_pos word_greater_zero_iff split: option.split)
next
  case False
  then show ?thesis using refused_common [OF False] common_refused(2)
    by (simp add: EvaluateCachedTransactionStatusRange_def Let_def)
qed

lemma eval_page_accepted:
  "vd_accepted (snd (EvaluateCachedPageVisibilityStatus c rq probe)) \<longleftrightarrow>
    facts_present (pq_facts rq) \<and> probe \<in> {VP_page_all_visible, VP_page_all_committed} \<and>
    IsEngineIdentityUuid (pq_relation_uuid rq) \<and>
    (\<exists>k e. c = Some k \<and> container_fresh k (pq_facts rq) \<and>
       find (page_matches rq) (vc_page_visibility_entries k) = Some e \<and> entry_fresh e (pq_facts rq) \<and>
       pv_extent_epoch e = pq_extent_epoch rq \<and> pv_relation_epoch e = vf_relation_epoch (pq_facts rq) \<and>
       pv_catalog_epoch e = vf_catalog_epoch (pq_facts rq) \<and>
       ReaderAndActiveHorizonsCover (pq_facts rq) (pv_final_through_local_transaction_id e) \<and>
       (if probe = VP_page_all_visible then pv_all_visible e else pv_all_committed e))"
proof (cases "facts_present (pq_facts rq)")
  case True
  let ?d = "StartDecision probe"
  have s: "vd_refusal_reason ?d = ''not_evaluated''" "\<not> vd_accepted ?d" by simp_all
  note d = common_ok(2) [OF True] refused_reason [OF start_decision(2)]
  show ?thesis
  proof (cases c)
    case (Some k)
    let ?d = "ValidateCacheContainerFreshness (StartDecision probe) k (pq_facts rq)"
    show ?thesis
    proof (cases "container_fresh k (pq_facts rq)")
      case fresh: True
      note e = entry_ok_fresh [OF container_ok(2) [OF s(1) fresh]]
        unaccepted(1) [OF container_ok(2) [OF s(1) fresh] unaccepted(2) [OF s(2)]]
      have r: "\<not> IsRefused ?d" using container_ok(1) [OF s(1)] fresh by simp
      show ?thesis
        by (cases "find (page_matches rq) (vc_page_visibility_entries k)")
          (simp_all add: EvaluateCachedPageVisibilityStatus_def Let_def d True s Some fresh r e cache_accepted_if
            split del: if_split, auto)
    qed (auto simp: EvaluateCachedPageVisibilityStatus_def Let_def d True Some container_ok [OF start_decision(2)] unaccepted)
  qed (auto simp: EvaluateCachedPageVisibilityStatus_def Let_def d True s)
next
  case False
  then show ?thesis using refused_common [OF False] common_refused(2)
    by (simp add: EvaluateCachedPageVisibilityStatus_def Let_def)
qed

interpretation cache_history: history_system "cache_step persisted" "cache_sound persisted"
  "\<lambda>w w'. \<exists>more. ranges_of (snd w') = ranges_of (snd w) @ more" for persisted
proof
  show "cache_step persisted w w' \<Longrightarrow> cache_sound persisted w \<Longrightarrow> cache_sound persisted w'" for w w'
    by (rule cache_step_sound)
  show "\<exists>more. ranges_of (snd w') = ranges_of (snd w) @ more" if s: "cache_step persisted w w'" for w w'
    using s
  proof (induction rule: cache_step.induct)
    case (cache_range c ivt rq c')
    then show ?case using cache_range_entries [OF cache_range(1)] by auto
  next
    case (cache_page b c prq obs consumer committed c' ivt)
    then show ?case using cache_page_entries [OF cache_page(2)] by auto
  qed (auto simp: eval_range_entries eval_page_entries cache_relation_entries eval_relation_entries)
qed auto

lemma cache_sound_start:
  "ValidateLocalTransactionInventoryStructure ivt = '''' \<Longrightarrow> cache_sound persisted (ivt, Some (MakeMgaVisibilityStatusCache cg ig))"
  by (simp add: cache_sound_def MakeMgaVisibilityStatusCache_def structure_valid_iff)

lemma find_sound: "list_all P xs \<Longrightarrow> find q xs = Some x \<Longrightarrow> P x \<and> q x"
  by (induction xs) (auto split: if_splits)

lemma cached_first_range:
  assumes "CacheTransactionStatusRangeFromInventory (Some (MakeMgaVisibilityStatusCache cg ig)) ivt rq = (c, d)" "vd_accepted d"
  shows "\<exists>e. ranges_of c = [e] \<and> ce_horizon_epoch e = vf_horizon_epoch (rq_facts rq) \<and>
    tr_first_local_transaction_id e = rq_first_local_transaction_id rq \<and>
    tr_last_local_transaction_id e = rq_last_local_transaction_id rq \<and>
    0 < tr_first_local_transaction_id e \<and> 0 < tr_last_local_transaction_id e"
proof -
  let ?P = "\<lambda>a. vd_accepted (snd a) \<longrightarrow> (\<exists>e. ranges_of (fst a) = [e] \<and> ce_horizon_epoch e = vf_horizon_epoch (rq_facts rq) \<and>
    tr_first_local_transaction_id e = rq_first_local_transaction_id rq \<and>
    tr_last_local_transaction_id e = rq_last_local_transaction_id rq \<and>
    0 < tr_first_local_transaction_id e \<and> 0 < tr_last_local_transaction_id e)"
  have "?P (CacheTransactionStatusRangeFromInventory (Some (MakeMgaVisibilityStatusCache cg ig)) ivt rq)"
    by (auto simp: CacheTransactionStatusRangeFromInventory_def Let_def common_refused(2) unaccepted
        local_id_valid_pos MakeMgaVisibilityStatusCache_def)
  then show ?thesis using assms by simp
qed

section \<open>Sample values\<close>

definition settled_inventory :: local_transaction_inventory where
  "settled_inventory = sample_inventory\<lparr>entries :=
    [(sample_entry 1 1 TS_committed 0 1)\<lparr>evidence_record_written := True\<rparr>, sample_entry 2 2 TS_active 0 0,
     sample_entry 3 3 TS_active 1 0]\<rparr>"

definition sample_facts :: "u64 \<Rightarrow> visibility_status_cache_facts" where
  "sample_facts h =
    \<lparr>vf_cache_generation = 1, vf_invalidation_generation = 1, vf_horizon_epoch = h, vf_snapshot_epoch = 1,
     vf_relation_epoch = 1, vf_catalog_epoch = 1, vf_reader_visible_through_local_transaction_id = 1,
     vf_oldest_active_local_transaction_id = 2, vf_oldest_snapshot_local_transaction_id = 2,
     vf_transaction_inventory_authoritative = True, vf_transaction_horizon_authoritative = True,
     vf_normal_mga_visibility_authority_available = True\<rparr>"

definition sample_range :: "u64 \<Rightarrow> transaction_status_range_cache_request" where
  "sample_range h = \<lparr>rq_first_local_transaction_id = 1, rq_last_local_transaction_id = 1, rq_facts = sample_facts h\<rparr>"

definition sample_map_entry :: page_finality_map_entry where
  "sample_map_entry =
    \<lparr>pf_scope = PS_page, pf_status = PM_current, pf_provenance = PP_engine_mga_transaction_inventory,
     pf_relation_uuid = sample_uuid 9, pf_page_number = 7, pf_page_generation = 1, pf_extent_id = 2, pf_extent_epoch = 1,
     pf_relation_epoch = 1, pf_catalog_epoch = 1, pf_final_through_local_transaction_id = 1, pf_map_generation = 1,
     pf_persisted_record_present = True, pf_checksum_valid = True, pf_all_visible = True, pf_all_final = True\<rparr>"

definition sample_observed :: page_finality_observed_facts where
  "sample_observed =
    \<lparr>po_requested_scope = PS_page, po_relation_uuid = sample_uuid 9, po_page_number = 7, po_page_generation = 1,
     po_extent_id = 2, po_extent_epoch = 1, po_relation_epoch = 1, po_catalog_epoch = 1,
     po_reader_visible_through_local_transaction_id = 1, po_oldest_active_local_transaction_id = 2,
     po_transaction_horizon_authoritative = True, po_transaction_inventory_authoritative = True,
     po_normal_mga_visibility_authority_available = True\<rparr>"

definition sample_page_request :: page_visibility_status_cache_request where
  "sample_page_request = \<lparr>pq_relation_uuid = sample_uuid 9, pq_page_number = 7, pq_page_generation = 1, pq_extent_id = 2,
     pq_extent_epoch = 1, pq_final_through_local_transaction_id = 1, pq_facts = sample_facts 5\<rparr>"

lemma settled_valid: "ValidateLocalTransactionInventoryStructure settled_inventory = []"
  by code_simp

lemma settled_cached:
  "(cache_step persisted)\<^sup>*\<^sup>* (settled_inventory, c)
     (settled_inventory, fst (CacheTransactionStatusRangeFromInventory c settled_inventory (sample_range h)))"
  by (rule r_into_rtranclp, rule cache_step.cache_range) simp

section \<open>Properties\<close>

text \<open>
  C23. A cached range answer is never ahead of the inventory. Start with an empty cache beside a well-formed
  inventory, let the inventory evolve by accepted successors and the cache be filled and asked in any order.
  If the cache then answers that a range of transaction numbers is all committed, every number of the range
  has been allocated, every transaction of the range the current inventory still lists is committed there, and
  the range lies within what the reader sees and below its oldest active transaction.
\<close>

theorem cached_range_answers_agree_with_inventory:
  assumes "ValidateLocalTransactionInventoryStructure ivt0 = ''''"
    and "(cache_step persisted)\<^sup>*\<^sup>* (ivt0, Some (MakeMgaVisibilityStatusCache cg ig)) (ivt, c)"
    and "vd_accepted (snd (EvaluateCachedTransactionStatusRange c rq))"
  shows "rq_last_local_transaction_id rq < next_local_transaction_id ivt \<and>
    (\<forall>e \<in> set (entries ivt). rq_first_local_transaction_id rq \<le> entry_id e \<and>
       entry_id e \<le> rq_last_local_transaction_id rq \<longrightarrow> HasCommittedInventoryOutcome e) \<and>
    rq_last_local_transaction_id rq \<le> vf_reader_visible_through_local_transaction_id (rq_facts rq) \<and>
    rq_last_local_transaction_id rq < vf_oldest_active_local_transaction_id (rq_facts rq)"
proof -
  have s: "cache_sound persisted (ivt, c)"
    by (rule cache_history.run_keeps [OF assms(2) cache_sound_start [OF assms(1)]])
  from assms(3) obtain k e where k: "c = Some k"
    "find (range_covers rq) (vc_transaction_status_ranges k) = Some e"
    and h: "ReaderAndActiveHorizonsCover (rq_facts rq) (rq_last_local_transaction_id rq)"
    by (auto simp: eval_range_accepted)
  have "range_sound ivt e \<and> range_covers rq e" using s k by (auto simp: cache_sound_def dest!: find_sound)
  then show ?thesis using h
    by (auto simp: range_sound_def range_covers_def ReaderAndActiveHorizonsCover_def dest: order_trans le_less_trans)
qed

theorem cached_range_answers_agree_with_inventory_witness:
  "\<exists>c. (cache_step {})\<^sup>*\<^sup>* (settled_inventory, Some (MakeMgaVisibilityStatusCache 1 1)) (settled_inventory, c) \<and>
    vd_accepted (snd (EvaluateCachedTransactionStatusRange c (sample_range 5))) \<and>
    HasCommittedInventoryOutcome (hd (entries settled_inventory))"
proof -
  let ?c = "fst (CacheTransactionStatusRangeFromInventory (Some (MakeMgaVisibilityStatusCache 1 1)) settled_inventory (sample_range 5))"
  have a: "vd_accepted (snd (EvaluateCachedTransactionStatusRange ?c (sample_range 5)))" by code_simp
  from cached_range_answers_agree_with_inventory [OF settled_valid settled_cached a]
  have "HasCommittedInventoryOutcome (hd (entries settled_inventory))"
    by (simp add: settled_inventory_def sample_range_def sample_entry_def)
  with a settled_cached show ?thesis by blast
qed

text \<open>
  C24. A cached page answer rests on evidence. In any such history, if the cache answers that a page is all
  visible, one of the persisted finality map entries that were offered is intact and current, comes from the
  engine, describes that very page in the requested generation and epochs as all visible, and is final
  through a transaction the reader sees and below its oldest active transaction.
\<close>

theorem cached_page_answers_rest_on_evidence:
  assumes "ValidateLocalTransactionInventoryStructure ivt0 = ''''"
    and "(cache_step persisted)\<^sup>*\<^sup>* (ivt0, Some (MakeMgaVisibilityStatusCache cg ig)) (ivt, c)"
    and "vd_accepted (snd (EvaluateCachedPageVisibilityStatus c rq VP_page_all_visible))"
  shows "\<exists>b \<in> persisted. trusted b \<and> pf_all_visible b \<and> pf_scope b = PS_page \<and>
    pf_relation_uuid b = pq_relation_uuid rq \<and> pf_page_number b = pq_page_number rq \<and>
    pf_page_generation b = pq_page_generation rq \<and> pf_extent_id b = pq_extent_id rq \<and>
    pf_extent_epoch b = pq_extent_epoch rq \<and> pf_relation_epoch b = vf_relation_epoch (pq_facts rq) \<and>
    pf_catalog_epoch b = vf_catalog_epoch (pq_facts rq) \<and>
    pf_final_through_local_transaction_id b \<le> vf_reader_visible_through_local_transaction_id (pq_facts rq) \<and>
    pf_final_through_local_transaction_id b < vf_oldest_active_local_transaction_id (pq_facts rq)"
proof -
  have s: "cache_sound persisted (ivt, c)"
    by (rule cache_history.run_keeps [OF assms(2) cache_sound_start [OF assms(1)]])
  from assms(3) obtain k e where k: "c = Some k" "find (page_matches rq) (vc_page_visibility_entries k) = Some e"
    and e: "pv_extent_epoch e = pq_extent_epoch rq" "pv_relation_epoch e = vf_relation_epoch (pq_facts rq)"
      "pv_catalog_epoch e = vf_catalog_epoch (pq_facts rq)"
      "ReaderAndActiveHorizonsCover (pq_facts rq) (pv_final_through_local_transaction_id e)"
    by (auto simp: eval_page_accepted)
  have p: "page_sound persisted e" "page_matches rq e" using s k by (auto simp: cache_sound_def dest!: find_sound)
  from p(1) show ?thesis unfolding page_sound_def
    using p(2) e by (elim bexE, intro bexI) (auto simp: page_matches_def ReaderAndActiveHorizonsCover_def)
qed

theorem cached_page_answers_rest_on_evidence_witness:
  "\<exists>c. (cache_step {sample_map_entry})\<^sup>*\<^sup>* (settled_inventory, Some (MakeMgaVisibilityStatusCache 1 1)) (settled_inventory, c) \<and>
    vd_accepted (snd (EvaluateCachedPageVisibilityStatus c sample_page_request VP_page_all_visible)) \<and> trusted sample_map_entry"
proof -
  let ?c = "fst (CachePageVisibilityStatus (Some (MakeMgaVisibilityStatusCache 1 1)) sample_page_request
    (EvaluatePageFinalityEvidence sample_map_entry sample_observed PC_index_only_scan) False)"
  have a: "vd_accepted (snd (EvaluateCachedPageVisibilityStatus ?c sample_page_request VP_page_all_visible))" by code_simp
  have r: "(cache_step {sample_map_entry})\<^sup>*\<^sup>* (settled_inventory, Some (MakeMgaVisibilityStatusCache 1 1)) (settled_inventory, ?c)"
    by (rule r_into_rtranclp, rule cache_step.cache_page) simp_all
  from cached_page_answers_rest_on_evidence [OF settled_valid r a] a r show ?thesis by blast
qed

text \<open>
  C29. An outdated range entry hides every later one. Once a range has been cached first in an empty cache, a
  query within that range under another horizon epoch is refused for good: whatever happens to the inventory
  and the cache afterwards, caching the range again under the new epoch included.
\<close>

theorem outdated_range_entry_hides_later_ones:
  assumes "ValidateLocalTransactionInventoryStructure ivt0 = ''''"
    and "CacheTransactionStatusRangeFromInventory (Some (MakeMgaVisibilityStatusCache cg ig)) ivt0 rq0 = (c0, d0)"
    and "vd_accepted d0" and "(cache_step persisted)\<^sup>*\<^sup>* (ivt0, c0) (ivt, c)"
    and "rq_first_local_transaction_id rq0 \<le> rq_first_local_transaction_id rq"
      "rq_last_local_transaction_id rq \<le> rq_last_local_transaction_id rq0"
    and "vf_horizon_epoch (rq_facts rq) \<noteq> vf_horizon_epoch (rq_facts rq0)"
  shows "\<not> vd_accepted (snd (EvaluateCachedTransactionStatusRange c rq))"
proof -
  let ?new = "(ivt0, Some (MakeMgaVisibilityStatusCache cg ig))"
  have c0: "fst (CacheTransactionStatusRangeFromInventory (snd ?new) ivt0 rq0) = c0" using assms(2) by simp
  have s0: "cache_sound persisted (ivt0, c0)"
    by (rule cache_step_sound [OF cache_step.cache_range [OF c0 [simplified]] cache_sound_start [OF assms(1)]])
  obtain e where e: "ranges_of c0 = [e]" "range_covers rq e" "ce_horizon_epoch e = vf_horizon_epoch (rq_facts rq0)"
    using cached_first_range [OF assms(2,3)] assms(5,6) by (auto simp: range_covers_def local_id_valid_pos not_less word_greater_zero_iff)
  obtain more where "ranges_of c = e # more" using cache_history.run_since [OF assms(4) s0] e(1) by auto
  then have "vd_accepted (snd (EvaluateCachedTransactionStatusRange c rq)) \<Longrightarrow> entry_fresh e (rq_facts rq)"
    using e(2) by (auto simp: eval_range_accepted)
  then show ?thesis using e(3) assms(7) by (auto simp: entry_fresh_def)
qed

theorem outdated_range_entry_hides_later_ones_witness:
  "\<exists>c0 c1 d0 d1.
    CacheTransactionStatusRangeFromInventory (Some (MakeMgaVisibilityStatusCache 1 1)) settled_inventory (sample_range 5) = (c0, d0) \<and>
    CacheTransactionStatusRangeFromInventory c0 settled_inventory (sample_range 6) = (c1, d1) \<and>
    vd_accepted d0 \<and> vd_accepted d1 \<and> \<not> vd_accepted (snd (EvaluateCachedTransactionStatusRange c1 (sample_range 6)))"
proof -
  let ?r0 = "CacheTransactionStatusRangeFromInventory (Some (MakeMgaVisibilityStatusCache 1 1)) settled_inventory (sample_range 5)"
  let ?r1 = "CacheTransactionStatusRangeFromInventory (fst ?r0) settled_inventory (sample_range 6)"
  have a: "vd_accepted (snd ?r0)" "vd_accepted (snd ?r1)" by code_simp+
  have "\<not> vd_accepted (snd (EvaluateCachedTransactionStatusRange (fst ?r1) (sample_range 6)))"
    by (rule outdated_range_entry_hides_later_ones
          [OF settled_valid surjective_pairing a(1) settled_cached [where persisted = "{}"]])
      (simp_all add: sample_range_def sample_facts_def)
  with a show ?thesis by (metis prod.collapse)
qed

end
