(* ===== verification/CurrentRowMap.thy ===== *)
theory CurrentRowMap
  imports PageFinality
begin

text \<open>
  The current row map, \<^verbatim>\<open>current_row_map.{hpp,cpp}\<close>: candidate identities of the current version of a row,
  their evaluation against the facts a reader observes, the lookup and the rebuild from base rows. A null
  map pointer is \<^const>\<open>None\<close>. The lemmas show that a rebuilt map answers exactly for the live rows it was
  built from.
\<close>

section \<open>Data\<close>

datatype current_row_map_status = CM_current | CM_missing | CM_stale | CM_uncertain | CM_incompatible | CM_corrupt

datatype current_row_map_provenance =
    CP_engine_mga_transaction_inventory | CP_engine_authoritative_base_rows | CP_parser_claim | CP_client_claim
  | CP_reference_claim | CP_index_or_cache_claim | CP_unknown

record current_row_map_entry =
  cr_status :: current_row_map_status
  cr_provenance :: current_row_map_provenance
  cr_relation_uuid :: uuid
  cr_row_uuid :: uuid
  cr_current_version_uuid :: uuid
  cr_row_generation :: u64
  cr_relation_epoch :: u64
  cr_catalog_epoch :: u64
  cr_security_epoch :: u64
  cr_redaction_epoch :: u64
  cr_map_generation :: u64
  cr_invalidation_generation :: u64
  cr_visible_through_local_transaction_id :: local_transaction_id
  cr_persisted_record_present :: bool
  cr_checksum_valid :: bool
  cr_row_is_current_visible :: bool

record current_row_map_observed_facts =
  co_relation_uuid :: uuid
  co_row_uuid :: uuid
  co_relation_epoch :: u64
  co_catalog_epoch :: u64
  co_security_epoch :: u64
  co_redaction_epoch :: u64
  co_map_generation :: u64
  co_invalidation_generation :: u64
  co_reader_visible_through_local_transaction_id :: local_transaction_id
  co_oldest_active_local_transaction_id :: local_transaction_id
  co_durable_mga_inventory_proof :: bool
  co_transaction_horizon_authoritative :: bool
  co_normal_mga_visibility_authority_available :: bool
  co_security_recheck_planned :: bool
  co_parser_client_or_reference_authority :: bool

record current_row_map_counters =
  ck_probes :: u64
  ck_accepted :: u64
  ck_refused :: u64
  ck_stale_refusals :: u64
  ck_epoch_refusals :: u64
  ck_horizon_refusals :: u64
  ck_authority_refusals :: u64
  ck_rebuilds :: u64

record current_row_map_decision =
  cd_accepted :: bool
  cd_current_visible :: bool
  cd_normal_mga_recheck_required :: bool
  cd_security_recheck_required :: bool
  cd_map_is_visibility_authority :: bool
  cd_map_is_transaction_finality_authority :: bool
  cd_durable_mga_inventory_remains_authority :: bool
  cd_row_uuid :: uuid
  cd_current_version_uuid :: uuid
  cd_evidence_name :: string
  cd_refusal_reason :: string
  cd_counters :: current_row_map_counters
  cd_evidence :: "evidence_field list"

record current_row_map =
  rm_map_generation :: u64
  rm_invalidation_generation :: u64
  rm_entries :: "current_row_map_entry list"
  rm_counters :: current_row_map_counters

record current_row_authoritative_base_row =
  br_row_uuid :: uuid
  br_version_uuid :: uuid
  br_row_generation :: u64
  br_visible_through_local_transaction_id :: local_transaction_id
  br_deleted :: bool
  br_visible :: bool

record current_row_map_rebuild_request =
  rr_relation_uuid :: uuid
  rr_relation_epoch :: u64
  rr_catalog_epoch :: u64
  rr_security_epoch :: u64
  rr_redaction_epoch :: u64
  rr_map_generation :: u64
  rr_invalidation_generation :: u64
  rr_authoritative_base_rows_proof :: bool
  rr_durable_mga_inventory_proof :: bool
  rr_map_self_authoritative :: bool
  rr_base_rows :: "current_row_authoritative_base_row list"

record current_row_map_rebuild_result =
  rb_ok :: bool
  rb_map :: current_row_map
  rb_rebuilt_entry_count :: u64
  rb_diagnostic_code :: string
  rb_refusal_reason :: string
  rb_evidence :: "evidence_field list"
  rb_counters :: current_row_map_counters

fun CurrentRowMapStatusName :: "current_row_map_status \<Rightarrow> string" where
  "CurrentRowMapStatusName CM_current = ''current''"
| "CurrentRowMapStatusName CM_missing = ''missing''"
| "CurrentRowMapStatusName CM_stale = ''stale''"
| "CurrentRowMapStatusName CM_uncertain = ''uncertain''"
| "CurrentRowMapStatusName CM_incompatible = ''incompatible''"
| "CurrentRowMapStatusName CM_corrupt = ''corrupt''"

fun CurrentRowMapProvenanceName :: "current_row_map_provenance \<Rightarrow> string" where
  "CurrentRowMapProvenanceName CP_engine_mga_transaction_inventory = ''engine_mga_transaction_inventory''"
| "CurrentRowMapProvenanceName CP_engine_authoritative_base_rows = ''engine_authoritative_base_rows''"
| "CurrentRowMapProvenanceName CP_parser_claim = ''parser_claim''"
| "CurrentRowMapProvenanceName CP_client_claim = ''client_claim''"
| "CurrentRowMapProvenanceName CP_reference_claim = ''reference_claim''"
| "CurrentRowMapProvenanceName CP_index_or_cache_claim = ''index_or_cache_claim''"
| "CurrentRowMapProvenanceName CP_unknown = ''unknown''"

section \<open>Evaluation and lookup\<close>

definition EngineProvenance :: "current_row_map_provenance \<Rightarrow> bool" where
  "EngineProvenance p \<longleftrightarrow> p = CP_engine_mga_transaction_inventory \<or> p = CP_engine_authoritative_base_rows"

definition zero_row_counters :: current_row_map_counters where
  "zero_row_counters = \<lparr>ck_probes = 0, ck_accepted = 0, ck_refused = 0, ck_stale_refusals = 0, ck_epoch_refusals = 0,
     ck_horizon_refusals = 0, ck_authority_refusals = 0, ck_rebuilds = 0\<rparr>"

definition MergeRowMapCounters ::
  "current_row_map_counters \<Rightarrow> current_row_map_counters \<Rightarrow> current_row_map_counters" where
  "MergeRowMapCounters t s =
    \<lparr>ck_probes = ck_probes t + ck_probes s, ck_accepted = ck_accepted t + ck_accepted s,
     ck_refused = ck_refused t + ck_refused s, ck_stale_refusals = ck_stale_refusals t + ck_stale_refusals s,
     ck_epoch_refusals = ck_epoch_refusals t + ck_epoch_refusals s,
     ck_horizon_refusals = ck_horizon_refusals t + ck_horizon_refusals s,
     ck_authority_refusals = ck_authority_refusals t + ck_authority_refusals s,
     ck_rebuilds = ck_rebuilds t + ck_rebuilds s\<rparr>"

definition RefuseRow :: "current_row_map_decision \<Rightarrow> string \<Rightarrow> current_row_map_decision" where
  "RefuseRow d reason =
    d\<lparr>cd_accepted := False, cd_current_visible := False, cd_normal_mga_recheck_required := True,
      cd_security_recheck_required := True, cd_evidence_name := ''mga_current_row_map.refused'',
      cd_refusal_reason := reason, cd_counters := ck_refused_update ((+) 1) (cd_counters d)\<rparr>"

definition refuse_row_as ::
  "(current_row_map_counters \<Rightarrow> current_row_map_counters) \<Rightarrow> current_row_map_decision \<Rightarrow> string \<Rightarrow> current_row_map_decision" where
  "refuse_row_as kind d reason = RefuseRow (d\<lparr>cd_counters := kind (cd_counters d)\<rparr>) reason"

definition StartRowDecision ::
  "current_row_map_entry \<Rightarrow> current_row_map_observed_facts \<Rightarrow> current_row_map_decision" where
  "StartRowDecision e obs =
    \<lparr>cd_accepted = False, cd_current_visible = False, cd_normal_mga_recheck_required = True,
     cd_security_recheck_required = True, cd_map_is_visibility_authority = False,
     cd_map_is_transaction_finality_authority = False, cd_durable_mga_inventory_remains_authority = True,
     cd_row_uuid = NilUuid, cd_current_version_uuid = NilUuid,
     cd_evidence_name = ''mga_current_row_map.refused'', cd_refusal_reason = ''not_evaluated'',
     cd_counters = zero_row_counters\<lparr>ck_probes := 1\<rparr>,
     cd_evidence = [(''accelerator'', ''current_row_map''),
       (''entry_status'', CurrentRowMapStatusName (cr_status e)),
       (''provenance'', CurrentRowMapProvenanceName (cr_provenance e)),
       (''authority_source'', ''durable_mga_transaction_inventory''),
       (''map_visibility_authority'', ''false''), (''map_transaction_finality_authority'', ''false''),
       (''observed_map_generation'', to_string (co_map_generation obs)),
       (''entry_map_generation'', to_string (cr_map_generation e))]\<rparr>"

definition MakeCurrentRowMap :: "u64 \<Rightarrow> u64 \<Rightarrow> current_row_map" where
  "MakeCurrentRowMap mg ig =
    \<lparr>rm_map_generation = mg, rm_invalidation_generation = ig, rm_entries = [], rm_counters = zero_row_counters\<rparr>"

definition EvaluateCurrentRowMapEntryImpl ::
  "current_row_map_entry \<Rightarrow> current_row_map_observed_facts \<Rightarrow> current_row_map_decision" where
  "EvaluateCurrentRowMapEntryImpl e obs =
    (let d = StartRowDecision e obs;
         authority = refuse_row_as (ck_authority_refusals_update ((+) 1)) d;
         stale = refuse_row_as (ck_stale_refusals_update ((+) 1)) d;
         epoch = refuse_row_as (ck_epoch_refusals_update ((+) 1)) d in
     if co_parser_client_or_reference_authority obs then authority ''parser_client_or_reference_authority_forbidden''
     else if \<not> co_durable_mga_inventory_proof obs \<or> \<not> co_transaction_horizon_authoritative obs \<or>
             \<not> co_normal_mga_visibility_authority_available obs then
       authority ''durable_mga_inventory_authority_required''
     else if \<not> co_security_recheck_planned obs then authority ''security_recheck_required''
     else if cr_status e = CM_stale \<or> cr_status e = CM_uncertain \<or> cr_status e = CM_incompatible then
       stale ''current_row_map_not_current''
     else if cr_status e = CM_corrupt \<or> \<not> cr_checksum_valid e then stale ''current_row_map_corrupt''
     else if cr_status e = CM_missing \<or> \<not> cr_persisted_record_present e then stale ''current_row_map_missing''
     else if \<not> EngineProvenance (cr_provenance e) then authority ''current_row_map_external_provenance_refused''
     else if \<not> IsEngineIdentityUuid (cr_relation_uuid e) \<or> \<not> IsEngineIdentityUuid (co_relation_uuid obs) \<or>
             \<not> IsEngineIdentityUuid (cr_row_uuid e) \<or> \<not> IsEngineIdentityUuid (co_row_uuid obs) \<or>
             \<not> IsEngineIdentityUuid (cr_current_version_uuid e) \<or>
             cr_relation_uuid e \<noteq> co_relation_uuid obs \<or> cr_row_uuid e \<noteq> co_row_uuid obs then
       epoch ''current_row_identity_mismatch''
     else if cr_row_generation e = 0 \<or> cr_relation_epoch e = 0 \<or> cr_catalog_epoch e = 0 \<or>
             cr_security_epoch e = 0 \<or> cr_redaction_epoch e = 0 \<or> cr_map_generation e = 0 \<or>
             cr_invalidation_generation e = 0 \<or> co_relation_epoch obs = 0 \<or> co_catalog_epoch obs = 0 \<or>
             co_security_epoch obs = 0 \<or> co_redaction_epoch obs = 0 \<or> co_map_generation obs = 0 \<or>
             co_invalidation_generation obs = 0 then
       epoch ''current_row_generation_or_epoch_missing''
     else if cr_relation_epoch e \<noteq> co_relation_epoch obs \<or> cr_catalog_epoch e \<noteq> co_catalog_epoch obs \<or>
             cr_security_epoch e \<noteq> co_security_epoch obs \<or> cr_redaction_epoch e \<noteq> co_redaction_epoch obs \<or>
             cr_map_generation e \<noteq> co_map_generation obs \<or>
             cr_invalidation_generation e \<noteq> co_invalidation_generation obs then
       epoch ''current_row_generation_or_epoch_mismatch''
     else if \<not> local_id_valid (cr_visible_through_local_transaction_id e) \<or>
             \<not> local_id_valid (co_reader_visible_through_local_transaction_id obs) \<or>
             \<not> local_id_valid (co_oldest_active_local_transaction_id obs) \<or>
             co_reader_visible_through_local_transaction_id obs < cr_visible_through_local_transaction_id e \<or>
             co_oldest_active_local_transaction_id obs \<le> cr_visible_through_local_transaction_id e then
       refuse_row_as (ck_horizon_refusals_update ((+) 1)) d ''current_row_horizon_not_closed''
     else if \<not> cr_row_is_current_visible e then RefuseRow d ''current_row_visible_evidence_missing''
     else d\<lparr>cd_accepted := True, cd_current_visible := True, cd_normal_mga_recheck_required := True,
            cd_security_recheck_required := True, cd_evidence_name := ''mga_current_row_map.current_visible.accepted'',
            cd_refusal_reason := ''none'', cd_counters := ck_accepted_update ((+) 1) (cd_counters d),
            cd_row_uuid := cr_row_uuid e, cd_current_version_uuid := cr_current_version_uuid e,
            cd_evidence := cd_evidence d @
              [(''visible_through_local_transaction_id'', to_string (cr_visible_through_local_transaction_id e)),
               (''normal_mga_recheck'', ''required''), (''security_recheck'', ''required'')]\<rparr>)"

definition count_row :: "current_row_map \<Rightarrow> current_row_map_decision \<Rightarrow> current_row_map" where
  "count_row m d = m\<lparr>rm_counters := MergeRowMapCounters (rm_counters m) (cd_counters d)\<rparr>"

definition EvaluateCurrentRowMapEntry ::
  "current_row_map option \<Rightarrow> current_row_map_entry \<Rightarrow> current_row_map_observed_facts \<Rightarrow>
   current_row_map option \<times> current_row_map_decision" where
  "EvaluateCurrentRowMapEntry m e obs =
    (let d = EvaluateCurrentRowMapEntryImpl e obs in (map_option (\<lambda>m. count_row m d) m, d))"

text \<open>The entry for a row the map does not have: the members of a default-constructed entry, with the identity asked for.\<close>

definition missing_entry :: "current_row_map_observed_facts \<Rightarrow> current_row_map_entry" where
  "missing_entry obs =
    \<lparr>cr_status = CM_missing, cr_provenance = CP_unknown, cr_relation_uuid = co_relation_uuid obs,
     cr_row_uuid = co_row_uuid obs, cr_current_version_uuid = NilUuid, cr_row_generation = 0, cr_relation_epoch = 0,
     cr_catalog_epoch = 0, cr_security_epoch = 0, cr_redaction_epoch = 0, cr_map_generation = 0,
     cr_invalidation_generation = 0, cr_visible_through_local_transaction_id = kInvalidLocalTransactionId,
     cr_persisted_record_present = False, cr_checksum_valid = False, cr_row_is_current_visible = False\<rparr>"

text \<open>The scan for the one entry with the identity: \<^const>\<open>Inl\<close> is the second entry found.\<close>

fun scan_entries ::
  "current_row_map_observed_facts \<Rightarrow> current_row_map_entry option \<Rightarrow> current_row_map_entry list \<Rightarrow>
   current_row_map_entry + current_row_map_entry option" where
  "scan_entries obs matched [] = Inr matched"
| "scan_entries obs matched (e # es) =
    (if cr_relation_uuid e \<noteq> co_relation_uuid obs \<or> cr_row_uuid e \<noteq> co_row_uuid obs then scan_entries obs matched es
     else if matched \<noteq> None then Inl e
     else scan_entries obs (Some e) es)"

definition LookupCurrentRowMap ::
  "current_row_map option \<Rightarrow> current_row_map_observed_facts \<Rightarrow> current_row_map option \<times> current_row_map_decision" where
  "LookupCurrentRowMap mp obs =
    (let missing = missing_entry obs in
     case mp of None \<Rightarrow> EvaluateCurrentRowMapEntry mp missing obs
     | Some m \<Rightarrow>
       if rm_entries m = [] then EvaluateCurrentRowMapEntry mp missing obs
       else if rm_map_generation m \<noteq> co_map_generation obs \<or>
               rm_invalidation_generation m \<noteq> co_invalidation_generation obs then
         EvaluateCurrentRowMapEntry mp
           (missing\<lparr>cr_status := CM_stale, cr_map_generation := rm_map_generation m,
                    cr_invalidation_generation := rm_invalidation_generation m\<rparr>) obs
       else case scan_entries obs None (rm_entries m) of
         Inl e \<Rightarrow>
           let d = refuse_row_as (ck_stale_refusals_update ((+) 1)) (StartRowDecision e obs) ''current_row_map_duplicate_identity''
           in (Some (count_row m d), d)
       | Inr matched \<Rightarrow>
           EvaluateCurrentRowMapEntry mp (case matched of Some e \<Rightarrow> e | None \<Rightarrow> missing) obs)"

section \<open>Rebuild\<close>

definition RebuildRefused ::
  "current_row_map_rebuild_result \<Rightarrow> string \<Rightarrow> current_row_map_rebuild_result" where
  "RebuildRefused r reason =
    r\<lparr>rb_ok := False, rb_map := (rb_map r)\<lparr>rm_entries := []\<rparr>, rb_rebuilt_entry_count := 0, rb_refusal_reason := reason,
      rb_counters := ck_refused_update ((+) 1) (rb_counters r),
      rb_evidence := rb_evidence r @ [(''diagnostic'', rb_diagnostic_code r), (''refusal'', reason),
        (''map_self_authority'', ''false_required''), (''authority_source'', ''durable_mga_transaction_inventory'')]\<rparr>"

definition refuse_rebuild ::
  "(current_row_map_counters \<Rightarrow> current_row_map_counters) \<Rightarrow> current_row_map_rebuild_result \<Rightarrow> string \<Rightarrow>
   current_row_map_rebuild_result" where
  "refuse_rebuild kind r reason = RebuildRefused (r\<lparr>rb_counters := kind (rb_counters r)\<rparr>) reason"

definition live_row :: "current_row_authoritative_base_row \<Rightarrow> bool" where
  "live_row row \<longleftrightarrow> \<not> (br_deleted row \<or> \<not> br_visible row)"

definition base_row_valid :: "current_row_authoritative_base_row \<Rightarrow> bool" where
  "base_row_valid row \<longleftrightarrow>
    \<not> (\<not> IsEngineIdentityUuid (br_row_uuid row) \<or> \<not> IsEngineIdentityUuid (br_version_uuid row) \<or>
       br_row_generation row = 0 \<or> \<not> local_id_valid (br_visible_through_local_transaction_id row))"

text \<open>The first loop over the base rows; a value is the refusal it returns with.\<close>

fun check_base_rows ::
  "current_row_map_rebuild_result \<Rightarrow> uuid set \<Rightarrow> uuid set \<Rightarrow> current_row_authoritative_base_row list \<Rightarrow>
   current_row_map_rebuild_result option" where
  "check_base_rows r rows versions [] = None"
| "check_base_rows r rows versions (b # bs) =
    (if \<not> base_row_valid b then
       Some (refuse_rebuild (ck_epoch_refusals_update ((+) 1)) r ''current_row_rebuild_base_row_invalid'')
     else if \<not> live_row b then check_base_rows r rows versions bs
     else if br_row_uuid b \<in> rows \<or> br_version_uuid b \<in> versions then
       Some (refuse_rebuild (ck_stale_refusals_update ((+) 1)) r ''current_row_rebuild_duplicate_identity'')
     else check_base_rows r (insert (br_row_uuid b) rows) (insert (br_version_uuid b) versions) bs)"

definition rebuilt_entry ::
  "current_row_map_rebuild_request \<Rightarrow> current_row_authoritative_base_row \<Rightarrow> current_row_map_entry" where
  "rebuilt_entry rq row =
    \<lparr>cr_status = CM_current, cr_provenance = CP_engine_authoritative_base_rows, cr_relation_uuid = rr_relation_uuid rq,
     cr_row_uuid = br_row_uuid row, cr_current_version_uuid = br_version_uuid row,
     cr_row_generation = br_row_generation row, cr_relation_epoch = rr_relation_epoch rq,
     cr_catalog_epoch = rr_catalog_epoch rq, cr_security_epoch = rr_security_epoch rq,
     cr_redaction_epoch = rr_redaction_epoch rq, cr_map_generation = rr_map_generation rq,
     cr_invalidation_generation = rr_invalidation_generation rq,
     cr_visible_through_local_transaction_id = br_visible_through_local_transaction_id row,
     cr_persisted_record_present = True, cr_checksum_valid = True, cr_row_is_current_visible = True\<rparr>"

definition RebuildCurrentRowMapFromAuthoritativeBaseRows ::
  "current_row_map_rebuild_request \<Rightarrow> current_row_map_rebuild_result" where
  "RebuildCurrentRowMapFromAuthoritativeBaseRows rq =
    (let r = \<lparr>rb_ok = False, rb_map = MakeCurrentRowMap (rr_map_generation rq) (rr_invalidation_generation rq),
              rb_rebuilt_entry_count = 0, rb_diagnostic_code = ''CATALOG.INVALID_INPUT'',
              rb_refusal_reason = ''not_evaluated'',
              rb_evidence = [(''operation'', ''current_row_map_rebuild''),
                (''authority_source'', ''durable_mga_transaction_inventory''),
                (''repair_truth_source'', ''authoritative_base_rows'')],
              rb_counters = zero_row_counters\<rparr> in
     if rr_map_self_authoritative rq then
       refuse_rebuild (ck_authority_refusals_update ((+) 1)) r ''current_row_map_self_repair_authority_refused''
     else if \<not> rr_authoritative_base_rows_proof rq \<or> \<not> rr_durable_mga_inventory_proof rq then
       refuse_rebuild (ck_authority_refusals_update ((+) 1)) r ''authoritative_base_rows_and_mga_inventory_required''
     else if \<not> IsEngineIdentityUuid (rr_relation_uuid rq) \<or> rr_relation_epoch rq = 0 \<or> rr_catalog_epoch rq = 0 \<or>
             rr_security_epoch rq = 0 \<or> rr_redaction_epoch rq = 0 \<or> rr_map_generation rq = 0 \<or>
             rr_invalidation_generation rq = 0 then
       refuse_rebuild (ck_epoch_refusals_update ((+) 1)) r ''current_row_rebuild_identity_or_epoch_missing''
     else case check_base_rows r {} {} (rr_base_rows rq) of
       Some refused \<Rightarrow> refused
     | None \<Rightarrow>
         let es = map (rebuilt_entry rq) (filter live_row (rr_base_rows rq)); n = of_nat (length es) in
         r\<lparr>rb_map := (rb_map r)\<lparr>rm_entries := rm_entries (rb_map r) @ es\<rparr>, rb_ok := True,
           rb_diagnostic_code := ''SB_ENGINE_API_OK'', rb_refusal_reason := ''none'', rb_rebuilt_entry_count := n,
           rb_counters := (rb_counters r)\<lparr>ck_rebuilds := 1, ck_accepted := 1\<rparr>,
           rb_evidence := rb_evidence r @ [(''rebuilt_entry_count'', to_string n), (''map_self_authority'', ''false''),
             (''durable_mga_inventory_remains_authority'', ''true'')]\<rparr>)"

section \<open>Lemmas\<close>

definition reader_qualified :: "current_row_map_observed_facts \<Rightarrow> bool" where
  "reader_qualified obs \<longleftrightarrow> \<not> co_parser_client_or_reference_authority obs \<and> co_durable_mga_inventory_proof obs \<and>
    co_transaction_horizon_authoritative obs \<and> co_normal_mga_visibility_authority_available obs \<and>
    co_security_recheck_planned obs"

definition entry_current :: "current_row_map_entry \<Rightarrow> current_row_map_observed_facts \<Rightarrow> bool" where
  "entry_current e obs \<longleftrightarrow> cr_status e = CM_current \<and> cr_checksum_valid e \<and> cr_persisted_record_present e \<and>
    EngineProvenance (cr_provenance e) \<and> IsEngineIdentityUuid (cr_relation_uuid e) \<and>
    IsEngineIdentityUuid (cr_row_uuid e) \<and> IsEngineIdentityUuid (cr_current_version_uuid e) \<and>
    cr_relation_uuid e = co_relation_uuid obs \<and> cr_row_uuid e = co_row_uuid obs \<and> cr_row_generation e \<noteq> 0 \<and>
    cr_relation_epoch e = co_relation_epoch obs \<and> cr_relation_epoch e \<noteq> 0 \<and>
    cr_catalog_epoch e = co_catalog_epoch obs \<and> cr_catalog_epoch e \<noteq> 0 \<and>
    cr_security_epoch e = co_security_epoch obs \<and> cr_security_epoch e \<noteq> 0 \<and>
    cr_redaction_epoch e = co_redaction_epoch obs \<and> cr_redaction_epoch e \<noteq> 0 \<and>
    cr_map_generation e = co_map_generation obs \<and> cr_map_generation e \<noteq> 0 \<and>
    cr_invalidation_generation e = co_invalidation_generation obs \<and> cr_invalidation_generation e \<noteq> 0 \<and>
    0 < cr_visible_through_local_transaction_id e \<and>
    cr_visible_through_local_transaction_id e \<le> co_reader_visible_through_local_transaction_id obs \<and>
    cr_visible_through_local_transaction_id e < co_oldest_active_local_transaction_id obs \<and> cr_row_is_current_visible e"

lemma row_refused [simp]:
  "\<not> cd_accepted (RefuseRow d r)" "\<not> cd_accepted (refuse_row_as k d r)"
  "cd_refusal_reason (RefuseRow d r) = r" "cd_refusal_reason (refuse_row_as k d r) = r"
  by (simp_all add: RefuseRow_def refuse_row_as_def)

lemma row_accepted_if: "\<not> cd_accepted x \<Longrightarrow> cd_accepted (if b then x else y) \<longleftrightarrow> \<not> b \<and> cd_accepted y"
  by simp

lemma status_current:
  "cr_status e = CM_current \<longleftrightarrow> \<not> (cr_status e = CM_stale \<or> cr_status e = CM_uncertain \<or> cr_status e = CM_incompatible) \<and>
    cr_status e \<noteq> CM_corrupt \<and> cr_status e \<noteq> CM_missing"
  by (cases "cr_status e") auto

lemma row_accepted_iff:
  "cd_accepted (EvaluateCurrentRowMapEntryImpl e obs) \<longleftrightarrow> reader_qualified obs \<and> entry_current e obs"
proof -
  note defs = reader_qualified_def entry_current_def
  show ?thesis
    unfolding EvaluateCurrentRowMapEntryImpl_def Let_def
    apply (simp only: row_accepted_if row_refused not_False_eq_True local_id_valid_pos)
    apply (rule iffI)
    subgoal by (simp add: defs status_current not_le not_less word_greater_zero_iff)
    subgoal by (simp add: defs not_le not_less StartRowDecision_def word_greater_zero_iff) force
    done
qed

lemma row_accepted_version:
  "cd_accepted (EvaluateCurrentRowMapEntryImpl e obs) \<longrightarrow>
   cd_current_version_uuid (EvaluateCurrentRowMapEntryImpl e obs) = cr_current_version_uuid e"
proof -
  let ?P = "\<lambda>d. cd_accepted d \<longrightarrow> cd_current_version_uuid d = cr_current_version_uuid e"
  show ?thesis unfolding EvaluateCurrentRowMapEntryImpl_def Let_def by (rule if_both [of ?P], simp)+ simp
qed

lemma row_rechecks:
  "cd_normal_mga_recheck_required (EvaluateCurrentRowMapEntryImpl e obs) \<and>
   cd_security_recheck_required (EvaluateCurrentRowMapEntryImpl e obs)"
proof -
  let ?P = "\<lambda>d. cd_normal_mga_recheck_required d \<and> cd_security_recheck_required d"
  note defs = RefuseRow_def refuse_row_as_def
  show ?thesis unfolding EvaluateCurrentRowMapEntryImpl_def Let_def
    by (rule if_both [of ?P], simp add: defs)+ simp
qed

lemma lookup_rechecks:
  "cd_normal_mga_recheck_required (snd (LookupCurrentRowMap mp obs)) \<and>
   cd_security_recheck_required (snd (LookupCurrentRowMap mp obs))"
  using row_rechecks
  by (auto simp: LookupCurrentRowMap_def EvaluateCurrentRowMapEntry_def Let_def RefuseRow_def refuse_row_as_def
      split: option.split sum.split)

lemma missing_refused: "\<not> cd_accepted (EvaluateCurrentRowMapEntryImpl (missing_entry obs) obs)"
  by (simp add: row_accepted_iff entry_current_def missing_entry_def)

lemma missing_reason:
  "reader_qualified obs \<Longrightarrow>
   cd_refusal_reason (EvaluateCurrentRowMapEntryImpl (missing_entry obs) obs) = ''current_row_map_corrupt''"
  by (simp add: EvaluateCurrentRowMapEntryImpl_def reader_qualified_def missing_entry_def)

abbreviation same_identity :: "current_row_map_observed_facts \<Rightarrow> current_row_map_entry \<Rightarrow> bool" where
  "same_identity obs e \<equiv> cr_relation_uuid e = co_relation_uuid obs \<and> cr_row_uuid e = co_row_uuid obs"

lemma scan_absent: "\<forall>e \<in> set es. \<not> same_identity obs e \<Longrightarrow> scan_entries obs m es = Inr m"
  by (induction es arbitrary: m) auto

lemma scan_distinct:
  "distinct (map cr_row_uuid es) \<Longrightarrow> scan_entries obs None es = Inr (find (same_identity obs) es)"
proof (induction es)
  case (Cons e es)
  show ?case
  proof (cases "same_identity obs e")
    case True
    have "\<forall>e' \<in> set es. \<not> same_identity obs e'" using Cons(2) True by force
    from scan_absent [OF this] True show ?thesis by simp
  qed (use Cons in auto)
qed simp

lemma check_base_rows_None:
  "check_base_rows r rows versions bs = None \<longleftrightarrow>
    list_all base_row_valid bs \<and>
    distinct (map br_row_uuid (filter live_row bs)) \<and> br_row_uuid ` set (filter live_row bs) \<inter> rows = {} \<and>
    distinct (map br_version_uuid (filter live_row bs)) \<and> br_version_uuid ` set (filter live_row bs) \<inter> versions = {}"
  by (induction bs arbitrary: rows versions) auto

lemma rebuild_refused [simp]: "\<not> rb_ok (refuse_rebuild k r reason)"
  by (simp add: refuse_rebuild_def RebuildRefused_def)

lemma check_base_rows_refuses: "check_base_rows r rows versions bs = Some q \<Longrightarrow> \<not> rb_ok q"
  by (induction bs arbitrary: rows versions) (auto split: if_splits)

definition rebuildable :: "current_row_map_rebuild_request \<Rightarrow> bool" where
  "rebuildable rq \<longleftrightarrow> \<not> rr_map_self_authoritative rq \<and> rr_authoritative_base_rows_proof rq \<and>
    rr_durable_mga_inventory_proof rq \<and> IsEngineIdentityUuid (rr_relation_uuid rq) \<and> rr_relation_epoch rq \<noteq> 0 \<and>
    rr_catalog_epoch rq \<noteq> 0 \<and> rr_security_epoch rq \<noteq> 0 \<and> rr_redaction_epoch rq \<noteq> 0 \<and> rr_map_generation rq \<noteq> 0 \<and>
    rr_invalidation_generation rq \<noteq> 0 \<and> list_all base_row_valid (rr_base_rows rq) \<and>
    distinct (map br_row_uuid (filter live_row (rr_base_rows rq))) \<and>
    distinct (map br_version_uuid (filter live_row (rr_base_rows rq)))"

lemma rebuild_runs:
  assumes "rebuildable rq"
  shows "rb_ok (RebuildCurrentRowMapFromAuthoritativeBaseRows rq)"
    and "rb_map (RebuildCurrentRowMapFromAuthoritativeBaseRows rq) =
      \<lparr>rm_map_generation = rr_map_generation rq, rm_invalidation_generation = rr_invalidation_generation rq,
       rm_entries = map (rebuilt_entry rq) (filter live_row (rr_base_rows rq)), rm_counters = zero_row_counters\<rparr>"
proof -
  have "check_base_rows r {} {} (rr_base_rows rq) = None" for r
    using assms by (simp add: check_base_rows_None rebuildable_def)
  then show "rb_ok (RebuildCurrentRowMapFromAuthoritativeBaseRows rq)"
    and "rb_map (RebuildCurrentRowMapFromAuthoritativeBaseRows rq) =
      \<lparr>rm_map_generation = rr_map_generation rq, rm_invalidation_generation = rr_invalidation_generation rq,
       rm_entries = map (rebuilt_entry rq) (filter live_row (rr_base_rows rq)), rm_counters = zero_row_counters\<rparr>"
    using assms
    by (simp_all add: RebuildCurrentRowMapFromAuthoritativeBaseRows_def Let_def rebuildable_def MakeCurrentRowMap_def)
qed

lemma rebuild_ok_iff: "rb_ok (RebuildCurrentRowMapFromAuthoritativeBaseRows rq) \<longleftrightarrow> rebuildable rq"
proof
  assume "rb_ok (RebuildCurrentRowMapFromAuthoritativeBaseRows rq)"
  then show "rebuildable rq"
    by (auto simp: RebuildCurrentRowMapFromAuthoritativeBaseRows_def Let_def rebuildable_def check_base_rows_None
        dest: check_base_rows_refuses split: option.splits if_splits)
qed (rule rebuild_runs)

text \<open>The lookup in a rebuilt map.\<close>

definition facts_of_map :: "current_row_map_rebuild_request \<Rightarrow> current_row_map_observed_facts \<Rightarrow> bool" where
  "facts_of_map rq obs \<longleftrightarrow> co_relation_uuid obs = rr_relation_uuid rq \<and> co_relation_epoch obs = rr_relation_epoch rq \<and>
    co_catalog_epoch obs = rr_catalog_epoch rq \<and> co_security_epoch obs = rr_security_epoch rq \<and>
    co_redaction_epoch obs = rr_redaction_epoch rq \<and> co_map_generation obs = rr_map_generation rq \<and>
    co_invalidation_generation obs = rr_invalidation_generation rq"

definition row_closed :: "current_row_map_observed_facts \<Rightarrow> current_row_authoritative_base_row \<Rightarrow> bool" where
  "row_closed obs row \<longleftrightarrow>
    br_visible_through_local_transaction_id row \<le> co_reader_visible_through_local_transaction_id obs \<and>
    br_visible_through_local_transaction_id row < co_oldest_active_local_transaction_id obs"

lemma rebuilt_entry_current:
  assumes "rebuildable rq" "row \<in> set (rr_base_rows rq)"
  shows "entry_current (rebuilt_entry rq row) obs \<longleftrightarrow>
    facts_of_map rq obs \<and> br_row_uuid row = co_row_uuid obs \<and> row_closed obs row"
  using assms
  by (auto simp: entry_current_def rebuilt_entry_def facts_of_map_def row_closed_def rebuildable_def EngineProvenance_def
      base_row_valid_def list_all_iff local_id_valid_pos)

lemma find_the_one:
  assumes "x \<in> set xs" "p x" "\<And>y. y \<in> set xs \<Longrightarrow> p y \<Longrightarrow> y = x"
  shows "find p xs = Some x"
proof (cases "find p xs")
  case None
  then show ?thesis using assms(1,2) by (simp add: find_None_all)
next
  case (Some y)
  note y = find_Some_mem [OF Some]
  show ?thesis using Some assms(3) [OF conjunct1 [OF y] conjunct2 [OF y]] by simp
qed

lemma lookup_rebuilt:
  assumes "rebuildable rq"
  defines "live \<equiv> filter live_row (rr_base_rows rq)"
  shows "cd_accepted (snd (LookupCurrentRowMap (Some (rb_map (RebuildCurrentRowMapFromAuthoritativeBaseRows rq))) obs)) \<longleftrightarrow>
      (\<exists>row \<in> set live. reader_qualified obs \<and> facts_of_map rq obs \<and> br_row_uuid row = co_row_uuid obs \<and> row_closed obs row)"
    (is "?acc \<longleftrightarrow> ?rows")
    and "row \<in> set live \<Longrightarrow> br_row_uuid row = co_row_uuid obs \<Longrightarrow> facts_of_map rq obs \<Longrightarrow>
      snd (LookupCurrentRowMap (Some (rb_map (RebuildCurrentRowMapFromAuthoritativeBaseRows rq))) obs) =
      EvaluateCurrentRowMapEntryImpl (rebuilt_entry rq row) obs"
proof -
  let ?es = "map (rebuilt_entry rq) live"
  have d: "distinct (map cr_row_uuid ?es)"
    using assms by (simp add: rebuildable_def rebuilt_entry_def comp_def)
  note scan = scan_distinct [OF d, of obs]
  have look: "snd (LookupCurrentRowMap (Some (rb_map (RebuildCurrentRowMapFromAuthoritativeBaseRows rq))) obs) =
      EvaluateCurrentRowMapEntryImpl
        (case find (same_identity obs) ?es of Some e \<Rightarrow> e | None \<Rightarrow> missing_entry obs) obs"
    if "co_map_generation obs = rr_map_generation rq" "co_invalidation_generation obs = rr_invalidation_generation rq"
    using that scan
    by (cases live) (auto simp: LookupCurrentRowMap_def Let_def rebuild_runs(2) [OF assms(1)] EvaluateCurrentRowMapEntry_def live_def)
  have hit: "find (same_identity obs) ?es = Some (rebuilt_entry rq row)"
    if "row \<in> set live" "br_row_uuid row = co_row_uuid obs" "facts_of_map rq obs" for row
  proof -
    have m: "rebuilt_entry rq row \<in> set ?es" using that(1) by simp
    have i: "same_identity obs (rebuilt_entry rq row)" using that(2,3) by (simp add: rebuilt_entry_def facts_of_map_def)
    show ?thesis
    proof (rule find_the_one [where p = "same_identity obs", OF m i])
      fix e assume e: "e \<in> set ?es" "same_identity obs e"
      then have "cr_row_uuid e = cr_row_uuid (rebuilt_entry rq row)" using i by simp
      then show "e = rebuilt_entry rq row" by (rule inj_onD [OF conjunct2 [OF distinct_map [THEN iffD1, OF d]] _ e(1) m])
    qed
  qed
  show "?acc \<longleftrightarrow> ?rows"
  proof
    assume a: ?acc
    have g: "co_map_generation obs = rr_map_generation rq" "co_invalidation_generation obs = rr_invalidation_generation rq"
      using a missing_refused [of obs]
      by (auto simp: LookupCurrentRowMap_def Let_def rebuild_runs(2) [OF assms(1)] EvaluateCurrentRowMapEntry_def
          row_accepted_iff entry_current_def missing_entry_def split: if_splits)
    obtain e where e: "find (same_identity obs) ?es = Some e"
      using a missing_refused [of obs] by (cases "find (same_identity obs) ?es") (auto simp: look [OF g])
    obtain row where row: "row \<in> set live" "e = rebuilt_entry rq row"
      using conjunct1 [OF find_Some_mem [OF e]] by auto
    then have "row \<in> set (rr_base_rows rq)" by (simp add: live_def)
    then show ?rows using a row e look [OF g] rebuilt_entry_current [OF assms(1), of row obs]
      by (auto simp: row_accepted_iff)
  next
    assume ?rows
    then obtain row where row: "row \<in> set live" "reader_qualified obs" "facts_of_map rq obs"
      "br_row_uuid row = co_row_uuid obs" "row_closed obs row" by blast
    then show ?acc using hit [OF row(1,4,3)] look rebuilt_entry_current [OF assms(1), of row obs]
      by (simp add: row_accepted_iff facts_of_map_def live_def)
  qed
  show "snd (LookupCurrentRowMap (Some (rb_map (RebuildCurrentRowMapFromAuthoritativeBaseRows rq))) obs) =
      EvaluateCurrentRowMapEntryImpl (rebuilt_entry rq row) obs"
    if "row \<in> set live" "br_row_uuid row = co_row_uuid obs" "facts_of_map rq obs"
    using look hit [OF that] that(3) by (simp add: facts_of_map_def)
qed

section \<open>Properties\<close>

definition sample_row :: "byte \<Rightarrow> bool \<Rightarrow> current_row_authoritative_base_row" where
  "sample_row b dead = \<lparr>br_row_uuid = sample_uuid b, br_version_uuid = sample_uuid (b + 100), br_row_generation = 1,
     br_visible_through_local_transaction_id = 4, br_deleted = dead, br_visible = True\<rparr>"

definition sample_rebuild :: current_row_map_rebuild_request where
  "sample_rebuild = \<lparr>rr_relation_uuid = sample_uuid 9, rr_relation_epoch = 1, rr_catalog_epoch = 1, rr_security_epoch = 1,
     rr_redaction_epoch = 1, rr_map_generation = 1, rr_invalidation_generation = 1, rr_authoritative_base_rows_proof = True,
     rr_durable_mga_inventory_proof = True, rr_map_self_authoritative = False,
     rr_base_rows = [sample_row 1 False, sample_row 2 True, sample_row 3 False]\<rparr>"

definition sample_reader :: "byte \<Rightarrow> current_row_map_observed_facts" where
  "sample_reader b = \<lparr>co_relation_uuid = sample_uuid 9, co_row_uuid = sample_uuid b, co_relation_epoch = 1,
     co_catalog_epoch = 1, co_security_epoch = 1, co_redaction_epoch = 1, co_map_generation = 1,
     co_invalidation_generation = 1, co_reader_visible_through_local_transaction_id = 5,
     co_oldest_active_local_transaction_id = 6, co_durable_mga_inventory_proof = True,
     co_transaction_horizon_authoritative = True, co_normal_mga_visibility_authority_available = True,
     co_security_recheck_planned = True, co_parser_client_or_reference_authority = False\<rparr>"

text \<open>
  C25. A rebuilt current row map answers exactly for the live rows. If a rebuild from base rows succeeds, a
  lookup in the map is accepted if and only if the reader qualifies, its facts are those of the rebuild, and
  one of the base rows that is visible and not deleted has the row identity asked for and is settled for the
  reader; the answer is then the version of that row, and still requires the visibility and security rechecks.
\<close>

theorem rebuilt_row_map_is_exact:
  assumes "rb_ok (RebuildCurrentRowMapFromAuthoritativeBaseRows rq)"
  shows "let d = snd (LookupCurrentRowMap (Some (rb_map (RebuildCurrentRowMapFromAuthoritativeBaseRows rq))) obs) in
    (cd_accepted d \<longleftrightarrow>
      reader_qualified obs \<and> facts_of_map rq obs \<and>
      (\<exists>row \<in> set (rr_base_rows rq). br_visible row \<and> \<not> br_deleted row \<and> br_row_uuid row = co_row_uuid obs \<and>
        br_visible_through_local_transaction_id row \<le> co_reader_visible_through_local_transaction_id obs \<and>
        br_visible_through_local_transaction_id row < co_oldest_active_local_transaction_id obs)) \<and>
    (\<forall>row \<in> set (rr_base_rows rq). cd_accepted d \<and> br_visible row \<and> \<not> br_deleted row \<and>
       br_row_uuid row = co_row_uuid obs \<longrightarrow> cd_current_version_uuid d = br_version_uuid row) \<and>
    cd_normal_mga_recheck_required d \<and> cd_security_recheck_required d"
proof -
  let ?d = "snd (LookupCurrentRowMap (Some (rb_map (RebuildCurrentRowMapFromAuthoritativeBaseRows rq))) obs)"
  have r: "rebuildable rq" using assms by (simp add: rebuild_ok_iff)
  note acc = lookup_rebuilt(1) [OF r, of obs]
  have version: "cd_current_version_uuid ?d = br_version_uuid row"
    if "row \<in> set (rr_base_rows rq)" "cd_accepted ?d" "br_visible row" "\<not> br_deleted row" "br_row_uuid row = co_row_uuid obs" for row
  proof -
    have l: "row \<in> set (filter live_row (rr_base_rows rq))" using that by (simp add: live_row_def)
    have "facts_of_map rq obs" using that(2) acc by blast
    note same = lookup_rebuilt(2) [OF r l that(5) this]
    show ?thesis using row_accepted_version [of "rebuilt_entry rq row" obs] that(2)
      unfolding same by (simp add: rebuilt_entry_def)
  qed
  show ?thesis unfolding Let_def
    using acc version lookup_rechecks [of "Some (rb_map (RebuildCurrentRowMapFromAuthoritativeBaseRows rq))" obs]
    by (auto simp: live_row_def row_closed_def)
qed

theorem rebuilt_row_map_is_exact_witness:
  "rb_ok (RebuildCurrentRowMapFromAuthoritativeBaseRows sample_rebuild) \<and>
   cd_accepted (snd (LookupCurrentRowMap (Some (rb_map (RebuildCurrentRowMapFromAuthoritativeBaseRows sample_rebuild))) (sample_reader 3))) \<and>
   \<not> cd_accepted (snd (LookupCurrentRowMap (Some (rb_map (RebuildCurrentRowMapFromAuthoritativeBaseRows sample_rebuild))) (sample_reader 2)))"
proof -
  have ok: "rb_ok (RebuildCurrentRowMapFromAuthoritativeBaseRows sample_rebuild)" by code_simp
  have f: "facts_of_map sample_rebuild (sample_reader b) \<and> reader_qualified (sample_reader b)" for b
    by (simp add: facts_of_map_def reader_qualified_def sample_rebuild_def sample_reader_def)
  have u: "sample_uuid 1 \<noteq> sample_uuid 2" "sample_uuid 3 \<noteq> sample_uuid 2" by code_simp+
  show ?thesis using rebuilt_row_map_is_exact [OF ok, of "sample_reader 3"] rebuilt_row_map_is_exact [OF ok, of "sample_reader 2"] ok f
    by (auto simp: Let_def sample_rebuild_def sample_row_def sample_reader_def u)
qed

text \<open>
  A row the map does not have is reported as corrupt. For a reader that qualifies, a lookup in a null or
  empty map, and one in a map of the observed generations without an entry for the row, is refused with the
  reason for a corrupt record and never with the reason for a missing one.
\<close>

lemma absent_row_is_reported_corrupt:
  assumes "reader_qualified obs"
    and "\<forall>m. mp = Some m \<longrightarrow> rm_map_generation m = co_map_generation obs \<and>
      rm_invalidation_generation m = co_invalidation_generation obs \<and>
      (\<forall>e \<in> set (rm_entries m). \<not> same_identity obs e)"
  shows "\<not> cd_accepted (snd (LookupCurrentRowMap mp obs)) \<and>
    cd_refusal_reason (snd (LookupCurrentRowMap mp obs)) = ''current_row_map_corrupt''"
proof -
  have "snd (LookupCurrentRowMap mp obs) = EvaluateCurrentRowMapEntryImpl (missing_entry obs) obs"
    using assms(2)
    by (cases mp) (auto simp: LookupCurrentRowMap_def EvaluateCurrentRowMapEntry_def Let_def scan_absent)
  then show ?thesis using missing_refused [of obs] missing_reason [OF assms(1)] by simp
qed

end
