(* ===== verification/TableContentGeneration.thy ===== *)
theory TableContentGeneration
  imports RowVersion "HOL-Library.List_Lexorder"
begin

text \<open>
  The content generation of a table, \<^verbatim>\<open>table_content_generation.{hpp,cpp}\<close>: the history of published
  generations is checked as a whole, effects a savepoint rollback invalidated are skipped, and the newest
  generation the reader sees is selected. Memory exhaustion is left out. The lemmas show that the merged
  and searched intervals are the rollback records, and that the selection is the last visible generation.
\<close>

section \<open>Data\<close>

text \<open>A \<^verbatim>\<open>std::array\<close> of sixteen bytes; arrays are ordered lexicographically.\<close>

type_synonym content_generation_uuid = "byte list"

record table_content_generation_version =
  tv_database_uuid :: content_generation_uuid
  tv_schema_uuid :: content_generation_uuid
  tv_table_uuid :: content_generation_uuid
  tv_catalog_row_uuid :: content_generation_uuid
  tv_catalog_version_uuid :: content_generation_uuid
  tv_generation_uuid :: content_generation_uuid
  tv_predecessor_generation_uuid :: content_generation_uuid
  tv_root_set_uuid :: content_generation_uuid
  tv_statistics_generation_uuid :: content_generation_uuid
  tv_batch_uuid :: content_generation_uuid
  tv_creator_transaction_uuid :: content_generation_uuid
  tv_creator_local_transaction_id :: u64
  tv_publication_effect_sequence :: u64
  tv_descriptor_generation :: u64
  tv_batch_ordinal :: u32
  tv_batch_target_count :: u32

record table_content_generation_rollback_interval =
  ri_rollback_record_uuid :: content_generation_uuid
  ri_creator_transaction_uuid :: content_generation_uuid
  ri_creator_local_transaction_id :: u64
  ri_effect_sequence_lower_exclusive :: u64
  ri_effect_sequence_upper_inclusive :: u64

record table_content_generation_read_context =
  tc_database_uuid :: content_generation_uuid
  tc_table_uuid :: content_generation_uuid
  tc_reader_transaction_uuid :: content_generation_uuid
  tc_snapshot :: visibility_snapshot

datatype selection_status =
    SS_selected | SS_not_visible | SS_invalid_request | SS_corrupt_history | SS_inventory_required
  | SS_recovery_required | SS_cluster_authority_required | SS_resource_exhausted

record table_content_generation_selection =
  sel_status :: selection_status
  sel_binding :: "table_content_generation_version option"
  sel_pending_creators :: "transaction_identity list"

section \<open>Helpers\<close>

definition V7_id :: "content_generation_uuid \<Rightarrow> bool" where
  "V7_id i \<longleftrightarrow> (i ! 6) AND 0xf0 = 0x70 \<and> (i ! 8) AND 0xc0 = 0x80"

definition Nil_id :: "content_generation_uuid \<Rightarrow> bool" where
  "Nil_id i \<longleftrightarrow> list_all (\<lambda>b. b = 0) i"

definition Fail :: "selection_status \<Rightarrow> table_content_generation_selection" where
  "Fail c = \<lparr>sel_status = c, sel_binding = None, sel_pending_creators = []\<rparr>"

fun RowState :: "transaction_state \<Rightarrow> row_version_state" where
  "RowState TS_committed = RV_committed"
| "RowState TS_archived = RV_unknown"
| "RowState TS_rolled_back = RV_rolled_back"
| "RowState TS_failed_terminal = RV_rolled_back"
| "RowState TS_prepared = RV_prepared"
| "RowState TS_limbo = RV_limbo"
| "RowState TS_recovering = RV_recovery_required"
| "RowState TS_created = RV_uncommitted"
| "RowState TS_active = RV_uncommitted"
| "RowState TS_preparing = RV_uncommitted"
| "RowState TS_committing = RV_uncommitted"
| "RowState TS_rolling_back = RV_uncommitted"
| "RowState TS_read_only_active = RV_uncommitted"
| "RowState TS_none = RV_unknown"

type_synonym inventory_index = "u64 \<rightharpoonup> transaction_inventory_entry"

definition Creator :: "inventory_index \<Rightarrow> u64 \<Rightarrow> content_generation_uuid \<Rightarrow> transaction_inventory_entry option" where
  "Creator ix loc u = (case ix loc of
     Some e \<Rightarrow> if uuid_bytes (entry_uuid e) = u then Some e else None
   | None \<Rightarrow> None)"

definition Fields :: "table_content_generation_version \<Rightarrow> content_generation_uuid \<Rightarrow> bool" where
  "Fields v db \<longleftrightarrow>
    tv_database_uuid v = db \<and> V7_id (tv_schema_uuid v) \<and> V7_id (tv_table_uuid v) \<and> V7_id (tv_catalog_row_uuid v) \<and>
    V7_id (tv_catalog_version_uuid v) \<and> tv_catalog_version_uuid v \<noteq> tv_catalog_row_uuid v \<and>
    V7_id (tv_generation_uuid v) \<and> V7_id (tv_root_set_uuid v) \<and> V7_id (tv_statistics_generation_uuid v) \<and>
    V7_id (tv_batch_uuid v) \<and> V7_id (tv_creator_transaction_uuid v) \<and> tv_creator_local_transaction_id v \<noteq> 0 \<and>
    tv_publication_effect_sequence v \<noteq> 0 \<and> tv_descriptor_generation v \<noteq> 0 \<and>
    1 \<le> tv_batch_target_count v \<and> tv_batch_target_count v \<le> 65535 \<and>
    tv_batch_ordinal v < tv_batch_target_count v \<and>
    (Nil_id (tv_predecessor_generation_uuid v) \<or> V7_id (tv_predecessor_generation_uuid v))"

text \<open>The loop that indexes the inventory; \<^const>\<open>None\<close> is the refusal.\<close>

fun index_entries ::
  "u64 \<Rightarrow> inventory_index \<Rightarrow> content_generation_uuid set \<Rightarrow> transaction_inventory_entry list \<Rightarrow> inventory_index option" where
  "index_entries nid ix ids [] = Some ix"
| "index_entries nid ix ids (e # es) =
    (if \<not> local_id_valid (entry_id e) \<or> nid \<le> entry_id e \<or>
        uuid_kind (transaction_uuid (identity e)) \<noteq> UK_transaction \<or> \<not> V7_id (uuid_bytes (entry_uuid e)) \<or>
        RowState (entry_state e) = RV_unknown \<or>
        (scope (identity e) \<noteq> Scope_local_node \<and> scope (identity e) \<noteq> Scope_cluster_global) \<or>
        ix (entry_id e) \<noteq> None \<or> uuid_bytes (entry_uuid e) \<in> ids then None
     else index_entries nid (ix(entry_id e \<mapsto> e)) (insert (uuid_bytes (entry_uuid e)) ids) es)"

section \<open>The published history\<close>

record history_state =
  hs_generations :: "content_generation_uuid \<rightharpoonup> table_content_generation_version"
  hs_table_rows :: "content_generation_uuid \<rightharpoonup> content_generation_uuid"
  hs_row_tables :: "content_generation_uuid \<rightharpoonup> content_generation_uuid"
  hs_batches :: "content_generation_uuid set"
  hs_catalog_versions :: "content_generation_uuid set"

text \<open>\<^verbatim>\<open>emplace\<close> on a \<^verbatim>\<open>std::map\<close> followed by the comparison of a value that was there already.\<close>

definition emplace_same :: "('k \<rightharpoonup> 'v) \<Rightarrow> 'k \<Rightarrow> 'v \<Rightarrow> ('k \<rightharpoonup> 'v) option" where
  "emplace_same m k v = (case m k of None \<Rightarrow> Some (m(k \<mapsto> v)) | Some w \<Rightarrow> if w \<noteq> v then None else Some m)"

definition parent_ok :: "history_state \<Rightarrow> table_content_generation_version \<Rightarrow> bool" where
  "parent_ok h v \<longleftrightarrow> Nil_id (tv_predecessor_generation_uuid v) \<or>
    (case hs_generations h (tv_predecessor_generation_uuid v) of None \<Rightarrow> False
     | Some p \<Rightarrow> tv_table_uuid p = tv_table_uuid v \<and> tv_publication_effect_sequence p < tv_publication_effect_sequence v)"

text \<open>The loop over one batch: its first version, the ordinal, the version before, and the tables seen.\<close>

fun check_batch ::
  "content_generation_uuid \<Rightarrow> table_content_generation_version \<Rightarrow> u32 \<Rightarrow> table_content_generation_version option \<Rightarrow>
   content_generation_uuid set \<Rightarrow> history_state \<Rightarrow> table_content_generation_version list \<Rightarrow> history_state option" where
  "check_batch db first ord prior targets h [] = Some h"
| "check_batch db first ord prior targets h (v # vs) =
    (if \<not> Fields v db \<or> tv_batch_uuid v \<noteq> tv_batch_uuid first \<or>
        tv_creator_transaction_uuid v \<noteq> tv_creator_transaction_uuid first \<or>
        tv_creator_local_transaction_id v \<noteq> tv_creator_local_transaction_id first \<or>
        tv_publication_effect_sequence v \<noteq> tv_publication_effect_sequence first \<or>
        tv_batch_target_count v \<noteq> tv_batch_target_count first \<or> tv_batch_ordinal v \<noteq> ord \<or>
        tv_table_uuid v \<in> targets \<or> tv_catalog_version_uuid v \<in> hs_catalog_versions h then None
     else if (case prior of None \<Rightarrow> False
              | Some p \<Rightarrow> \<not> (tv_schema_uuid p < tv_schema_uuid v \<or>
                            tv_schema_uuid p = tv_schema_uuid v \<and> tv_table_uuid p < tv_table_uuid v)) then None
     else case emplace_same (hs_table_rows h) (tv_table_uuid v) (tv_catalog_row_uuid v) of None \<Rightarrow> None
     | Some rows \<Rightarrow> (case emplace_same (hs_row_tables h) (tv_catalog_row_uuid v) (tv_table_uuid v) of None \<Rightarrow> None
     | Some tables \<Rightarrow>
       if \<not> parent_ok h v \<or> hs_generations h (tv_generation_uuid v) \<noteq> None then None
       else check_batch db first (ord + 1) (Some v) (insert (tv_table_uuid v) targets)
         (h\<lparr>hs_generations := (hs_generations h)(tv_generation_uuid v \<mapsto> v), hs_table_rows := rows, hs_row_tables := tables,
            hs_catalog_versions := insert (tv_catalog_version_uuid v) (hs_catalog_versions h)\<rparr>) vs))"

text \<open>The loop over the batches; the history that remains shrinks by a batch each time.\<close>

function check_history ::
  "content_generation_uuid \<Rightarrow> u64 \<Rightarrow> history_state \<Rightarrow> table_content_generation_version list \<Rightarrow> history_state option" where
  "check_history db prev h [] = Some h"
| "check_history db prev h (v # vs) =
    (let n = unat (tv_batch_target_count v) in
     if \<not> Fields v db \<or> tv_batch_ordinal v \<noteq> 0 \<or> tv_publication_effect_sequence v \<le> prev \<or>
        Suc (length vs) < n \<or> tv_batch_uuid v \<in> hs_batches h then None
     else case check_batch db v 0 None {} (h\<lparr>hs_batches := insert (tv_batch_uuid v) (hs_batches h)\<rparr>) (take n (v # vs)) of
       None \<Rightarrow> None
     | Some h' \<Rightarrow> check_history db (tv_publication_effect_sequence v) h' (drop n (v # vs)))"
  by pat_completeness auto
termination
proof (relation "measure (\<lambda>(db, prev, h, vs). length vs)")
  fix db prev h v and vs :: "table_content_generation_version list" and x h'
  assume "x = unat (tv_batch_target_count v)"
    and "\<not> (\<not> Fields v db \<or> tv_batch_ordinal v \<noteq> 0 \<or> tv_publication_effect_sequence v \<le> prev \<or>
        Suc (length vs) < x \<or> tv_batch_uuid v \<in> hs_batches h)"
  then have "0 < x" by (simp add: Fields_def word_le_nat_alt)
  then show "((db, tv_publication_effect_sequence v, h', drop x (v # vs)), db, prev, h, v # vs)
      \<in> measure (\<lambda>(db, prev, h, vs). length vs)" by simp
qed simp

section \<open>Invalidated effects\<close>

fun collect_rollbacks ::
  "inventory_index \<Rightarrow> content_generation_uuid set \<Rightarrow> (u64 \<Rightarrow> (u64 \<times> u64) list) \<Rightarrow>
   table_content_generation_rollback_interval list \<Rightarrow> selection_status + (u64 \<Rightarrow> (u64 \<times> u64) list)" where
  "collect_rollbacks ix ids eff [] = Inr eff"
| "collect_rollbacks ix ids eff (r # rs) =
    (if \<not> V7_id (ri_rollback_record_uuid r) \<or> \<not> V7_id (ri_creator_transaction_uuid r) \<or>
        ri_effect_sequence_upper_inclusive r \<le> ri_effect_sequence_lower_exclusive r \<or>
        ri_rollback_record_uuid r \<in> ids then Inl SS_corrupt_history
     else if Creator ix (ri_creator_local_transaction_id r) (ri_creator_transaction_uuid r) = None then
       Inl SS_inventory_required
     else collect_rollbacks ix (insert (ri_rollback_record_uuid r) ids)
       (eff(ri_creator_local_transaction_id r := eff (ri_creator_local_transaction_id r) @
          [(ri_effect_sequence_lower_exclusive r, ri_effect_sequence_upper_inclusive r)])) rs)"

text \<open>The merge of sorted intervals, with the retained ones in reverse, and the search with \<^verbatim>\<open>std::lower_bound\<close>.\<close>

fun merge_intervals :: "(u64 \<times> u64) list \<Rightarrow> (u64 \<times> u64) list \<Rightarrow> (u64 \<times> u64) list" where
  "merge_intervals [] [] = []"
| "merge_intervals (r # rs) [] = rev (r # rs)"
| "merge_intervals [] (i # is) = merge_intervals [i] is"
| "merge_intervals (r # rs) (i # is) =
    (if fst i \<le> snd r then merge_intervals ((fst r, max (snd r) (snd i)) # rs) is
     else merge_intervals (i # r # rs) is)"

definition sort_intervals :: "(u64 \<times> u64) list \<Rightarrow> (u64 \<times> u64) list" where
  "sort_intervals is = sort_key fst (sort_key snd is)"

definition invalidated :: "(u64 \<Rightarrow> (u64 \<times> u64) list) \<Rightarrow> table_content_generation_version \<Rightarrow> bool" where
  "invalidated eff v =
    (let before = takeWhile (\<lambda>i. fst i < tv_publication_effect_sequence v)
           (merge_intervals [] (sort_intervals (eff (tv_creator_local_transaction_id v)))) in
     before \<noteq> [] \<and> tv_publication_effect_sequence v \<le> snd (last before))"

section \<open>Selection\<close>

definition generation_metadata ::
  "table_content_generation_version \<Rightarrow> transaction_inventory_entry \<Rightarrow> row_version_metadata" where
  "generation_metadata v creator =
    \<lparr>version_identity =
       \<lparr>version_row = \<lparr>uuid_kind = UK_row, uuid_value = Uuid (tv_catalog_row_uuid v)\<rparr>,
        creator_transaction = identity creator, version_sequence = tv_publication_effect_sequence v,
        version_uuid = Uuid (tv_catalog_version_uuid v)\<rparr>,
     chain = \<lparr>previous_version_uuid = default_typed_uuid, next_version_uuid = default_typed_uuid,
              previous_version_sequence = kInvalidRowVersionSequence, next_version_sequence = kInvalidRowVersionSequence\<rparr>,
     successor_transaction_local_id = kInvalidLocalTransactionId,
     version_state = RowState (InventoryVisibilityState creator),
     creator_transaction_state = InventoryVisibilityState creator, payload_present = True,
     creator_commit_sequence = commit_sequence creator\<rparr>"

fun select_generation ::
  "inventory_index \<Rightarrow> (u64 \<Rightarrow> (u64 \<times> u64) list) \<Rightarrow> table_content_generation_read_context \<Rightarrow>
   table_content_generation_selection \<Rightarrow> table_content_generation_version list \<Rightarrow> table_content_generation_selection" where
  "select_generation ix eff c r [] = r"
| "select_generation ix eff c r (v # vs) =
    (if tv_table_uuid v \<noteq> tc_table_uuid c then select_generation ix eff c r vs
     else let creator = the (Creator ix (tv_creator_local_transaction_id v) (tv_creator_transaction_uuid v));
              st = RowState (InventoryVisibilityState creator);
              seen = decision (EvaluateVisibility (generation_metadata v creator) (tc_snapshot c)) in
       if scope (identity creator) \<noteq> Scope_local_node then Fail SS_cluster_authority_required
       else if st = RV_limbo \<or> st = RV_recovery_required then Fail SS_recovery_required
       else if HasCommittedInventoryOutcome creator \<and>
               (rollback_only creator \<or> evidence_record_required creator \<and> \<not> evidence_record_written creator) then
         Fail SS_inventory_required
       else if invalidated eff v then select_generation ix eff c r vs
       else if seen = VD_unknown then Fail SS_inventory_required
       else if seen = VD_requires_recovery then Fail SS_recovery_required
       else if seen = VD_wait_for_transaction then
         select_generation ix eff c
           (if local_id (identity creator) \<in> local_id ` set (sel_pending_creators r) then r
            else r\<lparr>sel_pending_creators := sel_pending_creators r @ [identity creator]\<rparr>) vs
       else if seen \<noteq> VD_visible then select_generation ix eff c r vs
       else if (case sel_binding r of
                  Some b \<Rightarrow> tv_predecessor_generation_uuid v \<noteq> tv_generation_uuid b
                | None \<Rightarrow> \<not> Nil_id (tv_predecessor_generation_uuid v)) then Fail SS_corrupt_history
       else select_generation ix eff c (r\<lparr>sel_binding := Some v, sel_status := SS_selected\<rparr>) vs)"

definition ResolveTableContentGeneration ::
  "table_content_generation_read_context \<Rightarrow> table_content_generation_version list \<Rightarrow>
   table_content_generation_rollback_interval list \<Rightarrow> local_transaction_inventory \<Rightarrow> table_content_generation_selection" where
  "ResolveTableContentGeneration c history rollbacks ivt =
    (let s = tc_snapshot c in
     if ValidateLocalTransactionInventoryStructure ivt \<noteq> '''' then Fail SS_inventory_required
     else if \<not> V7_id (tc_database_uuid c) \<or> \<not> V7_id (tc_table_uuid c) \<or>
             \<not> visible_through_local_transaction_id_is_boundary s \<or>
             (if local_id_valid (reader_transaction s) then \<not> V7_id (tc_reader_transaction_uuid c)
              else \<not> Nil_id (tc_reader_transaction_uuid c)) then Fail SS_invalid_request
     else if next_local_transaction_id ivt = 0 \<or>
             next_local_transaction_id ivt \<le> visible_through_local_transaction_id s then Fail SS_invalid_request
     else case index_entries (next_local_transaction_id ivt) Map.empty {} (entries ivt) of
       None \<Rightarrow> Fail SS_inventory_required
     | Some ix \<Rightarrow>
       let reader = Creator ix (reader_transaction s) (tc_reader_transaction_uuid c) in
       if local_id_valid (reader_transaction s) \<and> reader = None then Fail SS_inventory_required
       else if local_id_valid (reader_transaction s) \<and> scope (identity (the reader)) \<noteq> Scope_local_node then
         Fail SS_cluster_authority_required
       else case check_history (tc_database_uuid c) 0
                   \<lparr>hs_generations = Map.empty, hs_table_rows = Map.empty, hs_row_tables = Map.empty,
                    hs_batches = {}, hs_catalog_versions = {}\<rparr> history of
         None \<Rightarrow> Fail SS_corrupt_history
       | Some _ \<Rightarrow>
         if \<not> list_all (\<lambda>v. Creator ix (tv_creator_local_transaction_id v) (tv_creator_transaction_uuid v) \<noteq> None) history then
           Fail SS_inventory_required
         else (case collect_rollbacks ix {} (\<lambda>_. []) rollbacks of
           Inl refused \<Rightarrow> Fail refused
         | Inr eff \<Rightarrow>
             select_generation ix eff c \<lparr>sel_status = SS_not_visible, sel_binding = None, sel_pending_creators = []\<rparr> history))"

section \<open>Lemmas: invalidated effects\<close>

abbreviation inside :: "u64 \<Rightarrow> u64 \<times> u64 \<Rightarrow> bool" where
  "inside s i \<equiv> fst i < s \<and> s \<le> snd i"

lemma merge_spec:
  assumes "sorted (map fst is)" "\<forall>i \<in> set rs \<union> set is. fst i < snd i"
    and "sorted_wrt (\<lambda>a b. snd b < fst a) rs" "\<forall>r \<in> set rs. \<forall>i \<in> set is. fst r \<le> fst i"
  shows "sorted_wrt (\<lambda>a b. snd a < fst b) (merge_intervals rs is) \<and>
    (\<forall>i \<in> set (merge_intervals rs is). fst i < snd i) \<and>
    (\<forall>s. (\<exists>i \<in> set (merge_intervals rs is). inside s i) \<longleftrightarrow> (\<exists>i \<in> set rs \<union> set is. inside s i))"
  using assms
proof (induction rs "is" rule: merge_intervals.induct)
  case (2 r rs)
  then show ?case by (auto simp: sorted_wrt_append sorted_wrt_rev)
next
  case (3 i "is")
  have "sorted_wrt (\<lambda>a b. snd a < fst b) (merge_intervals [i] is) \<and>
    (\<forall>i \<in> set (merge_intervals [i] is). fst i < snd i) \<and>
    (\<forall>s. (\<exists>i \<in> set (merge_intervals [i] is). inside s i) \<longleftrightarrow> (\<exists>i \<in> set [i] \<union> set is. inside s i))"
    using 3(2-) by (intro 3(1)) auto
  then show ?case by simp
next
  case (4 r rs i "is")
  show ?case
  proof (cases "fst i \<le> snd r")
    case True
    let ?m = "(fst r, max (snd r) (snd i))"
    have in_m: "inside s ?m \<longleftrightarrow> inside s r \<or> inside s i" for s
      using True 4(6) by (auto simp: max_def not_le dest: order_trans le_less_trans less_le_trans)
    have "sorted_wrt (\<lambda>a b. snd a < fst b) (merge_intervals (?m # rs) is) \<and>
      (\<forall>i \<in> set (merge_intervals (?m # rs) is). fst i < snd i) \<and>
      (\<forall>s. (\<exists>i \<in> set (merge_intervals (?m # rs) is). inside s i) \<longleftrightarrow> (\<exists>i \<in> set (?m # rs) \<union> set is. inside s i))"
      using 4(3-) by (intro 4(1) [OF True]) (auto simp: max_def)
    then show ?thesis using True in_m by simp blast
  next
    case False
    have "sorted_wrt (\<lambda>a b. snd a < fst b) (merge_intervals (i # r # rs) is) \<and>
      (\<forall>i \<in> set (merge_intervals (i # r # rs) is). fst i < snd i) \<and>
      (\<forall>s. (\<exists>i \<in> set (merge_intervals (i # r # rs) is). inside s i) \<longleftrightarrow> (\<exists>i \<in> set (i # r # rs) \<union> set is. inside s i))"
      using 4(3-) False by (intro 4(2) [OF False]) (auto simp: not_le dest: less_trans)
    then show ?thesis using False by simp
  qed
qed simp

lemma search_spec:
  assumes "sorted_wrt (\<lambda>a b. snd a < fst b) is" "\<forall>i \<in> set is. fst i < snd i"
  shows "(takeWhile (\<lambda>i. fst i < s) is \<noteq> [] \<and> s \<le> snd (last (takeWhile (\<lambda>i. fst i < s) is))) \<longleftrightarrow> (\<exists>i \<in> set is. inside s i)"
  using assms
proof (induction "is")
  case (Cons a rest)
  show ?case
  proof (cases "fst a < s")
    case True
    show ?thesis
    proof (cases "takeWhile (\<lambda>i. fst i < s) rest")
      case Nil
      have "\<not> inside s i" if i: "i \<in> set rest" for i
      proof -
        obtain b bs where b: "rest = b # bs" using i by (cases rest) auto
        then have "\<not> fst b < s" using Nil by (auto split: if_splits)
        moreover have "i = b \<or> fst b < fst i"
          using i b Cons(2,3) by (auto dest: less_trans)
        ultimately show ?thesis by (auto dest: less_trans)
      qed
      with True Nil show ?thesis by auto
    next
      case (Cons b bs)
      have "b \<in> set rest" "fst b < s" using Cons by (metis list.set_intros(1) set_takeWhileD)+
      then have "\<not> inside s a" using \<open>sorted_wrt _ (a # rest)\<close> by (auto dest: less_trans)
      then show ?thesis using True Cons Cons.IH Cons.prems by auto
    qed
  next
    case False
    have "\<not> inside s i" if "i \<in> set rest" for i
      using that False Cons(2,3) by (auto dest: less_trans)
    with False show ?thesis by auto
  qed
qed simp

lemma collect_spec:
  "collect_rollbacks ix ids eff rs = Inr eff' \<Longrightarrow>
   set (eff' k) = set (eff k) \<union>
     (\<lambda>r. (ri_effect_sequence_lower_exclusive r, ri_effect_sequence_upper_inclusive r)) `
       {r \<in> set rs. ri_creator_local_transaction_id r = k} \<and>
   (\<forall>r \<in> set rs. ri_effect_sequence_lower_exclusive r < ri_effect_sequence_upper_inclusive r)"
proof (induction ix ids eff rs rule: collect_rollbacks.induct)
  case (2 ix ids eff r rs)
  let ?i = "(ri_effect_sequence_lower_exclusive r, ri_effect_sequence_upper_inclusive r)"
  let ?eff = "eff(ri_creator_local_transaction_id r := eff (ri_creator_local_transaction_id r) @ [?i])"
  have ok: "\<not> (\<not> V7_id (ri_rollback_record_uuid r) \<or> \<not> V7_id (ri_creator_transaction_uuid r) \<or>
      ri_effect_sequence_upper_inclusive r \<le> ri_effect_sequence_lower_exclusive r \<or> ri_rollback_record_uuid r \<in> ids)"
    "Creator ix (ri_creator_local_transaction_id r) (ri_creator_transaction_uuid r) \<noteq> None"
    and rest: "collect_rollbacks ix (insert (ri_rollback_record_uuid r) ids) ?eff rs = Inr eff'"
    using 2(2) by (auto split: if_splits)
  show ?case using 2(1) [OF ok rest] ok(1) by (cases "ri_creator_local_transaction_id r = k") (auto simp: not_le)
qed auto

definition rolled_back_by :: "table_content_generation_rollback_interval list \<Rightarrow> table_content_generation_version \<Rightarrow> bool" where
  "rolled_back_by rollbacks v \<longleftrightarrow>
    (\<exists>r \<in> set rollbacks. ri_creator_local_transaction_id r = tv_creator_local_transaction_id v \<and>
       ri_effect_sequence_lower_exclusive r < tv_publication_effect_sequence v \<and>
       tv_publication_effect_sequence v \<le> ri_effect_sequence_upper_inclusive r)"

lemma invalidated_iff:
  assumes "collect_rollbacks ix {} (\<lambda>_. []) rollbacks = Inr eff"
  shows "invalidated eff v \<longleftrightarrow> rolled_back_by rollbacks v"
proof -
  let ?is = "eff (tv_creator_local_transaction_id v)"
  have c: "set ?is = (\<lambda>r. (ri_effect_sequence_lower_exclusive r, ri_effect_sequence_upper_inclusive r)) `
       {r \<in> set rollbacks. ri_creator_local_transaction_id r = tv_creator_local_transaction_id v}"
    "\<forall>r \<in> set rollbacks. ri_effect_sequence_lower_exclusive r < ri_effect_sequence_upper_inclusive r"
    using collect_spec [OF assms] by auto
  have m: "sorted_wrt (\<lambda>a b. snd a < fst b) (merge_intervals [] (sort_intervals ?is)) \<and>
    (\<forall>i \<in> set (merge_intervals [] (sort_intervals ?is)). fst i < snd i) \<and>
    (\<forall>s. (\<exists>i \<in> set (merge_intervals [] (sort_intervals ?is)). inside s i) \<longleftrightarrow> (\<exists>i \<in> set [] \<union> set (sort_intervals ?is). inside s i))"
    by (rule merge_spec) (use c in \<open>auto simp: sort_intervals_def\<close>)
  have "invalidated eff v \<longleftrightarrow> (\<exists>i \<in> set ?is. inside (tv_publication_effect_sequence v) i)"
    using search_spec [OF conjunct1 [OF m] conjunct1 [OF conjunct2 [OF m]]] m
    by (simp add: invalidated_def Let_def sort_intervals_def)
  then show ?thesis using c(1) by (auto simp: rolled_back_by_def)
qed

section \<open>Lemmas: selection\<close>

lemma index_spec:
  "index_entries nid ix ids es = Some ix' \<Longrightarrow>
   ix' i = (case ix i of Some e \<Rightarrow> Some e | None \<Rightarrow> find (\<lambda>e. entry_id e = i) es) \<and>
   (\<forall>e \<in> set es. RowState (entry_state e) \<noteq> RV_unknown)"
  by (induction nid ix ids es rule: index_entries.induct) (auto split: if_splits option.splits)

text \<open>
  What the selection is defined by: the creator in the inventory, and whether a version of the table that no
  rollback invalidated is seen, or waited for.
\<close>

definition creator_entry :: "local_transaction_inventory \<Rightarrow> table_content_generation_version \<Rightarrow> transaction_inventory_entry" where
  "creator_entry ivt v = the (FindEntry ivt (tv_creator_local_transaction_id v))"

definition seen_as ::
  "table_content_generation_read_context \<Rightarrow> table_content_generation_rollback_interval list \<Rightarrow>
   local_transaction_inventory \<Rightarrow> visibility_decision \<Rightarrow> table_content_generation_version \<Rightarrow> bool" where
  "seen_as c rollbacks ivt d v \<longleftrightarrow>
    tv_table_uuid v = tc_table_uuid c \<and> \<not> rolled_back_by rollbacks v \<and>
    decision (EvaluateVisibility (generation_metadata v (creator_entry ivt v)) (tc_snapshot c)) = d"

fun lineage :: "table_content_generation_version option \<Rightarrow> table_content_generation_version list \<Rightarrow> bool" where
  "lineage b [] \<longleftrightarrow> True"
| "lineage b (v # vs) \<longleftrightarrow>
    (case b of None \<Rightarrow> Nil_id (tv_predecessor_generation_uuid v)
     | Some w \<Rightarrow> tv_predecessor_generation_uuid v = tv_generation_uuid w) \<and> lineage (Some v) vs"

abbreviation settled :: "table_content_generation_selection \<Rightarrow> bool" where
  "settled r \<equiv> sel_status r = (if sel_binding r = None then SS_not_visible else SS_selected)"

definition with_pending :: "transaction_identity \<Rightarrow> table_content_generation_selection \<Rightarrow> table_content_generation_selection" where
  "with_pending i r = (if local_id i \<in> local_id ` set (sel_pending_creators r) then r
     else r\<lparr>sel_pending_creators := sel_pending_creators r @ [i]\<rparr>)"

lemma with_pending_simps [simp]:
  "sel_binding (with_pending i r) = sel_binding r" "sel_status (with_pending i r) = sel_status r"
  "local_id ` set (sel_pending_creators (with_pending i r)) = insert (local_id i) (local_id ` set (sel_pending_creators r))"
  by (auto simp: with_pending_def)

lemma select_step:
  assumes c: "Creator ix (tv_creator_local_transaction_id v) (tv_creator_transaction_uuid v) = Some (creator_entry ivt v)"
    and inv: "invalidated eff v \<longleftrightarrow> rolled_back_by rollbacks v"
    and s: "sel_status (select_generation ix eff c r (v # vs)) \<in> {SS_selected, SS_not_visible}"
  shows "\<exists>r'. select_generation ix eff c r (v # vs) = select_generation ix eff c r' vs \<and>
    (seen_as c rollbacks ivt VD_visible v \<and> lineage (sel_binding r) [v] \<and>
       r' = r\<lparr>sel_binding := Some v, sel_status := SS_selected\<rparr> \<or>
     seen_as c rollbacks ivt VD_wait_for_transaction v \<and> r' = with_pending (identity (creator_entry ivt v)) r \<or>
     \<not> seen_as c rollbacks ivt VD_visible v \<and> \<not> seen_as c rollbacks ivt VD_wait_for_transaction v \<and> r' = r)"
proof (cases "tv_table_uuid v = tc_table_uuid c \<and> \<not> invalidated eff v")
  case True
  let ?e = "creator_entry ivt v"
  let ?d = "decision (EvaluateVisibility (generation_metadata v ?e) (tc_snapshot c))"
  have seen: "seen_as c rollbacks ivt d v \<longleftrightarrow> ?d = d" for d using True inv by (simp add: seen_as_def)
  show ?thesis
    using s True unfolding seen
    by (cases ?d) (auto simp: c Let_def Fail_def with_pending_def split: if_splits option.splits)
next
  case False
  then have "\<not> seen_as c rollbacks ivt d v" for d using inv by (auto simp: seen_as_def)
  moreover have "select_generation ix eff c r (v # vs) = select_generation ix eff c r vs"
    using s False by (auto simp: c Let_def Fail_def split: if_splits)
  ultimately show ?thesis by blast
qed

lemma select_spec:
  assumes "\<And>v. v \<in> set vs \<Longrightarrow> Creator ix (tv_creator_local_transaction_id v) (tv_creator_transaction_uuid v) = Some (creator_entry ivt v)"
    and inv: "\<And>v. invalidated eff v \<longleftrightarrow> rolled_back_by rollbacks v"
    and "settled r" and "sel_status (select_generation ix eff c r vs) \<in> {SS_selected, SS_not_visible}"
  defines "seen \<equiv> filter (seen_as c rollbacks ivt VD_visible) vs"
  shows "settled (select_generation ix eff c r vs) \<and> lineage (sel_binding r) seen \<and>
    sel_binding (select_generation ix eff c r vs) = (if seen = [] then sel_binding r else Some (last seen)) \<and>
    local_id ` set (sel_pending_creators (select_generation ix eff c r vs)) = local_id ` (set (sel_pending_creators r) \<union>
      (\<lambda>v. identity (creator_entry ivt v)) ` set (filter (seen_as c rollbacks ivt VD_wait_for_transaction) vs))"
  using assms(1,3,4) unfolding seen_def
proof (induction vs arbitrary: r)
  case (Cons v vs)
  let ?sel = "select_generation ix eff c"
  obtain r' where step: "?sel r (v # vs) = ?sel r' vs"
    and alt: "seen_as c rollbacks ivt VD_visible v \<and> lineage (sel_binding r) [v] \<and>
       r' = r\<lparr>sel_binding := Some v, sel_status := SS_selected\<rparr> \<or>
     seen_as c rollbacks ivt VD_wait_for_transaction v \<and> r' = with_pending (identity (creator_entry ivt v)) r \<or>
     \<not> seen_as c rollbacks ivt VD_visible v \<and> \<not> seen_as c rollbacks ivt VD_wait_for_transaction v \<and> r' = r"
    using select_step [OF Cons.prems(1) [OF list.set_intros(1)] inv Cons.prems(3)] by blast
  have set': "settled r'" using alt Cons.prems(2) by auto
  note ih = Cons.IH [OF Cons.prems(1) [OF list.set_intros(2)] set', unfolded step [symmetric], OF _ Cons.prems(3)]
  have excl: "\<not> (seen_as c rollbacks ivt VD_visible v \<and> seen_as c rollbacks ivt VD_wait_for_transaction v)"
    by (auto simp: seen_as_def)
  from alt show ?case
    using ih excl by (elim disjE) (auto simp: image_Un)
qed simp

lemma Fail_status [simp]: "sel_status (Fail s) = s"
  by (simp add: Fail_def)

lemma collect_refusals: "collect_rollbacks ix ids eff rs = Inl s \<Longrightarrow> s \<in> {SS_corrupt_history, SS_inventory_required}"
  by (induction ix ids eff rs rule: collect_rollbacks.induct) (auto split: if_splits)

lemma resolve_ok:
  assumes "sel_status (ResolveTableContentGeneration c history rollbacks ivt) \<in> {SS_selected, SS_not_visible}"
  obtains ix eff where
    "index_entries (next_local_transaction_id ivt) Map.empty {} (entries ivt) = Some ix"
    "list_all (\<lambda>v. Creator ix (tv_creator_local_transaction_id v) (tv_creator_transaction_uuid v) \<noteq> None) history"
    "collect_rollbacks ix {} (\<lambda>_. []) rollbacks = Inr eff"
    "ResolveTableContentGeneration c history rollbacks ivt =
      select_generation ix eff c \<lparr>sel_status = SS_not_visible, sel_binding = None, sel_pending_creators = []\<rparr> history"
  using assms
  unfolding ResolveTableContentGeneration_def Let_def
  by (auto split: if_splits option.splits sum.splits dest: collect_refusals)

lemma seen_creator:
  assumes "seen_as c rollbacks ivt VD_visible v"
  shows "InventoryVisibilityState (creator_entry ivt v) = TS_committed \<or>
    entry_id (creator_entry ivt v) = reader_transaction (tc_snapshot c)"
proof -
  let ?e = "creator_entry ivt v"
  have "decision (EvaluateState (generation_metadata v ?e) (tc_snapshot c) (RowState (InventoryVisibilityState ?e))) = VD_visible"
    using assms by (auto simp: seen_as_def EvaluateVisibility_def Evaluate_def generation_metadata_def split: sum.splits)
  then show ?thesis
    by (cases "InventoryVisibilityState ?e") (auto simp: EvaluateState_def generation_metadata_def split: if_splits)
qed

section \<open>Sample values\<close>

definition sample_id :: "byte \<Rightarrow> content_generation_uuid" where
  "sample_id b = uuid_bytes (sample_uuid b)"

definition sample_generation ::
  "byte \<Rightarrow> content_generation_uuid \<Rightarrow> byte \<Rightarrow> u64 \<Rightarrow> u64 \<Rightarrow> table_content_generation_version" where
  "sample_generation b pre tx loc sq =
    \<lparr>tv_database_uuid = sample_id 200, tv_schema_uuid = sample_id 201, tv_table_uuid = sample_id 202,
     tv_catalog_row_uuid = sample_id 203, tv_catalog_version_uuid = sample_id (b + 50), tv_generation_uuid = sample_id b,
     tv_predecessor_generation_uuid = pre, tv_root_set_uuid = sample_id 204, tv_statistics_generation_uuid = sample_id 205,
     tv_batch_uuid = sample_id (b + 100), tv_creator_transaction_uuid = sample_id tx, tv_creator_local_transaction_id = loc,
     tv_publication_effect_sequence = sq, tv_descriptor_generation = 1, tv_batch_ordinal = 0, tv_batch_target_count = 1\<rparr>"

definition sample_history :: "table_content_generation_version list" where
  "sample_history = [sample_generation 10 (replicate 16 0) 1 1 1, sample_generation 11 (sample_id 10) 1 1 2,
     sample_generation 12 (sample_id 10) 1 1 3, sample_generation 13 (sample_id 12) 2 2 4]"

definition sample_rollbacks :: "table_content_generation_rollback_interval list" where
  "sample_rollbacks = [\<lparr>ri_rollback_record_uuid = sample_id 30, ri_creator_transaction_uuid = sample_id 1,
     ri_creator_local_transaction_id = 1, ri_effect_sequence_lower_exclusive = 1, ri_effect_sequence_upper_inclusive = 2\<rparr>]"

definition sample_read_context :: table_content_generation_read_context where
  "sample_read_context = \<lparr>tc_database_uuid = sample_id 200, tc_table_uuid = sample_id 202,
     tc_reader_transaction_uuid = replicate 16 0,
     tc_snapshot = \<lparr>reader_transaction = 0, visible_through_local_transaction_id = 3,
       visible_through_local_transaction_id_is_boundary = True, allow_reader_own_uncommitted = True, recovery_context = False,
       active_excluded_local_transaction_ids = [], in_doubt_excluded_local_transaction_ids = [],
       visible_through_commit_sequence = 0, visible_through_commit_sequence_is_boundary = False\<rparr>\<rparr>"

definition published_inventory :: "transaction_inventory_entry \<Rightarrow> local_transaction_inventory" where
  "published_inventory e = sample_inventory\<lparr>entries := [e, sample_entry 2 2 TS_active 0 0, sample_entry 3 3 TS_active 1 0]\<rparr>"

definition published_entry :: transaction_inventory_entry where
  "published_entry = (sample_entry 1 1 TS_committed 0 1)\<lparr>evidence_record_written := True\<rparr>"

section \<open>Properties\<close>

text \<open>
  C37. The content generation of a table. Whenever the selection ends without a refusal, it is the last
  generation of the table in the published history that the reader's snapshot sees and that no rollback
  record of its creator covers; there is none exactly when nothing is selected. The generations seen form one
  line, each the successor of the one before; every one of them is of a committed transaction or of the
  reader; and the pending creators are those of the generations the snapshot would have to wait for.
\<close>

theorem selection_is_the_last_visible_generation:
  assumes "sel_status (ResolveTableContentGeneration c history rollbacks ivt) \<in> {SS_selected, SS_not_visible}"
  defines "r \<equiv> ResolveTableContentGeneration c history rollbacks ivt"
    and "seen \<equiv> filter (seen_as c rollbacks ivt VD_visible) history"
  shows "sel_binding r = (if seen = [] then None else Some (last seen)) \<and>
    (sel_status r = SS_selected \<longleftrightarrow> seen \<noteq> []) \<and> lineage None seen \<and>
    (\<forall>v \<in> set seen. InventoryVisibilityState (creator_entry ivt v) = TS_committed \<or>
       entry_id (creator_entry ivt v) = reader_transaction (tc_snapshot c)) \<and>
    local_id ` set (sel_pending_creators r) =
      (\<lambda>v. entry_id (creator_entry ivt v)) ` set (filter (seen_as c rollbacks ivt VD_wait_for_transaction) history)"
proof -
  from assms(1) obtain ix eff where ix: "index_entries (next_local_transaction_id ivt) Map.empty {} (entries ivt) = Some ix"
    and cr: "list_all (\<lambda>v. Creator ix (tv_creator_local_transaction_id v) (tv_creator_transaction_uuid v) \<noteq> None) history"
    and eff: "collect_rollbacks ix {} (\<lambda>_. []) rollbacks = Inr eff"
    and r: "ResolveTableContentGeneration c history rollbacks ivt =
      select_generation ix eff c \<lparr>sel_status = SS_not_visible, sel_binding = None, sel_pending_creators = []\<rparr> history"
    by (rule resolve_ok)
  have find: "ix i = FindEntry ivt i" for i using index_spec [OF ix] by (simp add: FindEntry_def)
  have creators: "Creator ix (tv_creator_local_transaction_id v) (tv_creator_transaction_uuid v) = Some (creator_entry ivt v)"
    if "v \<in> set history" for v
    using cr that by (auto simp: list_all_iff Creator_def find creator_entry_def split: option.splits if_splits)
  note sel = select_spec [OF creators invalidated_iff [OF eff] _ assms(1) [unfolded r], folded r, simplified]
  have "sel_status r = (if sel_binding r = None then SS_not_visible else SS_selected)" using sel by (simp add: r_def)
  then show ?thesis using sel seen_creator [of c rollbacks ivt] by (auto simp: r_def seen_def image_image)
qed

theorem selection_is_the_last_visible_generation_witness:
  "\<exists>r. r = ResolveTableContentGeneration sample_read_context sample_history sample_rollbacks (published_inventory published_entry) \<and>
    sel_status r = SS_selected \<and> sel_binding r = Some (sample_generation 12 (sample_id 10) 1 1 3) \<and>
    local_id ` set (sel_pending_creators r) = {2}"
proof -
  let ?i = "published_inventory published_entry"
  let ?r = "ResolveTableContentGeneration sample_read_context sample_history sample_rollbacks ?i"
  have s: "sel_status ?r = SS_selected" by code_simp
  have f: "filter (seen_as sample_read_context sample_rollbacks ?i VD_visible) sample_history =
      [sample_generation 10 (replicate 16 0) 1 1 1, sample_generation 12 (sample_id 10) 1 1 3]"
    "map (\<lambda>v. entry_id (creator_entry ?i v))
       (filter (seen_as sample_read_context sample_rollbacks ?i VD_wait_for_transaction) sample_history) = [2]"
    by code_simp+
  from f(2) have w: "(\<lambda>v. entry_id (creator_entry ?i v)) `
      set (filter (seen_as sample_read_context sample_rollbacks ?i VD_wait_for_transaction) sample_history) = {2}"
    by (metis (no_types, lifting) empty_set list.set_map list.simps(15))
  have ok: "sel_status ?r \<in> {SS_selected, SS_not_visible}" using s by simp
  show ?thesis using selection_is_the_last_visible_generation [OF ok] s unfolding f w by simp
qed

text \<open>
  C39. One archived transaction blocks every table. If the inventory lists an archived transaction, whoever
  it was, no content generation can be resolved for any reader, table or history.
\<close>

theorem archived_transaction_blocks_every_table:
  assumes "e \<in> set (entries ivt)" and "entry_state e = TS_archived"
  shows "sel_status (ResolveTableContentGeneration c history rollbacks ivt) \<in> {SS_inventory_required, SS_invalid_request}"
proof -
  have "index_entries (next_local_transaction_id ivt) Map.empty {} (entries ivt) = None"
    using index_spec [of "next_local_transaction_id ivt" Map.empty "{}" "entries ivt"] assms
    by (cases "index_entries (next_local_transaction_id ivt) Map.empty {} (entries ivt)") force+
  then show ?thesis unfolding ResolveTableContentGeneration_def Let_def by simp
qed

theorem archived_transaction_blocks_every_table_witness:
  "\<exists>e. entry_state e = TS_archived \<and> HasCommittedInventoryOutcome e \<and> ValidateLocalTransactionInventoryStructure (published_inventory e) = '''' \<and>
    sel_status (ResolveTableContentGeneration sample_read_context sample_history sample_rollbacks (published_inventory e))
      \<in> {SS_inventory_required, SS_invalid_request}"
proof -
  let ?e = "published_entry\<lparr>entry_state := TS_archived, archived_from_state := TS_committed\<rparr>"
  have e: "entry_state ?e = TS_archived" "HasCommittedInventoryOutcome ?e" "ValidateLocalTransactionInventoryStructure (published_inventory ?e) = ''''"
    by code_simp+
  have "?e \<in> set (entries (published_inventory ?e))" "entry_state ?e = TS_archived"
    by (simp_all add: published_inventory_def)
  from archived_transaction_blocks_every_table [OF this, of sample_read_context sample_history sample_rollbacks] e
  show ?thesis by blast
qed

end
