(* ===== verification/HistoricalSnapshot.thy ===== *)
theory HistoricalSnapshot
  imports TransactionSnapshot InventoryEvolution
begin

text \<open>
  Audit snapshots of the past, \<^verbatim>\<open>historical_snapshot_locator.{hpp,cpp}\<close>: a read-only reader asks for the
  database as of a committed transaction. The lemmas show when the request is served, and what the snapshot
  it is served with sees.
\<close>

section \<open>Data\<close>

datatype historical_audit_location_class = HL_local_hot | HL_local_archive | HL_retired | HL_remote | HL_unknown

record historical_audit_snapshot_evidence =
  he_transaction_inventory_authoritative :: bool
  he_archive_manifest_authoritative :: bool
  he_security_policy_authoritative :: bool
  he_catalog_epoch_authoritative :: bool
  he_cluster_epoch_authoritative :: bool
  he_external_cluster_provider_available :: bool
  he_security_epoch :: u64
  he_catalog_generation_id :: u64
  he_cluster_epoch :: u64

record historical_audit_snapshot_request =
  hq_inventory :: local_transaction_inventory
  hq_audit_reader_transaction :: local_transaction_id
  hq_target_local_transaction_id :: local_transaction_id
  hq_requested_location_class :: historical_audit_location_class
  hq_evidence :: historical_audit_snapshot_evidence
  hq_retired_history_evidence_present :: bool
  hq_write_intent :: bool

record historical_audit_snapshot_result =
  hr_status :: status
  hr_snapshot :: local_transaction_snapshot
  hr_visibility_snapshot :: visibility_snapshot
  hr_target_local_transaction_id :: local_transaction_id
  hr_location_class :: historical_audit_location_class
  hr_target_transaction_state :: string
  hr_queryable :: bool
  hr_writes_refused :: bool
  hr_fail_closed :: bool
  hr_retired_history_exact :: bool
  hr_no_cluster_remote_fail_closed :: bool
  hr_parser_finality_authority :: bool
  hr_reference_finality_authority :: bool
  hr_diagnostic :: "diagnostic_record option"

definition historical_ok :: "historical_audit_snapshot_result \<Rightarrow> bool" where
  "historical_ok r \<longleftrightarrow> status_ok (hr_status r) \<and> hr_queryable r \<and> local_id_valid (snap_reader_transaction (hr_snapshot r))"

section \<open>Operations\<close>

fun HistoricalAuditLocationClassName :: "historical_audit_location_class \<Rightarrow> string" where
  "HistoricalAuditLocationClassName HL_local_hot = ''local_hot''"
| "HistoricalAuditLocationClassName HL_local_archive = ''local_archive''"
| "HistoricalAuditLocationClassName HL_retired = ''retired''"
| "HistoricalAuditLocationClassName HL_remote = ''remote''"
| "HistoricalAuditLocationClassName HL_unknown = ''unknown''"

definition MakeHistoricalAuditSnapshotDiagnostic :: "status \<Rightarrow> string \<Rightarrow> string \<Rightarrow> string \<Rightarrow> diagnostic_record" where
  "MakeHistoricalAuditSnapshotDiagnostic = component_diagnostic ''transaction.mga.historical_snapshot''"

text \<open>The members of a default-constructed result.\<close>

definition default_historical_result :: historical_audit_snapshot_result where
  "default_historical_result =
    \<lparr>hr_status = \<lparr>status_code = SC_ok, status_severity = Sev_info, status_subsystem = Sub_platform\<rparr>,
     hr_snapshot = \<lparr>snap_reader_transaction = kInvalidLocalTransactionId,
       snap_visible_through_local_transaction = kInvalidLocalTransactionId,
       snap_transaction_start_visible_through_local_transaction = kInvalidLocalTransactionId,
       snap_oldest_active_transaction = kInvalidLocalTransactionId,
       snap_oldest_snapshot_transaction = kInvalidLocalTransactionId, snap_allow_reader_own_uncommitted = True,
       snap_visible_through_commit_sequence = 0, snap_transaction_start_visible_through_commit_sequence = 0\<rparr>,
     hr_visibility_snapshot = \<lparr>reader_transaction = kInvalidLocalTransactionId,
       visible_through_local_transaction_id = kInvalidLocalTransactionId,
       visible_through_local_transaction_id_is_boundary = False, allow_reader_own_uncommitted = True,
       recovery_context = False, active_excluded_local_transaction_ids = [],
       in_doubt_excluded_local_transaction_ids = [], visible_through_commit_sequence = 0,
       visible_through_commit_sequence_is_boundary = False\<rparr>,
     hr_target_local_transaction_id = kInvalidLocalTransactionId, hr_location_class = HL_unknown,
     hr_target_transaction_state = ''unknown'', hr_queryable = False, hr_writes_refused = True, hr_fail_closed = True,
     hr_retired_history_exact = False, hr_no_cluster_remote_fail_closed = False, hr_parser_finality_authority = False,
     hr_reference_finality_authority = False, hr_diagnostic = None\<rparr>"

definition RefuseHistorical ::
  "historical_audit_location_class \<Rightarrow> string \<Rightarrow> string \<Rightarrow> string \<Rightarrow> historical_audit_snapshot_result" where
  "RefuseHistorical loc code key detail =
    default_historical_result\<lparr>hr_status := TransactionErrorStatus, hr_location_class := loc, hr_fail_closed := True,
      hr_queryable := False, hr_writes_refused := True, hr_retired_history_exact := (loc = HL_retired),
      hr_no_cluster_remote_fail_closed := (loc = HL_remote),
      hr_diagnostic := Some (MakeHistoricalAuditSnapshotDiagnostic TransactionErrorStatus code key detail)\<rparr>"

definition FindHistoricalEntry ::
  "local_transaction_inventory \<Rightarrow> local_transaction_id \<Rightarrow> transaction_inventory_entry option" where
  "FindHistoricalEntry ivt i = (if \<not> local_id_valid i then None else find (\<lambda>e. entry_id e = i) (entries ivt))"

definition InferredLocationClass :: "transaction_state \<Rightarrow> historical_audit_location_class" where
  "InferredLocationClass st = (if st = TS_archived then HL_local_archive else HL_local_hot)"

definition CommonAuthorityEvidencePresent :: "historical_audit_snapshot_evidence \<Rightarrow> bool" where
  "CommonAuthorityEvidencePresent ev \<longleftrightarrow> he_transaction_inventory_authoritative ev \<and>
    he_security_policy_authoritative ev \<and> he_catalog_epoch_authoritative ev \<and> he_cluster_epoch_authoritative ev \<and>
    he_security_epoch ev \<noteq> 0 \<and> he_catalog_generation_id ev \<noteq> 0 \<and> he_cluster_epoch ev \<noteq> 0"

text \<open>The part of \<^verbatim>\<open>CreateHistoricalAuditSnapshot\<close> after the reader and the target have been found.\<close>

definition historical_snapshot_at ::
  "historical_audit_snapshot_request \<Rightarrow> transaction_inventory_entry \<Rightarrow> transaction_inventory_entry \<Rightarrow>
   historical_audit_snapshot_result" where
  "historical_snapshot_at rq reader target =
    (let loc = (if hq_requested_location_class rq = HL_unknown then InferredLocationClass (entry_state target)
                else hq_requested_location_class rq);
         about_target = (\<lambda>r. r\<lparr>hr_target_local_transaction_id := entry_id target,
                              hr_target_transaction_state := TransactionStateName (entry_state target)\<rparr>) in
     if loc = HL_local_archive \<and> \<not> he_archive_manifest_authoritative (hq_evidence rq) then
       about_target (RefuseHistorical loc ''SB-MGA-HISTORICAL-SNAPSHOT-ARCHIVE-EVIDENCE-REQUIRED''
         ''transaction.historical_snapshot.archive_evidence_required'' [])
     else if \<not> HasCommittedInventoryOutcome target then
       about_target (RefuseHistorical loc ''SB-MGA-HISTORICAL-SNAPSHOT-TARGET-NOT-QUERYABLE''
         ''transaction.historical_snapshot.target_not_queryable'' (TransactionStateName (entry_state target)))
     else case ComputeLocalTransactionHorizonsWithSnapshots (hq_inventory rq) [hq_target_local_transaction_id rq] of
       Inl d \<Rightarrow> about_target (default_historical_result\<lparr>hr_status := HorizonErrorStatus, hr_diagnostic := Some d,
                 hr_location_class := loc, hr_fail_closed := True, hr_writes_refused := True\<rparr>)
     | Inr h \<Rightarrow> about_target (default_historical_result\<lparr>hr_status := TransactionOkStatus, hr_location_class := loc,
         hr_queryable := True, hr_fail_closed := False, hr_writes_refused := True,
         hr_parser_finality_authority := False, hr_reference_finality_authority := False,
         hr_snapshot := (hr_snapshot default_historical_result)\<lparr>snap_reader_transaction := entry_id reader,
           snap_visible_through_local_transaction := entry_id target,
           snap_transaction_start_visible_through_local_transaction := entry_id target,
           snap_oldest_active_transaction := oldest_active_transaction h,
           snap_oldest_snapshot_transaction := oldest_snapshot_transaction h,
           snap_allow_reader_own_uncommitted := False\<rparr>,
         hr_visibility_snapshot := (hr_visibility_snapshot default_historical_result)\<lparr>reader_transaction := entry_id reader,
           visible_through_local_transaction_id := entry_id target,
           visible_through_local_transaction_id_is_boundary := True, allow_reader_own_uncommitted := False,
           recovery_context := False\<rparr>,
         hr_diagnostic := Some (MakeHistoricalAuditSnapshotDiagnostic TransactionOkStatus ''SB-MGA-HISTORICAL-SNAPSHOT-OK''
           ''transaction.historical_snapshot.ok'' (HistoricalAuditLocationClassName loc))\<rparr>))"

definition CreateHistoricalAuditSnapshot ::
  "historical_audit_snapshot_request \<Rightarrow> historical_audit_snapshot_result" where
  "CreateHistoricalAuditSnapshot rq =
    (if hq_write_intent rq then
       RefuseHistorical HL_unknown ''SB-MGA-HISTORICAL-SNAPSHOT-WRITE-REFUSED''
         ''transaction.historical_snapshot.write_refused'' []
     else if hq_requested_location_class rq = HL_remote then
       RefuseHistorical HL_remote
         (if he_external_cluster_provider_available (hq_evidence rq)
          then ''SB-MGA-HISTORICAL-SNAPSHOT-REMOTE-EXTERNAL-PROVIDER-REQUIRED''
          else ''SB-MGA-HISTORICAL-SNAPSHOT-REMOTE-NO-CLUSTER'')
         ''transaction.historical_snapshot.remote_fail_closed''
         (if he_external_cluster_provider_available (hq_evidence rq)
          then ''remote_snapshot_requires_external_cluster_provider'' else ''remote_snapshot_no_cluster_provider'')
     else if hq_retired_history_evidence_present rq \<or> hq_requested_location_class rq = HL_retired then
       RefuseHistorical HL_retired ''SB-MGA-HISTORICAL-SNAPSHOT-RETIRED-EXACT''
         ''transaction.historical_snapshot.retired_exact'' ''retired_history_requires_restore_or_retention_proof''
     else if \<not> CommonAuthorityEvidencePresent (hq_evidence rq) then
       RefuseHistorical HL_unknown ''SB-MGA-HISTORICAL-SNAPSHOT-AUTHORITY-EVIDENCE-REQUIRED''
         ''transaction.historical_snapshot.authority_evidence_required'' []
     else case FindHistoricalEntry (hq_inventory rq) (hq_audit_reader_transaction rq) of
       None \<Rightarrow> RefuseHistorical HL_unknown ''SB-MGA-HISTORICAL-SNAPSHOT-READER-NOT-FOUND''
                 ''transaction.historical_snapshot.reader_not_found'' []
     | Some reader \<Rightarrow>
         if entry_state reader \<noteq> TS_read_only_active then
           RefuseHistorical HL_unknown ''SB-MGA-HISTORICAL-SNAPSHOT-READER-NOT-READ-ONLY''
             ''transaction.historical_snapshot.reader_not_read_only'' (TransactionStateName (entry_state reader))
         else (case FindHistoricalEntry (hq_inventory rq) (hq_target_local_transaction_id rq) of
           None \<Rightarrow> RefuseHistorical HL_unknown ''SB-MGA-HISTORICAL-SNAPSHOT-TARGET-UNKNOWN''
                     ''transaction.historical_snapshot.target_unknown'' []
         | Some target \<Rightarrow> historical_snapshot_at rq reader target))"

section \<open>Lemmas\<close>

lemma historical_refused [simp]: "\<not> historical_ok (RefuseHistorical loc code key detail)"
  by (simp add: historical_ok_def RefuseHistorical_def)

lemma historical_at_ok:
  assumes "historical_ok (historical_snapshot_at rq reader target)"
  shows "HasCommittedInventoryOutcome target \<and>
    hr_visibility_snapshot (historical_snapshot_at rq reader target) =
      \<lparr>reader_transaction = entry_id reader, visible_through_local_transaction_id = entry_id target,
       visible_through_local_transaction_id_is_boundary = True, allow_reader_own_uncommitted = False,
       recovery_context = False, active_excluded_local_transaction_ids = [],
       in_doubt_excluded_local_transaction_ids = [], visible_through_commit_sequence = 0,
       visible_through_commit_sequence_is_boundary = False\<rparr>"
proof -
  have "historical_ok (r\<lparr>hr_target_local_transaction_id := a, hr_target_transaction_state := b\<rparr>) \<longleftrightarrow> historical_ok r" for r a b
    by (simp add: historical_ok_def)
  then show ?thesis using assms
    by (auto simp: historical_snapshot_at_def Let_def default_historical_result_def historical_ok_def
        RefuseHistorical_def TransactionErrorStatus_def HorizonErrorStatus_def status_ok_def split: if_splits sum.splits)
qed

lemma historical_ok_cases:
  assumes "historical_ok (CreateHistoricalAuditSnapshot rq)"
  shows "\<exists>reader target. FindHistoricalEntry (hq_inventory rq) (hq_audit_reader_transaction rq) = Some reader \<and>
    entry_state reader = TS_read_only_active \<and>
    FindHistoricalEntry (hq_inventory rq) (hq_target_local_transaction_id rq) = Some target \<and>
    CreateHistoricalAuditSnapshot rq = historical_snapshot_at rq reader target"
proof -
  let ?P = "\<lambda>r. historical_ok r \<longrightarrow> (\<exists>reader target.
    FindHistoricalEntry (hq_inventory rq) (hq_audit_reader_transaction rq) = Some reader \<and>
    entry_state reader = TS_read_only_active \<and>
    FindHistoricalEntry (hq_inventory rq) (hq_target_local_transaction_id rq) = Some target \<and>
    r = historical_snapshot_at rq reader target)"
  have i: "?P (if b then RefuseHistorical loc code key detail else y)" if "?P y" for b loc code key detail y
    using that by simp
  have "?P (CreateHistoricalAuditSnapshot rq)"
    unfolding CreateHistoricalAuditSnapshot_def
    by (rule i)+ (simp split: option.split)
  then show ?thesis using assms by blast
qed

section \<open>Property\<close>

text \<open>
  C40. An audit snapshot of the past goes by transaction numbers. A request that is served has a read-only
  reader and a committed target, and its snapshot sees exactly the committed versions of transactions numbered
  up to the target, also those that committed after the target did, and none of the reader's own.
\<close>

theorem historical_snapshot_goes_by_numbers:
  assumes "historical_ok (CreateHistoricalAuditSnapshot rq)"
  shows "(\<exists>reader. LookupLocalTransaction (hq_inventory rq) (hq_audit_reader_transaction rq) = Inr reader \<and>
      entry_state reader = TS_read_only_active) \<and>
    (\<exists>target. LookupLocalTransaction (hq_inventory rq) (hq_target_local_transaction_id rq) = Inr target \<and>
      HasCommittedInventoryOutcome target) \<and>
    (\<forall>m. is_visible (EvaluateVisibility m (hr_visibility_snapshot (CreateHistoricalAuditSnapshot rq))) \<longleftrightarrow>
      is_ok (ValidateRowVersionMetadata m) \<and> version_state m = RV_committed \<and> creator_transaction_state m = TS_committed \<and>
      creator_id m \<le> hq_target_local_transaction_id rq)"
proof -
  obtain reader target where f: "FindHistoricalEntry (hq_inventory rq) (hq_audit_reader_transaction rq) = Some reader"
    "entry_state reader = TS_read_only_active"
    "FindHistoricalEntry (hq_inventory rq) (hq_target_local_transaction_id rq) = Some target"
    and r: "CreateHistoricalAuditSnapshot rq = historical_snapshot_at rq reader target"
    using historical_ok_cases [OF assms] by blast
  note at = historical_at_ok [OF assms [unfolded r]]
  have id: "entry_id target = hq_target_local_transaction_id rq"
    using f(3) by (auto simp: FindHistoricalEntry_def dest: find_Some_mem split: if_splits)
  have look: "LookupLocalTransaction (hq_inventory rq) i = Inr e" if "FindHistoricalEntry (hq_inventory rq) i = Some e" for i e
    using that by (auto simp: FindHistoricalEntry_def LookupLocalTransaction_def split: if_splits)
  show ?thesis
    using look [OF f(1)] f(2) look [OF f(3)] conjunct1 [OF at]
    by (auto simp: r conjunct2 [OF at] EvaluateVisibility_visible own_uncommitted_def snapshot_admits_def id)
qed

definition overtaken_inventory :: local_transaction_inventory where
  "overtaken_inventory =
    \<lparr>next_local_transaction_id = 4, next_commit_sequence = 3,
     entries = [sample_entry 1 1 TS_committed 0 2, sample_entry 2 2 TS_committed 0 1, sample_entry 3 3 TS_read_only_active 2 0],
     publication_base = None\<rparr>"

definition sample_audit :: historical_audit_snapshot_request where
  "sample_audit =
    \<lparr>hq_inventory = overtaken_inventory, hq_audit_reader_transaction = 3, hq_target_local_transaction_id = 2,
     hq_requested_location_class = HL_unknown,
     hq_evidence = \<lparr>he_transaction_inventory_authoritative = True, he_archive_manifest_authoritative = True,
       he_security_policy_authoritative = True, he_catalog_epoch_authoritative = True, he_cluster_epoch_authoritative = True,
       he_external_cluster_provider_available = False, he_security_epoch = 1, he_catalog_generation_id = 1, he_cluster_epoch = 1\<rparr>,
     hq_retired_history_evidence_present = False, hq_write_intent = False\<rparr>"

theorem historical_snapshot_goes_by_numbers_witness:
  "ValidateLocalTransactionInventoryStructure overtaken_inventory = '''' \<and>
   historical_ok (CreateHistoricalAuditSnapshot sample_audit) \<and>
   is_visible (EvaluateVisibility (sample_version 1 1 101 1 RV_committed TS_committed 2)
     (hr_visibility_snapshot (CreateHistoricalAuditSnapshot sample_audit))) \<and>
   (\<exists>target. LookupLocalTransaction overtaken_inventory 2 = Inr target \<and> commit_sequence target < 2)"
proof -
  have v: "ValidateLocalTransactionInventoryStructure overtaken_inventory = ''''" by code_simp
  have ok: "historical_ok (CreateHistoricalAuditSnapshot sample_audit)" by code_simp
  have m: "is_ok (ValidateRowVersionMetadata (sample_version 1 1 101 1 RV_committed TS_committed 2))" by code_simp
  have t: "LookupLocalTransaction overtaken_inventory 2 = Inr (sample_entry 2 2 TS_committed 0 1)"
    "commit_sequence (sample_entry 2 2 TS_committed 0 1) < 2" by code_simp+
  have "is_visible (EvaluateVisibility (sample_version 1 1 101 1 RV_committed TS_committed 2)
     (hr_visibility_snapshot (CreateHistoricalAuditSnapshot sample_audit)))"
    using historical_snapshot_goes_by_numbers [OF ok, THEN conjunct2, THEN conjunct2, THEN spec,
        of "sample_version 1 1 101 1 RV_committed TS_committed 2"] m
    by (simp add: sample_version_def sample_audit_def)
  with v ok t show ?thesis by (intro conjI exI [of _ "sample_entry 2 2 TS_committed 0 1"])
qed

end
