(* ===== verification/TransactionEvidence.thy ===== *)
theory TransactionEvidence
  imports TransactionRecovery
begin

text \<open>
  Lineage evidence and the decision whether an inventory may be restored,
  \<^verbatim>\<open>transaction_evidence.{hpp,cpp}\<close>; the runtime policy of a transaction, \<^verbatim>\<open>transaction_policy.{hpp,cpp}\<close>;
  and the refusal of cluster transactions, \<^verbatim>\<open>cluster_transaction_fail_closed.{hpp,cpp}\<close>. Memory exhaustion and
  metrics are left out. The lemmas relate restoring to recovery and the policy to elapsed time.
\<close>

section \<open>Lineage evidence\<close>

record transaction_evidence_context =
  ec_database_uuid :: uuid
  ec_snapshot_uuid :: uuid
  ec_policy_snapshot_uuid :: uuid
  ec_snapshot_generation :: u64
  ec_catalog_generation :: u64
  ec_security_generation :: u64
  ec_policy_generation :: u64

datatype transaction_evidence_error =
    EE_none | EE_invalid_context | EE_wal_not_authority | EE_invalid_inventory | EE_restore_refused
  | EE_resource_exhausted | EE_internal_failure

record transaction_lineage_evidence_record =
  le_local_id :: local_transaction_id
  le_transaction_uuid :: uuid
  le_context :: transaction_evidence_context
  le_event_class :: string
  le_observed_state :: string
  le_terminal_state :: string
  le_restore_classification :: string
  le_refusal_condition :: string
  le_terminal :: bool
  le_evidence_written :: bool
  le_wal_required :: bool

record transaction_lineage_evidence_result =
  ler_error :: transaction_evidence_error
  ler_records :: "transaction_lineage_evidence_record list"

record transaction_restore_classification_result =
  trr_error :: transaction_evidence_error
  trr_records :: "transaction_lineage_evidence_record list"
  trr_restore_allowed :: bool
  trr_wal_required :: bool

definition ValidContext :: "transaction_evidence_context \<Rightarrow> bool" where
  "ValidContext c \<longleftrightarrow>
    IsEngineIdentityUuid (ec_database_uuid c) \<and> IsEngineIdentityUuid (ec_snapshot_uuid c) \<and>
    IsEngineIdentityUuid (ec_policy_snapshot_uuid c) \<and> ec_database_uuid c \<noteq> ec_snapshot_uuid c \<and>
    ec_database_uuid c \<noteq> ec_policy_snapshot_uuid c \<and> ec_snapshot_uuid c \<noteq> ec_policy_snapshot_uuid c \<and>
    ec_snapshot_generation c \<noteq> 0 \<and> ec_catalog_generation c \<noteq> 0 \<and> ec_security_generation c \<noteq> 0 \<and>
    ec_policy_generation c \<noteq> 0"

fun EventClassForState :: "transaction_state \<Rightarrow> string" where
  "EventClassForState TS_created = ''begin''"
| "EventClassForState TS_active = ''begin''"
| "EventClassForState TS_preparing = ''begin''"
| "EventClassForState TS_read_only_active = ''read_only_begin''"
| "EventClassForState TS_prepared = ''prepare''"
| "EventClassForState TS_committing = ''commit''"
| "EventClassForState TS_committed = ''commit''"
| "EventClassForState TS_rolling_back = ''rollback''"
| "EventClassForState TS_rolled_back = ''rollback''"
| "EventClassForState TS_limbo = ''recovery_hold''"
| "EventClassForState TS_recovering = ''recovery_hold''"
| "EventClassForState TS_failed_terminal = ''failed_terminal''"
| "EventClassForState TS_archived = ''archived''"
| "EventClassForState TS_none = ''unknown''"

definition RestoreSafeTerminal :: "transaction_state \<Rightarrow> bool" where
  "RestoreSafeTerminal s \<longleftrightarrow> s = TS_committed \<or> s = TS_rolled_back"

definition RestoreClassificationFor :: "transaction_recovery_classification \<Rightarrow> transaction_state \<Rightarrow> string" where
  "RestoreClassificationFor c outcome =
    (if rc_fail_closed c then ''refuse_fail_closed''
     else if RestoreSafeTerminal outcome then ''restore_terminal_evidence''
     else if rc_action c = RA_complete_rollback then ''restore_after_local_rollback_recovery''
     else if rc_action c = RA_complete_commit then ''restore_after_local_commit_recovery''
     else ''restore_requires_classification'')"

definition BuildRecord ::
  "transaction_inventory_entry \<Rightarrow> transaction_evidence_context \<Rightarrow> transaction_lineage_evidence_record" where
  "BuildRecord e c =
    (let cl = ClassifyLocalTransactionForRecovery e; outcome = InventoryVisibilityState e in
     \<lparr>le_local_id = entry_id e, le_transaction_uuid = entry_uuid e, le_context = c,
      le_event_class = EventClassForState (entry_state e), le_observed_state = TransactionStateName (entry_state e),
      le_terminal_state = (if IsTerminalTransactionState outcome then TransactionStateName outcome else ''''),
      le_restore_classification = RestoreClassificationFor cl outcome,
      le_refusal_condition = (if rc_fail_closed cl then rc_stable_reason cl else ''''),
      le_terminal = IsTerminalTransactionState outcome, le_evidence_written = evidence_record_written e,
      le_wal_required = False\<rparr>)"

definition BuildTransactionLineageEvidence ::
  "local_transaction_inventory \<Rightarrow> transaction_evidence_context \<Rightarrow> transaction_lineage_evidence_result" where
  "BuildTransactionLineageEvidence ivt c =
    (if \<not> ValidContext c then \<lparr>ler_error = EE_invalid_context, ler_records = []\<rparr>
     else let invalid = ValidateLocalTransactionInventoryStructure ivt in
       \<lparr>ler_error = EE_none,
        ler_records = map (\<lambda>e. let r = BuildRecord e c in
          if invalid \<noteq> '''' then r\<lparr>le_restore_classification := ''refuse_fail_closed'', le_refusal_condition := invalid\<rparr>
          else r) (entries ivt)\<rparr>)"

definition ClassifyTransactionInventoryForRestore ::
  "local_transaction_inventory \<Rightarrow> transaction_evidence_context \<Rightarrow> bool \<Rightarrow> transaction_restore_classification_result" where
  "ClassifyTransactionInventoryForRestore ivt c requires_wal =
    (let refused = (\<lambda>err. \<lparr>trr_error = err, trr_records = [], trr_restore_allowed = False, trr_wal_required = False\<rparr>) in
     if \<not> ValidContext c then refused EE_invalid_context
     else if requires_wal then refused EE_wal_not_authority
     else if ValidateLocalTransactionInventoryStructure ivt \<noteq> '''' then refused EE_invalid_inventory
     else
       let projection = BuildTransactionLineageEvidence ivt c in
       if ler_error projection \<noteq> EE_none then refused (ler_error projection)
       else
         let bad = list_ex (\<lambda>r. le_restore_classification r = ''refuse_fail_closed'') (ler_records projection) in
         \<lparr>trr_error = (if bad then EE_restore_refused else EE_none), trr_records = ler_records projection,
          trr_restore_allowed = \<not> bad, trr_wal_required = False\<rparr>)"

section \<open>Runtime policy\<close>

record transaction_runtime_policy =
  tp_max_active_millis :: u64
  tp_max_idle_millis :: u64
  tp_fail_closed_on_violation :: bool
  tp_wait_mode :: string
  tp_lock_timeout_millis :: u64
  tp_lock_timeout_present :: bool

text \<open>\<^verbatim>\<open>TransactionPolicyResult\<close>: the diagnostic of a violation, or nothing when the transaction is allowed to go on.\<close>

type_synonym transaction_policy_result = "unit result"

definition DefaultLocalTransactionRuntimePolicy :: transaction_runtime_policy where
  "DefaultLocalTransactionRuntimePolicy =
    \<lparr>tp_max_active_millis = 24 * 60 * 60 * 1000, tp_max_idle_millis = 60 * 60 * 1000, tp_fail_closed_on_violation = True,
     tp_wait_mode = '''', tp_lock_timeout_millis = 0, tp_lock_timeout_present = False\<rparr>"

definition MakeTransactionPolicyDiagnostic :: "status \<Rightarrow> string \<Rightarrow> string \<Rightarrow> string \<Rightarrow> diagnostic_record" where
  "MakeTransactionPolicyDiagnostic = component_diagnostic ''transaction.mga.policy''"

definition EvaluateTransactionRuntimePolicy ::
  "transaction_inventory_entry \<Rightarrow> transaction_runtime_policy \<Rightarrow> u64 \<Rightarrow> u64 \<Rightarrow> transaction_policy_result" where
  "EvaluateTransactionRuntimePolicy e p now last_activity =
    (if tp_max_active_millis p \<noteq> 0 \<and> begin_unix_epoch_millis e < now \<and>
        tp_max_active_millis p < now - begin_unix_epoch_millis e then
       Inl (MakeTransactionPolicyDiagnostic TransactionErrorStatus ''SB-SNTXN-LONG-RUNNING-POLICY-VIOLATION''
         ''transaction.policy.long_running_violation'' (to_string (entry_id e)))
     else if tp_max_idle_millis p \<noteq> 0 \<and> last_activity < now \<and> tp_max_idle_millis p < now - last_activity then
       Inl (MakeTransactionPolicyDiagnostic TransactionErrorStatus ''SB-SNTXN-IDLE-POLICY-VIOLATION''
         ''transaction.policy.idle_violation'' (to_string (entry_id e)))
     else Inr ())"

section \<open>Cluster transactions\<close>

record cluster_transaction_metadata =
  cm_transaction_uuid :: typed_uuid
  cm_cluster_epoch :: u64
  cm_decision_generation :: u64
  cm_state :: transaction_state
  cm_cluster_authority_active :: bool

record cluster_transaction_result =
  ct_status :: status
  ct_metadata :: cluster_transaction_metadata
  ct_diagnostic :: diagnostic_record

definition ClusterUnavailableStatus :: status where
  "ClusterUnavailableStatus = \<lparr>status_code = SC_platform_required_feature_missing, status_severity = Sev_error,
     status_subsystem = Sub_cluster_private\<rparr>"

definition MakeClusterTransactionDiagnostic :: "status \<Rightarrow> string \<Rightarrow> string \<Rightarrow> string \<Rightarrow> diagnostic_record" where
  "MakeClusterTransactionDiagnostic = component_diagnostic ''transaction.mga.cluster_fail_closed''"

definition ClusterFail ::
  "string \<Rightarrow> string \<Rightarrow> cluster_transaction_metadata \<Rightarrow> string \<Rightarrow> cluster_transaction_result" where
  "ClusterFail code key m detail =
    \<lparr>ct_status = ClusterUnavailableStatus, ct_metadata = m,
     ct_diagnostic = MakeClusterTransactionDiagnostic ClusterUnavailableStatus code key detail\<rparr>"

definition RejectClusterTransactionUntilMappingAvailable ::
  "cluster_transaction_metadata \<Rightarrow> string \<Rightarrow> cluster_transaction_result" where
  "RejectClusterTransactionUntilMappingAvailable m operation_name =
    ClusterFail ''SB-CLUSTER-MAPPING-UNAVAILABLE'' ''cluster_transaction.mapping_unavailable'' m operation_name"

definition BeginClusterTransactionFailClosed :: "cluster_transaction_metadata \<Rightarrow> cluster_transaction_result" where
  "BeginClusterTransactionFailClosed m = RejectClusterTransactionUntilMappingAvailable m ''begin_cluster_transaction''"

definition CommitClusterTransactionFailClosed :: "cluster_transaction_metadata \<Rightarrow> cluster_transaction_result" where
  "CommitClusterTransactionFailClosed m = RejectClusterTransactionUntilMappingAvailable m ''commit_cluster_transaction''"

section \<open>Lemmas\<close>

lemma cluster_transactions_refused:
  "\<not> status_ok (ct_status (BeginClusterTransactionFailClosed m)) \<and> \<not> status_ok (ct_status (CommitClusterTransactionFailClosed m)) \<and>
   ct_metadata (BeginClusterTransactionFailClosed m) = m \<and> ct_metadata (CommitClusterTransactionFailClosed m) = m"
  by (simp add: BeginClusterTransactionFailClosed_def CommitClusterTransactionFailClosed_def ClusterFail_def
      RejectClusterTransactionUntilMappingAvailable_def ClusterUnavailableStatus_def status_ok_def)

text \<open>
  The policy measures elapsed time without wrap-around: a transaction may go on exactly when neither the time
  since it began nor the time since its last activity, none of which is negative, is over a limit that is set.
\<close>

lemma over_limit:
  "lim \<noteq> 0 \<and> t < now \<and> lim < now - t \<longleftrightarrow> lim \<noteq> 0 \<and> unat lim < unat now - unat t" for lim t now :: u64
  by (auto simp: word_less_nat_alt unat_sub word_le_nat_alt)

lemma policy_allows_iff:
  "is_ok (EvaluateTransactionRuntimePolicy e p now last_activity) \<longleftrightarrow>
    (tp_max_active_millis p = 0 \<or> unat now - unat (begin_unix_epoch_millis e) \<le> unat (tp_max_active_millis p)) \<and>
    (tp_max_idle_millis p = 0 \<or> unat now - unat last_activity \<le> unat (tp_max_idle_millis p))"
  unfolding EvaluateTransactionRuntimePolicy_def over_limit by (auto simp: not_less)

lemma classification_refuses:
  "RestoreClassificationFor c outcome = ''refuse_fail_closed'' \<longleftrightarrow> rc_fail_closed c"
  by (simp add: RestoreClassificationFor_def)

lemma recovery_classified:
  "status_ok (rr_status (ClassifyLocalTransactionInventoryForRecovery ivt)) \<longleftrightarrow>
     ValidateLocalTransactionInventoryStructure ivt = ''''"
  "ValidateLocalTransactionInventoryStructure ivt = '''' \<Longrightarrow>
   rr_write_admission_must_remain_fenced (ClassifyLocalTransactionInventoryForRecovery ivt) \<longleftrightarrow> list_ex fail_closed (entries ivt)"
proof -
  have "\<forall>e \<in> set (entries ivt). transaction_identity_valid (identity e)"
    if "ValidateLocalTransactionInventoryStructure ivt = ''''"
    using that valid_entry [of ivt] by (auto simp: structure_valid_iff entry_ok_def)
  then show "status_ok (rr_status (ClassifyLocalTransactionInventoryForRecovery ivt)) \<longleftrightarrow>
     ValidateLocalTransactionInventoryStructure ivt = ''''"
    "ValidateLocalTransactionInventoryStructure ivt = '''' \<Longrightarrow>
     rr_write_admission_must_remain_fenced (ClassifyLocalTransactionInventoryForRecovery ivt) \<longleftrightarrow> list_ex fail_closed (entries ivt)"
    by (auto simp: ClassifyLocalTransactionInventoryForRecovery_def classify_entries_valid empty_recovery_result_def
        recovery_error_def status_ok_def TransactionOkStatus_def TransactionErrorStatus_def)
qed

section \<open>Property\<close>

text \<open>
  C38. Restore and recovery agree. An inventory may be restored exactly when the context is valid, no log is
  asked for, and the classification for recovery accepts the inventory and leaves write admission unfenced;
  exactly then there is no error.
\<close>

theorem restore_agrees_with_recovery:
  "(trr_restore_allowed (ClassifyTransactionInventoryForRestore ivt c requires_wal) \<longleftrightarrow>
     ValidContext c \<and> \<not> requires_wal \<and> status_ok (rr_status (ClassifyLocalTransactionInventoryForRecovery ivt)) \<and>
     \<not> rr_write_admission_must_remain_fenced (ClassifyLocalTransactionInventoryForRecovery ivt)) \<and>
   (trr_error (ClassifyTransactionInventoryForRestore ivt c requires_wal) = EE_none \<longleftrightarrow>
     trr_restore_allowed (ClassifyTransactionInventoryForRestore ivt c requires_wal))"
  using recovery_classified [of ivt]
  by (auto simp: ClassifyTransactionInventoryForRestore_def BuildTransactionLineageEvidence_def BuildRecord_def Let_def
      list_ex_iff classification_refuses)

end
