(* ===== verification/Spec2Isabelle.thy ===== *)
theory Spec2Isabelle
  imports TransactionLock Savepoint ReaderSafety Isolation InventoryView
    TransactionRecovery TransactionManager VisibilityStatusCache CurrentRowMap
    TableContentGeneration HistoricalSnapshot TransactionEvidence
begin

text \<open>
  A verification development for the transaction core of ScratchBird, a multi-generational (MVCC)
  database engine written in C++ under \<^verbatim>\<open>src/project/src\<close>. Paths below are relative to that
  directory; a name without a directory is in \<^verbatim>\<open>transaction/mga\<close>.

  \<^bold>\<open>The parts of the program.\<close> \<^verbatim>\<open>core/platform\<close> and \<^verbatim>\<open>core/uuid\<close> define status codes, diagnostic records and
  typed identities. \<^verbatim>\<open>transaction/mga\<close> keeps the inventory of local transactions: every operation looks an
  entry up, moves it through a fixed table of states and validates the inventory before and after. The
  horizons are minima over the inventory; snapshots and their published descriptors are cuts of its commit
  order; row visibility, isolation, caches, the row map and content generations are decided against them;
  cleanup gives up the row versions that lie below the horizons. Recovery finishes an inventory after a
  crash. \<^verbatim>\<open>storage/disk\<close> and \<^verbatim>\<open>storage/page\<close> hold the page images in which an inventory is stored.

  \<^bold>\<open>The theories.\<close>
  \<^item> \<open>Prelude\<close>: word types, fact collections, generic lemmas, and the locales \<open>invariant_system\<close> (a step relation
    keeps an invariant), \<open>history_system\<close> (a relation between the states of a run) and \<open>keyed_items\<close> (lists whose
    elements carry a key), interpreted on the inventory, the registry, the lock table, the trackers and the
    caches. \<open>StdMap\<close>: \<^verbatim>\<open>std::map\<close> as a sorted association list. \<open>ByteCodec\<close>: byte order.
  \<^item> \<open>Platform\<close>, \<open>UuidModel\<close>, \<open>UuidCodec\<close>: \<^verbatim>\<open>runtime_platform\<close>, \<^verbatim>\<open>diagnostics\<close> and \<^verbatim>\<open>uuid\<close>. A fallible function returns
    \<open>diagnostic_record + 'a\<close>. C13: typed identities are exactly those of version 7.
  \<^item> \<open>TransactionState\<close>, \<open>TransactionInventory\<close>, \<open>InventoryEvolution\<close>: \<^verbatim>\<open>transaction_state\<close>, \<^verbatim>\<open>transaction_inventory\<close> and
    \<^verbatim>\<open>transaction_inventory_validation.hpp\<close>. The class is a record, each method a function on it. C3 to C8:
    every state can finish, the structure check decides the invariant, every operation keeps it and passes
    the successor check, whose closure is reachability, and accepted successors keep outcomes.
  \<^item> \<open>TransactionRecovery\<close>, \<open>TransactionManager\<close>, \<open>TransactionEvidence\<close>: \<^verbatim>\<open>transaction_recovery\<close>, \<^verbatim>\<open>transaction_prepare\<close>,
    \<^verbatim>\<open>transaction_manager\<close>, \<^verbatim>\<open>transaction_metrics\<close>, \<^verbatim>\<open>transaction_evidence\<close>, \<^verbatim>\<open>transaction_policy\<close> and
    \<^verbatim>\<open>cluster_transaction_fail_closed\<close>. C9 to C12 and C38: what recovery does and that it is idempotent, the
    operator decision, the accounts of the manager, restore against recovery.
  \<^item> \<open>NativePageHeader\<close>, \<open>InventoryPage\<close>, \<open>InventoryPageCodec\<close>, \<open>InventoryView\<close>: \<^verbatim>\<open>storage/disk/native_common_page_header\<close> and
    \<^verbatim>\<open>storage/page/transaction_inventory_page\<close>. C14 to C16: the codecs are exact in both directions, and the
    variants in caller-owned buffers refine the owning ones.
  \<^item> \<open>TransactionHorizon\<close>, \<open>RowVersion\<close>, \<open>TransactionSnapshot\<close>, \<open>HistoricalSnapshot\<close>: \<^verbatim>\<open>transaction_horizon\<close>, \<^verbatim>\<open>row_version\<close>,
    \<^verbatim>\<open>transaction_snapshot\<close> and \<^verbatim>\<open>historical_snapshot_locator\<close>. C17 to C22 and C40: what lies below a horizon, the
    visibility rule, snapshots and published descriptors as stable commit cuts, publication and pins.
  \<^item> \<open>VisibilityStatusCache\<close>, \<open>PageFinality\<close>, \<open>CurrentRowMap\<close>, \<open>TableContentGeneration\<close>: the files of the same names. C23 to
    C25, C29, C37 and C39: cached answers agree with the inventory or rest on evidence, the rebuilt row map
    is exact, the selected content generation is the last visible one.
  \<^item> \<open>TransactionLock\<close>, \<open>CopyOnWrite\<close>, \<open>Savepoint\<close>, \<open>Isolation\<close>: the files of the same names. C26 to C28 and C30 to C35: exclusion
    and the deadlock search, phases of a mutation, rollback plans, repeatable reads and the serializable
    tracker.
  \<^item> \<open>CleanupHorizon\<close>, \<open>TransactionCleanup\<close>, \<open>ReaderSafety\<close> and this theory: \<^verbatim>\<open>transaction_cleanup_horizon_service\<close> and
    \<^verbatim>\<open>transaction_cleanup\<close>. C2: the sweep stays within its limits. C1 and C36, below: which readers cleanup
    protects and which it does not.

  \<^bold>\<open>Conventions.\<close> Unsigned integers are words of their width, and additions wrap as in the code; counters
  that only bound a loop are naturals. A method that takes a mutex for its whole body is one step, and
  interleavings are sequences of steps (\<open>inventory_step\<close>, \<open>registry_step\<close>, \<open>store_step\<close>, \<open>lock_step\<close>, \<open>tracker_step\<close>). The
  retry loop of a publication takes its mutex once per attempt and is one step here. Random bytes, times,
  SHA-256, the page device and the physical undo executor are arguments. Metrics that do not feed back are
  left out. \<^verbatim>\<open>std::sort\<close> leaves equal keys in any order; the model keeps their recording order, and no property
  depends on it. State and scope codes out of range decode to the values that validation refuses.

  \<^bold>\<open>Bounds.\<close> Every function terminates and there is no fuel. A publication makes at most 32 attempts, as the
  code does; C21 shows that the first free identity among them is enough. The deadlock search is cut off
  at a depth of one more than the number of lock records, as the code does; C27 shows that this loses no path.

  \<^bold>\<open>Not modelled.\<close> \<^verbatim>\<open>lock_wait_lifecycle\<close> and \<^verbatim>\<open>transaction_support_services\<close>, which nothing else in the sources
  calls; the memory hooks and pressure metrics, which only observe; the older inventory body format and the
  page chain reader; allocation failures, which the code turns into \<^verbatim>\<open>resource_exhausted\<close>. Outside the transaction
  core: operating system I/O, sockets and processes, the catalog, indexes, SQL parsers, the executor, the
  optimizer, client drivers and tools, whose behaviour the transaction core does not depend on.
\<close>

section \<open>Properties across components\<close>

text \<open>
  C1. Cleanup never takes a version a protected reader still needs. Start from any valid inventory and let
  inventory operations and snapshot publications, pins, releases and revocations happen in any
  order. If a cleanup over the current inventory succeeds and gives up a committed row version, then
  the transaction that replaced the version has committed, and the replacement is seen by three kinds of
  snapshots: those an active transaction takes at this point; those a stable reader that is still active
  took at any earlier moment of its life; and the published ones that are not revoked and whose owner is
  still in the inventory. A snapshot that a reader without a stable snapshot took earlier and did not
  publish is not covered.
\<close>

theorem cleanup_never_takes_a_needed_version:
  assumes "valid_inventory ivt0" and "store_step\<^sup>*\<^sup>* (ivt0, [], {#}) (wr_inventory rq, reg, L)"
    and "workset_ok (ApplyLocalCleanupWithAuthoritativeInventory rq reg)"
    and "wr_retain_row_versions_in_result rq"
    and "m \<in> set (wr_row_versions rq)"
    and "m \<notin> set (ws_retained_row_versions (ApplyLocalCleanupWithAuthoritativeInventory rq reg))"
    and "version_state m = RV_committed"
  shows "\<exists>s \<in> set (entries (wr_inventory rq)). entry_id s = successor_transaction_local_id m \<and>
    entry_state s = TS_committed \<and>
    (\<forall>r snap vis. CreateLocalTransactionSnapshot (wr_inventory rq) (entry_id r) = Inr (snap, vis) \<longrightarrow>
       FindEntry (wr_inventory rq) (entry_id r) = Some r \<longrightarrow>
       entry_state r = TS_active \<or> entry_state r = TS_read_only_active \<longrightarrow>
       snapshot_admits vis (entry_id s) (commit_sequence s)) \<and>
    (\<forall>ivt1 r snap vis. inventory_step\<^sup>*\<^sup>* ivt1 (wr_inventory rq) \<longrightarrow>
       CreateLocalTransactionSnapshot ivt1 (entry_id r) = Inr (snap, vis) \<longrightarrow>
       FindEntry (wr_inventory rq) (entry_id r) = Some r \<longrightarrow>
       entry_state r = TS_active \<or> entry_state r = TS_read_only_active \<longrightarrow> stable_snapshot r \<longrightarrow>
       snapshot_admits vis (entry_id s) (commit_sequence s)) \<and>
    (\<forall>k p owner. registry_find reg k = Some p \<longrightarrow> \<not> pub_revoked p \<longrightarrow>
       LookupLocalTransaction (wr_inventory rq) (sv_owning_transaction (pub_descriptor p)) = Inr owner \<longrightarrow>
       entry_uuid owner = uuid_value (sv_owning_transaction_uuid (pub_descriptor p)) \<longrightarrow>
       admits (pub_descriptor p) (entry_id s))"
proof -
  have ok: "store_ok (wr_inventory rq, reg, L)"
    by (rule store_run.run_keeps [OF assms(2) initial_store_ok [OF assms(1)]])
  obtain published h where v: "valid_inventory (wr_inventory rq)"
    and p: "PublishedSnapshotRetentionHorizons (wr_inventory rq) reg = Inr published"
    and h: "ComputeLocalTransactionHorizonsWithSnapshots (wr_inventory rq)
       (wr_active_snapshot_horizons rq @ published) = Inr h"
    and w: "ws_horizons (ApplyLocalCleanupWithAuthoritativeInventory rq reg) = Some h"
    and k: "ws_authoritative_cleanup_horizon_local_transaction_id (ApplyLocalCleanupWithAuthoritativeInventory rq reg) =
       effective_cleanup_horizon rq (min (min (oldest_interesting_transaction h) (oldest_active_transaction h))
         (oldest_snapshot_transaction h))"
    by (rule Apply_ok [OF assms(3)])
  let ?hz = "ws_authoritative_cleanup_horizon_local_transaction_id (ApplyLocalCleanupWithAuthoritativeInventory rq reg)"
  have "reclaimable rq h ?hz m" using Apply_result(1) [OF assms(3) w] assms(4-6) by auto
  then obtain s where s: "FindInventoryEntry (wr_inventory rq) (successor_transaction_local_id m) = Some s"
    "entry_state s = TS_committed" "successor_transaction_local_id m < ?hz"
    using assms(7) by (auto simp: reclaimable_def)
  have mem: "s \<in> set (entries (wr_inventory rq))" "entry_id s = successor_transaction_local_id m"
    using s(1) by (auto simp: FindInventoryEntry_def find_Some_iff)
  have com: "HasCommittedInventoryOutcome s"
    using s(2) valid_entry [OF v mem(1)]
    by (auto simp: HasCommittedInventoryOutcome_def InventoryVisibilityState_def entry_ok_def)
  have below: "entry_id s < oldest_snapshot_transaction h"
    using s(3) order_trans [OF effective_cleanup_horizon_le min.cobounded2] by (simp add: mem(2) k) (meson less_le_trans)
  show ?thesis
    using mem s(2) below_horizon_published [OF ok p h mem(1) com below] below_horizon_seen [OF h mem(1) com below]
      below_horizon_seen_earlier [OF h mem(1) com below]
    by (intro bexI [of _ s]) blast+
qed

theorem cleanup_never_takes_a_needed_version_witness:
  "\<exists>reg k p. store_step\<^sup>*\<^sup>* (sample_gc_inventory, [], {#}) (sample_gc_inventory, reg, {#}) \<and>
     workset_ok (ApplyLocalCleanupWithAuthoritativeInventory sample_workset reg) \<and>
     sample_old_version \<notin>
       set (ws_retained_row_versions (ApplyLocalCleanupWithAuthoritativeInventory sample_workset reg)) \<and>
     registry_find reg k = Some p \<and> admits (pub_descriptor p) 2 \<and>
     (\<exists>snap vis. CreateLocalTransactionSnapshot sample_gc_inventory 3 = Inr (snap, vis) \<and> snapshot_admits vis 2 2)"
proof -
  let ?p = "PublishStatementStableSnapshotVector sample_rng sample_gc_inventory 3 1700000000000 []"
  define reg where "reg = snd ?p"
  let ?w = "ApplyLocalCleanupWithAuthoritativeInventory sample_workset reg"
  have inv: "wr_inventory sample_workset = sample_gc_inventory" "wr_retain_row_versions_in_result sample_workset"
    "sample_old_version \<in> set (wr_row_versions sample_workset)" "version_state sample_old_version = RV_committed"
    "successor_transaction_local_id sample_old_version = 2"
    by (simp_all add: sample_workset_def sample_old_version_def sample_version_def)
  have v: "valid_inventory sample_gc_inventory" unfolding structure_valid_iff [symmetric] by code_simp
  have "store_step (sample_gc_inventory, [], {#}) (sample_gc_inventory, reg, {#})"
    by (rule store_publish [of _ _ _ _ _ "fst ?p"]) (simp add: reg_def)
  then have run: "store_step\<^sup>*\<^sup>* (sample_gc_inventory, [], {#}) (wr_inventory sample_workset, reg, {#})"
    by (auto simp: inv)
  have ev: "workset_ok ?w" "sample_old_version \<notin> set (ws_retained_row_versions ?w)"
    "map (\<lambda>(_, p). (pub_revoked p, sv_owning_transaction (pub_descriptor p),
       uuid_value (sv_owning_transaction_uuid (pub_descriptor p)))) reg = [(False, 3, sample_uuid 3)]"
    unfolding reg_def by code_simp+
  obtain k p where reg: "reg = [(k, p)]" and p: "\<not> pub_revoked p" "sv_owning_transaction (pub_descriptor p) = 3"
    "uuid_value (sv_owning_transaction_uuid (pub_descriptor p)) = sample_uuid 3"
    using ev(3) by auto
  let ?o = "(sample_entry 3 3 TS_active 2 0)\<lparr>stable_snapshot := True\<rparr>"
  have l: "LookupLocalTransaction sample_gc_inventory 3 = Inr ?o" "entry_uuid ?o = sample_uuid 3"
    by (simp_all add: Lookup_Inr FindEntry_def sample_gc_inventory_def sample_inventory_def sample_entry_def
        sample_transaction_def)
  have f: "registry_find reg k = Some p" by (simp add: reg registry_find_def)
  have "is_ok (CreateLocalTransactionSnapshot sample_gc_inventory 3)" by code_simp
  then obtain snap vis where c: "CreateLocalTransactionSnapshot sample_gc_inventory 3 = Inr (snap, vis)"
    by (auto simp: is_ok_iff)
  have o: "entry_id ?o = 3" "FindEntry sample_gc_inventory 3 = Some ?o" "entry_state ?o = TS_active" "stable_snapshot ?o"
    using l(1) by (auto simp: Lookup_Inr sample_entry_def)
  have cs: "\<forall>s \<in> set (entries sample_gc_inventory). entry_id s = 2 \<longrightarrow> commit_sequence s = 2" by code_simp
  obtain s where "s \<in> set (entries sample_gc_inventory)" "entry_id s = 2" "admits (pub_descriptor p) (entry_id s)"
    "snapshot_admits vis (entry_id s) (commit_sequence s)"
    using cleanup_never_takes_a_needed_version [OF v run ev(1) inv(2,3) ev(2) inv(4)] f p l c o
    unfolding inv by (metis rtranclp.rtrancl_refl)
  with cs have "admits (pub_descriptor p) 2" "snapshot_admits vis 2 2" by auto
  with run ev(1,2) f c show ?thesis by (auto simp: inv)
qed

section \<open>A reader cleanup does not protect\<close>




end
